(* ===== verification/Prelude.thy ===== *)
theory Prelude
  imports Main "HOL-Library.Word"
begin

text \<open>
  Shared vocabulary of the development: the names of the machine integer types, the
  outcome of a Rust computation (a value, an \<open>Err\<close> of the crate, or the death of the
  process), the sequencing of such computations over a state, and the lemma
  collections and generic list lemmas the component theories use.
\<close>

type_synonym u8 = "8 word"
type_synonym u16 = "16 word"
type_synonym u32 = "32 word"
type_synonym u64 = "64 word"
type_synonym u128 = "128 word"
type_synonym bytes = "u8 list"

named_theorems outcome_simps \<open>evaluation of outcomes and of their sequencing\<close>
named_theorems cpu_simps \<open>reading a part of the CPU state after a write\<close>
named_theorems mem_simps \<open>reading a part of the memory state after a write\<close>
named_theorems handler_defs \<open>definitions of the instruction handlers\<close>

subsection \<open>Errors and outcomes\<close>

text \<open>
  \<open>crate::Error\<close> of \<open>lib.rs\<close>. The message strings of the memory and interpreter
  errors are built with \<open>format!\<close> from the values the error concerns; the model keeps
  those values (the address and the length, the inner error) instead of their rendering.
\<close>

datatype error =
    LoadError string
  | MemoryError string u64 u64
  | DecodeError u64 string
  | UnhandledSyscall u64
  | InterpreterError u64 string "error option"

text \<open>
  How a process that runs the code can die: a Rust panic, a fault on a raw pointer, or a
  loop that never returns.
\<close>

datatype abort = Panic | Segv | Diverge

datatype 'a out = Val 'a | Fail error | Crash abort

primrec bindO :: "'a out \<Rightarrow> ('a \<Rightarrow> 'b out) \<Rightarrow> 'b out" where
  "bindO (Val a) f = f a"
| "bindO (Fail e) f = Fail e"
| "bindO (Crash c) f = Crash c"

primrec is_Val :: "'a out \<Rightarrow> bool" where
  "is_Val (Val a) = True"
| "is_Val (Fail e) = False"
| "is_Val (Crash c) = False"

primrec is_Crash :: "'a out \<Rightarrow> bool" where
  "is_Crash (Val a) = False"
| "is_Crash (Fail e) = False"
| "is_Crash (Crash c) = True"

lemma bindO_Val_iff: "bindO m f = Val b \<longleftrightarrow> (\<exists>a. m = Val a \<and> f a = Val b)"
  by (cases m) auto

lemma bindO_Fail_iff: "bindO m f = Fail e \<longleftrightarrow> m = Fail e \<or> (\<exists>a. m = Val a \<and> f a = Fail e)"
  by (cases m) auto

lemma bindO_Crash_iff: "bindO m f = Crash e \<longleftrightarrow> m = Crash e \<or> (\<exists>a. m = Val a \<and> f a = Crash e)"
  by (cases m) auto

lemma bindO_assoc: "bindO (bindO m f) g = bindO m (\<lambda>x. bindO (f x) g)"
  by (cases m) auto

lemma bindO_right_Val [simp]: "bindO m Val = m"
  by (cases m) auto

lemma not_Val_cases: "\<not> is_Val m \<Longrightarrow> (\<exists>e. m = Fail e) \<or> (\<exists>c. m = Crash c)"
  by (cases m) auto

subsection \<open>Computations that change a state\<close>

text \<open>
  A computation returns its outcome and the state it leaves: an error return keeps the
  changes made before it, as a Rust function that takes \<open>&mut\<close> does.
\<close>

type_synonym ('s, 'a) comp = "'s \<Rightarrow> 'a out \<times> 's"

definition ret :: "'a \<Rightarrow> ('s, 'a) comp" where
  "ret a = (\<lambda>s. (Val a, s))"

definition bind :: "('s, 'a) comp \<Rightarrow> ('a \<Rightarrow> ('s, 'b) comp) \<Rightarrow> ('s, 'b) comp" where
  "bind m f = (\<lambda>s. case m s of
      (Val a, s') \<Rightarrow> f a s'
    | (Fail e, s') \<Rightarrow> (Fail e, s')
    | (Crash c, s') \<Rightarrow> (Crash c, s'))"

text \<open>\<open>lift\<close> runs an outcome that leaves the state alone, \<open>modify\<close> changes the state only.\<close>

definition lift :: "'a out \<Rightarrow> ('s, 'a) comp" where
  "lift r = (\<lambda>s. (r, s))"

definition modify :: "('s \<Rightarrow> 's) \<Rightarrow> ('s, unit) comp" where
  "modify f = (\<lambda>s. (Val (), f s))"

definition gets :: "('s \<Rightarrow> 'a) \<Rightarrow> ('s, 'a) comp" where
  "gets f = (\<lambda>s. (Val (f s), s))"

text \<open>\<open>let _ = m;\<close>: an \<open>Err\<close> is dropped, a crash is not.\<close>

definition ignore_err :: "('s, 'a) comp \<Rightarrow> ('s, unit) comp" where
  "ignore_err m = (\<lambda>s. case m s of
      (Val a, s') \<Rightarrow> (Val (), s')
    | (Fail e, s') \<Rightarrow> (Val (), s')
    | (Crash c, s') \<Rightarrow> (Crash c, s'))"

text \<open>\<open>m.ok()\<close>: an \<open>Err\<close> becomes \<open>None\<close>, a crash stays a crash.\<close>

definition attempt :: "('s, 'a) comp \<Rightarrow> ('s, 'a option) comp" where
  "attempt m = (\<lambda>s. case m s of
      (Val a, s') \<Rightarrow> (Val (Some a), s')
    | (Fail e, s') \<Rightarrow> (Val None, s')
    | (Crash c, s') \<Rightarrow> (Crash c, s'))"

text \<open>\<open>m.map_err(f)\<close>.\<close>

definition map_err :: "(error \<Rightarrow> error) \<Rightarrow> ('s, 'a) comp \<Rightarrow> ('s, 'a) comp" where
  "map_err f m = (\<lambda>s. case m s of
      (Val a, s') \<Rightarrow> (Val a, s')
    | (Fail e, s') \<Rightarrow> (Fail (f e), s')
    | (Crash c, s') \<Rightarrow> (Crash c, s'))"

lemma ret_apply [simp, outcome_simps]: "ret a s = (Val a, s)"
  by (simp add: ret_def)

lemma lift_apply [simp, outcome_simps]: "lift r s = (r, s)"
  by (simp add: lift_def)

lemma modify_apply [simp, outcome_simps]: "modify f s = (Val (), f s)"
  by (simp add: modify_def)

lemma gets_apply [simp, outcome_simps]: "gets f s = (Val (f s), s)"
  by (simp add: gets_def)

lemma bind_Val [outcome_simps]: "m s = (Val a, s') \<Longrightarrow> bind m f s = f a s'"
  by (simp add: bind_def)

lemma bind_Fail [outcome_simps]: "m s = (Fail e, s') \<Longrightarrow> bind m f s = (Fail e, s')"
  by (simp add: bind_def)

lemma bind_Crash [outcome_simps]: "m s = (Crash e, s') \<Longrightarrow> bind m f s = (Crash e, s')"
  by (simp add: bind_def)

lemma bind_ret [simp]: "bind (ret a) f = f a"
  by (simp add: bind_def fun_eq_iff)

lemma bind_gets [simp]: "bind (gets g) f = (\<lambda>s. f (g s) s)"
  by (simp add: bind_def fun_eq_iff)

lemma bind_modify [simp]: "bind (modify g) f = (\<lambda>s. f () (g s))"
  by (simp add: bind_def fun_eq_iff)

lemma bind_lift_Val [simp]: "bind (lift (Val a)) f = f a"
  by (simp add: bind_def fun_eq_iff)

lemma bind_lift_Fail [simp]: "bind (lift (Fail e)) f s = (Fail e, s)"
  by (simp add: bind_def)

lemma bind_lift_Crash [simp]: "bind (lift (Crash e)) f s = (Crash e, s)"
  by (simp add: bind_def)

lemma bind_assoc: "bind (bind m f) g = bind m (\<lambda>x. bind (f x) g)"
  by (auto simp: bind_def fun_eq_iff split: prod.splits out.splits)

lemma bind_split:
  "P (bind m f s) \<longleftrightarrow>
     (\<forall>a s'. m s = (Val a, s') \<longrightarrow> P (f a s')) \<and>
     (\<forall>e s'. m s = (Fail e, s') \<longrightarrow> P (Fail e, s')) \<and>
     (\<forall>c s'. m s = (Crash c, s') \<longrightarrow> P (Crash c, s'))"
  by (auto simp: bind_def split: prod.splits out.splits)

lemma bind_ValE:
  assumes "bind m f s = (Val b, t)"
  obtains a s' where "m s = (Val a, s')" and "f a s' = (Val b, t)"
  using assms by (auto simp: bind_def split: prod.splits out.splits)

lemma ignore_err_not_Fail: "fst (ignore_err m s) \<noteq> Fail e"
  by (auto simp: ignore_err_def split: prod.splits out.splits)

lemma snd_ignore_err [simp]: "snd (ignore_err m s) = snd (m s)"
  by (auto simp: ignore_err_def split: prod.splits out.splits)

lemma snd_attempt [simp]: "snd (attempt m s) = snd (m s)"
  by (auto simp: attempt_def split: prod.splits out.splits)

lemma snd_map_err [simp]: "snd (map_err f m s) = snd (m s)"
  by (auto simp: map_err_def split: prod.splits out.splits)

text \<open>
  \<open>keeps I m\<close>: the computation keeps the invariant \<open>I\<close> whatever its outcome. The
  composition rules below reduce an invariant of a handler to its primitive steps.
\<close>

definition keeps :: "('s \<Rightarrow> bool) \<Rightarrow> ('s, 'a) comp \<Rightarrow> bool" where
  "keeps I m \<longleftrightarrow> (\<forall>s. I s \<longrightarrow> I (snd (m s)))"

named_theorems keeps_intros \<open>composition rules for invariants of computations\<close>

lemma keepsD: "keeps I m \<Longrightarrow> I s \<Longrightarrow> I (snd (m s))"
  by (simp add: keeps_def)

lemma keeps_ret [simp, keeps_intros]: "keeps I (ret a)"
  by (simp add: keeps_def)

lemma keeps_lift [simp, keeps_intros]: "keeps I (lift r)"
  by (simp add: keeps_def)

lemma keeps_gets [simp, keeps_intros]: "keeps I (gets g)"
  by (simp add: keeps_def)

lemma keeps_modify [keeps_intros]: "(\<And>s. I s \<Longrightarrow> I (f s)) \<Longrightarrow> keeps I (modify f)"
  by (simp add: keeps_def)

lemma keeps_bind [keeps_intros]:
  assumes m: "keeps I m" and f: "\<And>a. keeps I (f a)"
  shows "keeps I (bind m f)"
  unfolding keeps_def
proof (intro allI impI)
  fix s assume s: "I s"
  from keepsD [OF m s] have "I (snd (m s))" .
  then show "I (snd (bind m f s))"
    using keepsD [OF f] by (auto simp: bind_def split: prod.splits out.splits)
qed

lemma keeps_ignore_err [keeps_intros]: "keeps I m \<Longrightarrow> keeps I (ignore_err m)"
  by (simp add: keeps_def)

lemma keeps_attempt [keeps_intros]: "keeps I m \<Longrightarrow> keeps I (attempt m)"
  by (simp add: keeps_def)

lemma keeps_map_err [keeps_intros]: "keeps I m \<Longrightarrow> keeps I (map_err f m)"
  by (simp add: keeps_def)

lemma keeps_if [keeps_intros]:
  "(b \<Longrightarrow> keeps I m) \<Longrightarrow> (\<not> b \<Longrightarrow> keeps I n) \<Longrightarrow> keeps I (if b then m else n)"
  by simp

lemma keeps_option [keeps_intros]:
  "keeps I n \<Longrightarrow> (\<And>a. keeps I (m a)) \<Longrightarrow> keeps I (case x of None \<Rightarrow> n | Some a \<Rightarrow> m a)"
  by (cases x) auto

subsection \<open>Lists\<close>

text \<open>\<open>dst[off..off + src.len()].copy_from_slice(src)\<close> for a range inside \<open>dst\<close>.\<close>

definition copy_at :: "nat \<Rightarrow> 'a list \<Rightarrow> 'a list \<Rightarrow> 'a list" where
  "copy_at off src dst = take off dst @ src @ drop (off + length src) dst"

text \<open>\<open>xs[off..off + n]\<close>.\<close>

definition slice_at :: "nat \<Rightarrow> nat \<Rightarrow> 'a list \<Rightarrow> 'a list" where
  "slice_at off n xs = take n (drop off xs)"

lemma length_copy_at [simp]:
  "off + length src \<le> length dst \<Longrightarrow> length (copy_at off src dst) = length dst"
  by (simp add: copy_at_def)

lemma length_slice_at [simp]: "off + n \<le> length xs \<Longrightarrow> length (slice_at off n xs) = n"
  by (simp add: slice_at_def)

lemma slice_copy_same:
  "off + length src \<le> length dst \<Longrightarrow> slice_at off (length src) (copy_at off src dst) = src"
  by (simp add: slice_at_def copy_at_def)

lemma nth_copy_at:
  assumes "off + length src \<le> length dst" and "i < length dst"
  shows "copy_at off src dst ! i =
    (if off \<le> i \<and> i < off + length src then src ! (i - off) else dst ! i)"
  using assms by (auto simp: copy_at_def nth_append min_def)

lemma nth_slice_at: "off + n \<le> length xs \<Longrightarrow> i < n \<Longrightarrow> slice_at off n xs ! i = xs ! (off + i)"
  by (simp add: slice_at_def)

lemma copy_at_0_full: "length src = length dst \<Longrightarrow> copy_at 0 src dst = src"
  by (simp add: copy_at_def)

lemma length_concat_const:
  "(\<And>x. x \<in> set xs \<Longrightarrow> length (f x) = n) \<Longrightarrow> length (concat (map f xs)) = n * length xs"
  by (induction xs) auto

lemma nth_concat_const:
  assumes "\<And>x. x \<in> set xs \<Longrightarrow> length (f x) = n" and "i < n * length xs"
  shows "concat (map f xs) ! i = f (xs ! (i div n)) ! (i mod n)"
  using assms
proof (induction xs arbitrary: i)
  case Nil
  then show ?case by simp
next
  case (Cons x xs)
  have len: "length (f x) = n" using Cons.prems by simp
  show ?case
  proof (cases "i < n")
    case True
    then show ?thesis using len by (simp add: nth_append)
  next
    case False
    with Cons.prems have "0 < n" by (cases n) auto
    with False have d: "i div n = Suc ((i - n) div n)" and m: "i mod n = (i - n) mod n"
      by (simp_all add: le_div_geq le_mod_geq not_less)
    have "i - n < n * length xs" using Cons.prems False by simp
    then have "concat (map f xs) ! (i - n) = f (xs ! ((i - n) div n)) ! ((i - n) mod n)"
      using Cons.IH Cons.prems by simp
    then show ?thesis using False len d m by (simp add: nth_append)
  qed
qed

end
