(* ===== verification/Rust_Std.thy ===== *)
theory Rust_Std
  imports Prelude
begin

text \<open>
  The parts of the Rust language and standard library the program computes with:
  arithmetic operators and their overflow checks, the \<open>wrapping_\<close>, \<open>overflowing_\<close> and
  \<open>rotate_\<close> methods of the integer types, byte order conversions, bit counts, and the
  string searches used on \<open>Debug\<close> renderings. Signed integers are their two's
  complement words, read with \<open>sint\<close>.
\<close>

unbundle bit_operations_syntax

subsection \<open>Operators with overflow checks\<close>

text \<open>
  The operators \<open>+\<close>, \<open>-\<close>, \<open><<\<close>, \<open>>>\<close> and unary \<open>-\<close> panic on overflow when the crate is
  built with overflow checks (\<open>oc\<close>, the default of the debug profile) and wrap when it
  is not. Division panics on overflow under both.
\<close>

definition ck_add :: "bool \<Rightarrow> 'a::len word \<Rightarrow> 'a word \<Rightarrow> 'a word out" where
  "ck_add oc a b =
     (if oc \<and> 2 ^ LENGTH('a) \<le> unat a + unat b then Crash Panic else Val (a + b))"

definition ck_sub :: "bool \<Rightarrow> 'a::len word \<Rightarrow> 'a word \<Rightarrow> 'a word out" where
  "ck_sub oc a b = (if oc \<and> a < b then Crash Panic else Val (a - b))"

text \<open>\<open>i64 + i64\<close>: the sum of the two's complement readings must be representable.\<close>

definition ck_sadd :: "bool \<Rightarrow> 'a::len word \<Rightarrow> 'a word \<Rightarrow> 'a word out" where
  "ck_sadd oc a b =
     (if oc \<and> sint (a + b) \<noteq> sint a + sint b then Crash Panic else Val (a + b))"

text \<open>Negation of a signed integer: overflows on the least value only.\<close>

definition ck_neg :: "bool \<Rightarrow> 'a::len word \<Rightarrow> 'a word out" where
  "ck_neg oc a = (if oc \<and> sint (- a) \<noteq> - sint a then Crash Panic else Val (- a))"

text \<open>\<open>x << n\<close> and \<open>x >> n\<close>: an amount of at least the width panics or is masked.\<close>

definition ck_shl :: "bool \<Rightarrow> 'a::len word \<Rightarrow> nat \<Rightarrow> 'a word out" where
  "ck_shl oc w n =
     (if oc \<and> LENGTH('a) \<le> n then Crash Panic else Val (push_bit (n mod LENGTH('a)) w))"

definition ck_shr :: "bool \<Rightarrow> 'a::len word \<Rightarrow> nat \<Rightarrow> 'a word out" where
  "ck_shr oc w n =
     (if oc \<and> LENGTH('a) \<le> n then Crash Panic else Val (drop_bit (n mod LENGTH('a)) w))"

definition trunc_div :: "int \<Rightarrow> int \<Rightarrow> int" where
  "trunc_div a b = sgn a * sgn b * (\<bar>a\<bar> div \<bar>b\<bar>)"

text \<open>Signed \<open>a / b\<close> for \<open>b \<noteq> 0\<close>: truncates; the one overflowing quotient panics.\<close>

definition ck_sdiv :: "'a::len word \<Rightarrow> 'a word \<Rightarrow> 'a word out" where
  "ck_sdiv a b =
     (if b = 0 then Crash Panic
      else let q = trunc_div (sint a) (sint b)
           in if sint (word_of_int q :: 'a word) = q then Val (word_of_int q)
              else Crash Panic)"

subsection \<open>Wrapping and overflowing methods\<close>

definition overflowing_add :: "'a::len word \<Rightarrow> 'a word \<Rightarrow> 'a word \<times> bool" where
  "overflowing_add a b = (a + b, 2 ^ LENGTH('a) \<le> unat a + unat b)"

definition overflowing_sub :: "'a::len word \<Rightarrow> 'a word \<Rightarrow> 'a word \<times> bool" where
  "overflowing_sub a b = (a - b, a < b)"

definition wrapping_shl :: "'a::len word \<Rightarrow> u32 \<Rightarrow> 'a word" where
  "wrapping_shl w n = push_bit (unat n mod LENGTH('a)) w"

definition wrapping_shr :: "'a::len word \<Rightarrow> u32 \<Rightarrow> 'a word" where
  "wrapping_shr w n = drop_bit (unat n mod LENGTH('a)) w"

definition wrapping_sar :: "'a::len word \<Rightarrow> u32 \<Rightarrow> 'a word" where
  "wrapping_sar w n = signed_drop_bit (unat n mod LENGTH('a)) w"

definition rotate_right :: "'a::len word \<Rightarrow> u32 \<Rightarrow> 'a word" where
  "rotate_right w n =
     (let k = unat n mod LENGTH('a)
      in drop_bit k w OR push_bit (LENGTH('a) - k) w)"

definition is_neg :: "'a::len word \<Rightarrow> bool" where
  "is_neg w \<longleftrightarrow> sint w < 0"

subsection \<open>Bytes\<close>

definition to_le_bytes :: "'a::len word \<Rightarrow> bytes" where
  "to_le_bytes w = map (\<lambda>i. ucast (drop_bit (8 * i) w)) [0..<LENGTH('a) div 8]"

primrec from_le_bytes :: "bytes \<Rightarrow> 'a::len word" where
  "from_le_bytes [] = 0"
| "from_le_bytes (b # bs) = ucast b OR push_bit 8 (from_le_bytes bs)"

definition from_be_bytes :: "bytes \<Rightarrow> 'a::len word" where
  "from_be_bytes bs = from_le_bytes (rev bs)"

definition swap_bytes :: "'a::len word \<Rightarrow> 'a word" where
  "swap_bytes w = from_le_bytes (rev (to_le_bytes w))"

definition reverse_bits :: "'a::len word \<Rightarrow> 'a word" where
  "reverse_bits w = horner_sum of_bool 2 (rev (map (bit w) [0..<LENGTH('a)]))"

definition leading_zeros :: "'a::len word \<Rightarrow> nat" where
  "leading_zeros w = length (takeWhile (\<lambda>b. \<not> b) (rev (map (bit w) [0..<LENGTH('a)])))"

definition count_ones :: "'a::len word \<Rightarrow> nat" where
  "count_ones w = length (filter id (map (bit w) [0..<LENGTH('a)]))"

lemma length_to_le_bytes [simp]: "length (to_le_bytes (w :: 'a::len word)) = LENGTH('a) div 8"
  by (simp add: to_le_bytes_def)

lemma nth_to_le_bytes:
  "i < LENGTH('a) div 8 \<Longrightarrow> to_le_bytes (w :: 'a::len word) ! i = ucast (drop_bit (8 * i) w)"
  by (simp add: to_le_bytes_def)

lemma bit_from_le_bytes:
  "bit (from_le_bytes bs :: 'a::len word) n \<longleftrightarrow>
     n < LENGTH('a) \<and> n div 8 < length bs \<and> bit (bs ! (n div 8)) (n mod 8)"
proof (induction bs arbitrary: n)
  case Nil
  then show ?case by simp
next
  case (Cons b bs)
  show ?case
  proof (cases "n < 8")
    case True
    then show ?thesis
      by (auto simp: bit_or_iff bit_push_bit_iff bit_ucast_iff)
  next
    case False
    then have d: "n div 8 = Suc ((n - 8) div 8)" and m: "n mod 8 = (n - 8) mod 8"
      by (simp_all add: le_div_geq le_mod_geq not_less)
    from False have "\<not> bit b n"
      by (auto dest: bit_imp_le_length)
    with False d m Cons.IH [of "n - 8"] show ?thesis
      by (auto simp: bit_or_iff bit_push_bit_iff bit_ucast_iff)
  qed
qed

lemma from_to_le_bytes:
  assumes "8 dvd LENGTH('a)"
  shows "from_le_bytes (to_le_bytes (w :: 'a::len word)) = w"
proof (rule bit_word_eqI)
  fix n assume n: "n < LENGTH('a)"
  then have "n div 8 < LENGTH('a) div 8"
    using assms by (simp add: div_less_iff_less_mult)
  then show "bit (from_le_bytes (to_le_bytes w) :: 'a word) n = bit w n"
    using n by (simp add: bit_from_le_bytes nth_to_le_bytes bit_ucast_iff bit_drop_bit_eq)
qed

lemma to_from_le_bytes:
  assumes "length bs = LENGTH('a) div 8" and "8 dvd LENGTH('a)"
  shows "to_le_bytes (from_le_bytes bs :: 'a::len word) = bs"
proof (rule nth_equalityI)
  show "length (to_le_bytes (from_le_bytes bs :: 'a word)) = length bs"
    using assms by simp
next
  fix i assume "i < length (to_le_bytes (from_le_bytes bs :: 'a word))"
  then have i: "i < LENGTH('a) div 8" by simp
  show "to_le_bytes (from_le_bytes bs :: 'a word) ! i = bs ! i"
  proof (rule bit_word_eqI)
    fix n assume n: "n < LENGTH(8)"
    have "8 * i + n < 8 * (LENGTH('a) div 8)" using n i by simp
    then have "8 * i + n < LENGTH('a)" by linarith
    moreover have "(8 * i + n) div 8 = i" and "(8 * i + n) mod 8 = n" using n by simp_all
    ultimately show "bit (to_le_bytes (from_le_bytes bs :: 'a word) ! i) n = bit (bs ! i) n"
      using n i assms(1)
      by (simp add: nth_to_le_bytes bit_ucast_iff bit_drop_bit_eq bit_from_le_bytes ac_simps)
  qed
qed

subsection \<open>Bit reversal, counts\<close>

lemma bit_reverse_bits:
  "bit (reverse_bits (w :: 'a::len word)) n \<longleftrightarrow> n < LENGTH('a) \<and> bit w (LENGTH('a) - 1 - n)"
  by (auto simp: reverse_bits_def bit_horner_sum_bit_word_iff rev_nth)

lemma reverse_bits_involution: "reverse_bits (reverse_bits w) = w"
  by (rule bit_word_eqI) (auto simp: bit_reverse_bits)

lemma swap_bytes_involution:
  assumes "8 dvd LENGTH('a)"
  shows "swap_bytes (swap_bytes (w :: 'a::len word)) = w"
  using assms by (simp add: swap_bytes_def to_from_le_bytes from_to_le_bytes)

lemma leading_zeros_le: "leading_zeros (w :: 'a::len word) \<le> LENGTH('a)"
  unfolding leading_zeros_def
  by (rule order_trans [OF length_takeWhile_le]) simp

lemma count_ones_le: "count_ones (w :: 'a::len word) \<le> LENGTH('a)"
  unfolding count_ones_def by (rule order_trans [OF length_filter_le]) simp

subsection \<open>Strings\<close>

text \<open>\<open>s.contains(p)\<close>, \<open>s.starts_with(p)\<close> and \<open>s.ends_with(p)\<close>.\<close>

definition starts_with :: "string \<Rightarrow> string \<Rightarrow> bool" where
  "starts_with s p \<longleftrightarrow> take (length p) s = p"

definition ends_with :: "string \<Rightarrow> string \<Rightarrow> bool" where
  "ends_with s p \<longleftrightarrow> starts_with (rev s) (rev p)"

primrec contains :: "string \<Rightarrow> string \<Rightarrow> bool" where
  "contains [] p \<longleftrightarrow> p = []"
| "contains (c # s) p \<longleftrightarrow> starts_with (c # s) p \<or> contains s p"

lemma ends_with_append: "ends_with (s @ p) p"
  by (simp add: ends_with_def starts_with_def)

lemma contains_iff: "contains s p \<longleftrightarrow> (\<exists>a b. s = a @ p @ b)"
proof (induction s)
  case Nil
  then show ?case by auto
next
  case (Cons c s)
  show ?case
  proof
    assume "contains (c # s) p"
    then consider "starts_with (c # s) p" | "contains s p" by auto
    then show "\<exists>a b. c # s = a @ p @ b"
    proof cases
      case 1
      then have "c # s = [] @ p @ drop (length p) (c # s)"
        unfolding starts_with_def by (metis append_Nil append_take_drop_id)
      then show ?thesis by blast
    next
      case 2
      then obtain a b where "s = a @ p @ b" using Cons.IH by blast
      then have "c # s = (c # a) @ p @ b" by simp
      then show ?thesis by blast
    qed
  next
    assume "\<exists>a b. c # s = a @ p @ b"
    then obtain a b where ab: "c # s = a @ p @ b" by blast
    show "contains (c # s) p"
    proof (cases a)
      case Nil
      with ab have "take (length p) (c # s) = p" by simp
      then show ?thesis by (simp only: contains.simps starts_with_def simp_thms)
    next
      case (Cons d a')
      with ab have "s = a' @ p @ b" by simp
      with Cons.IH show ?thesis by auto
    qed
  qed
qed

text \<open>An unsigned integer in decimal, as \<open>Display\<close> prints it.\<close>

primrec digits_aux :: "nat \<Rightarrow> nat \<Rightarrow> string" where
  "digits_aux 0 n = []"
| "digits_aux (Suc k) n =
     (if n < 10 then [char_of (n + 48)] else digits_aux k (n div 10) @ [char_of (n mod 10 + 48)])"

definition show_nat :: "nat \<Rightarrow> string" where
  "show_nat n = digits_aux (Suc n) n"

text \<open>The bytes of an ASCII string.\<close>

definition str_bytes :: "string \<Rightarrow> bytes" where
  "str_bytes s = map (\<lambda>ch. word_of_nat (of_char ch)) s"

subsection \<open>Text from bytes\<close>

text \<open>\<open>String::from_utf8_lossy\<close>: every maximal ill-formed prefix becomes \<open>U+FFFD\<close>.\<close>

definition in_bytes :: "u8 \<Rightarrow> u8 \<Rightarrow> u8 \<Rightarrow> bool" where
  "in_bytes lo hi b \<longleftrightarrow> lo \<le> b \<and> b \<le> hi"

definition cont_byte :: "u8 \<Rightarrow> bool" where
  "cont_byte b = in_bytes 0x80 0xBF b"

definition second_ok :: "u8 \<Rightarrow> u8 \<Rightarrow> bool" where
  "second_ok b0 b1 =
     (if b0 = 0xE0 then in_bytes 0xA0 0xBF b1
      else if b0 = 0xED then in_bytes 0x80 0x9F b1
      else if b0 = 0xF0 then in_bytes 0x90 0xBF b1
      else if b0 = 0xF4 then in_bytes 0x80 0x8F b1
      else cont_byte b1)"

definition replacement :: bytes where "replacement = [0xEF, 0xBF, 0xBD]"

definition utf8_width :: "u8 \<Rightarrow> nat" where
  "utf8_width b =
     (if b < 0x80 then 1 else if in_bytes 0xC2 0xDF b then 2
      else if in_bytes 0xE0 0xEF b then 3 else if in_bytes 0xF0 0xF4 b then 4 else 0)"

text \<open>How many bytes of the list the next character or the next ill-formed prefix takes.\<close>

fun utf8_take :: "bytes \<Rightarrow> nat \<times> bool" where
  "utf8_take [] = (0, True)"
| "utf8_take (b0 # bs) =
     (let w = utf8_width b0
      in if w = 0 then (1, False) else if w = 1 then (1, True)
         else case bs of
             [] \<Rightarrow> (1, False)
           | b1 # bs1 \<Rightarrow>
               if \<not> second_ok b0 b1 then (1, False) else if w = 2 then (2, True)
               else case bs1 of
                   [] \<Rightarrow> (2, False)
                 | b2 # bs2 \<Rightarrow>
                     if \<not> cont_byte b2 then (2, False) else if w = 3 then (3, True)
                     else case bs2 of
                         [] \<Rightarrow> (3, False)
                       | b3 # bs3 \<Rightarrow> if cont_byte b3 then (4, True) else (3, False))"

lemma utf8_take_pos: "bs \<noteq> [] \<Longrightarrow> 1 \<le> fst (utf8_take bs)"
  by (cases bs) (auto simp: Let_def split: list.split)

function from_utf8_lossy :: "bytes \<Rightarrow> bytes" where
  "from_utf8_lossy bs =
     (if bs = [] then []
      else (if snd (utf8_take bs) then take (fst (utf8_take bs)) bs else replacement) @
           from_utf8_lossy (drop (fst (utf8_take bs)) bs))"
  by pat_completeness auto
termination
  by (relation "measure length") (auto intro!: diff_less dest: utf8_take_pos simp: Suc_le_eq)

declare from_utf8_lossy.simps [simp del]

end
