(* ===== verification/Cpu.thy ===== *)
theory Cpu
  imports Rust_Std
begin

text \<open>
  The guest register file: \<open>CpuContext\<close> of \<open>cpu/mod.rs\<close> with its accessors, the NZCV
  flags and the SIMD register views, and the register-slot contract the operand
  accessors of the interpreter are proved against.
\<close>

unbundle bit_operations_syntax

subsection \<open>State\<close>

text \<open>\<open>TargetOs\<close> of \<open>loader/mod.rs\<close>; Linux is its default.\<close>

datatype target_os = Linux | Darwin | Android

text \<open>The fixed-size arrays are lists; \<open>wf_cpu\<close> states their lengths.\<close>

record cpu_context =
  ctx_x :: "u64 list"
  ctx_sp :: u64
  ctx_pc :: u64
  ctx_pstate :: u32
  ctx_pad :: u32
  ctx_v :: "bytes list"
  ctx_tpidr_el0 :: u64
  ctx_exited :: bool
  ctx_exit_code :: u32
  ctx_target_os :: target_os

definition wf_cpu :: "cpu_context \<Rightarrow> bool" where
  "wf_cpu c \<longleftrightarrow> length (ctx_x c) = 31 \<and> length (ctx_v c) = 32 \<and>
     (\<forall>b \<in> set (ctx_v c). length b = 16)"

text \<open>\<open>CpuContext::new\<close>, the derived \<open>Default\<close>.\<close>

definition cpu_new :: cpu_context where
  "cpu_new = \<lparr>ctx_x = replicate 31 0, ctx_sp = 0, ctx_pc = 0, ctx_pstate = 0, ctx_pad = 0,
     ctx_v = replicate 32 (replicate 16 0), ctx_tpidr_el0 = 0, ctx_exited = False,
     ctx_exit_code = 0, ctx_target_os = Linux\<rparr>"

subsection \<open>General-purpose registers\<close>

definition set_x :: "nat \<Rightarrow> u64 \<Rightarrow> cpu_context \<Rightarrow> cpu_context" where
  "set_x reg val c = (if reg < 31 then c\<lparr>ctx_x := (ctx_x c)[reg := val]\<rparr> else c)"

definition get_x :: "cpu_context \<Rightarrow> nat \<Rightarrow> u64" where
  "get_x c reg = (if reg < 31 then ctx_x c ! reg else 0)"

subsection \<open>Flags\<close>

definition FLAG_N :: u32 where "FLAG_N = push_bit 31 1"
definition FLAG_Z :: u32 where "FLAG_Z = push_bit 30 1"
definition FLAG_C :: u32 where "FLAG_C = push_bit 29 1"
definition FLAG_V :: u32 where "FLAG_V = push_bit 28 1"

definition get_n :: "cpu_context \<Rightarrow> bool" where
  "get_n c \<longleftrightarrow> ctx_pstate c AND FLAG_N \<noteq> 0"

definition get_z :: "cpu_context \<Rightarrow> bool" where
  "get_z c \<longleftrightarrow> ctx_pstate c AND FLAG_Z \<noteq> 0"

definition get_c :: "cpu_context \<Rightarrow> bool" where
  "get_c c \<longleftrightarrow> ctx_pstate c AND FLAG_C \<noteq> 0"

definition get_v :: "cpu_context \<Rightarrow> bool" where
  "get_v c \<longleftrightarrow> ctx_pstate c AND FLAG_V \<noteq> 0"

definition set_nzcv :: "bool \<Rightarrow> bool \<Rightarrow> bool \<Rightarrow> bool \<Rightarrow> cpu_context \<Rightarrow> cpu_context" where
  "set_nzcv n z c v ctx =
     (let flags0 = 0;
          flags1 = (if n then flags0 OR FLAG_N else flags0);
          flags2 = (if z then flags1 OR FLAG_Z else flags1);
          flags3 = (if c then flags2 OR FLAG_C else flags2);
          flags4 = (if v then flags3 OR FLAG_V else flags3)
      in ctx\<lparr>ctx_pstate := (ctx_pstate ctx AND 0x0fffffff) OR flags4\<rparr>)"

subsection \<open>SIMD registers\<close>

definition get_v_u64 :: "cpu_context \<Rightarrow> nat \<Rightarrow> u64" where
  "get_v_u64 c reg = (if reg < 32 then from_le_bytes (slice_at 0 8 (ctx_v c ! reg)) else 0)"

definition set_v_u64 :: "nat \<Rightarrow> u64 \<Rightarrow> cpu_context \<Rightarrow> cpu_context" where
  "set_v_u64 reg val c =
     (if reg < 32
      then c\<lparr>ctx_v := (ctx_v c)[reg :=
             copy_at 8 (replicate 8 0) (copy_at 0 (to_le_bytes val) (ctx_v c ! reg))]\<rparr>
      else c)"

definition get_v_u128 :: "cpu_context \<Rightarrow> nat \<Rightarrow> u128" where
  "get_v_u128 c reg = (if reg < 32 then from_le_bytes (ctx_v c ! reg) else 0)"

definition set_v_u128 :: "nat \<Rightarrow> u128 \<Rightarrow> cpu_context \<Rightarrow> cpu_context" where
  "set_v_u128 reg val c =
     (if reg < 32
      then c\<lparr>ctx_v := (ctx_v c)[reg := copy_at 0 (to_le_bytes val) (ctx_v c ! reg)]\<rparr>
      else c)"

text \<open>\<open>ctx.v[idx] = b\<close>, as the interpreter writes whole vector registers.\<close>

definition set_v_bytes :: "nat \<Rightarrow> bytes \<Rightarrow> cpu_context \<Rightarrow> cpu_context" where
  "set_v_bytes idx b c = c\<lparr>ctx_v := (ctx_v c)[idx := b]\<rparr>"

subsection \<open>Well-formedness\<close>

lemma wf_cpu_new: "wf_cpu cpu_new"
  by (simp add: wf_cpu_def cpu_new_def)

lemma wf_set_x [simp, intro]: "wf_cpu c \<Longrightarrow> wf_cpu (set_x n v c)"
  by (simp add: wf_cpu_def set_x_def)

lemma wf_set_nzcv [simp, intro]: "wf_cpu ctx \<Longrightarrow> wf_cpu (set_nzcv n z c v ctx)"
  by (simp add: wf_cpu_def set_nzcv_def Let_def)

lemma wf_set_v_bytes [simp, intro]:
  "wf_cpu c \<Longrightarrow> length b = 16 \<Longrightarrow> wf_cpu (set_v_bytes n b c)"
  by (auto simp: wf_cpu_def set_v_bytes_def dest!: set_update_subset_insert [THEN subsetD])

lemma wf_cpu_v: "wf_cpu c \<Longrightarrow> n < 32 \<Longrightarrow> length (ctx_v c ! n) = 16"
  by (simp add: wf_cpu_def)

lemma set_v_u64_bytes:
  "reg < 32 \<Longrightarrow> wf_cpu c \<Longrightarrow>
     set_v_u64 reg val c = set_v_bytes reg (to_le_bytes val @ replicate 8 0) c"
  by (simp add: set_v_u64_def set_v_bytes_def copy_at_def wf_cpu_v)

lemma set_v_u128_bytes:
  "reg < 32 \<Longrightarrow> wf_cpu c \<Longrightarrow> set_v_u128 reg val c = set_v_bytes reg (to_le_bytes val) c"
  by (simp add: set_v_u128_def set_v_bytes_def copy_at_def wf_cpu_v)

lemma wf_set_v_u64 [simp, intro]: "wf_cpu c \<Longrightarrow> wf_cpu (set_v_u64 n v c)"
  by (cases "n < 32") (simp add: set_v_u64_bytes, simp add: set_v_u64_def)

lemma wf_set_v_u128 [simp, intro]: "wf_cpu c \<Longrightarrow> wf_cpu (set_v_u128 n v c)"
  by (cases "n < 32") (simp add: set_v_u128_bytes, simp add: set_v_u128_def)

lemma wf_scalar_fields [simp]:
  "wf_cpu (c\<lparr>ctx_pc := p\<rparr>) = wf_cpu c" "wf_cpu (c\<lparr>ctx_sp := p\<rparr>) = wf_cpu c"
  "wf_cpu (c\<lparr>ctx_tpidr_el0 := p\<rparr>) = wf_cpu c" "wf_cpu (c\<lparr>ctx_exited := e\<rparr>) = wf_cpu c"
  "wf_cpu (c\<lparr>ctx_exit_code := k\<rparr>) = wf_cpu c"
  by (simp_all add: wf_cpu_def)

subsection \<open>Reading after writing\<close>

lemma get_set_x [cpu_simps]:
  "wf_cpu c \<Longrightarrow> get_x (set_x n v c) m = (if n = m \<and> n < 31 then v else get_x c m)"
  by (auto simp: get_x_def set_x_def wf_cpu_def)

lemma set_x_fields [simp]:
  "ctx_sp (set_x n v c) = ctx_sp c" "ctx_pc (set_x n v c) = ctx_pc c"
  "ctx_pstate (set_x n v c) = ctx_pstate c" "ctx_v (set_x n v c) = ctx_v c"
  "ctx_tpidr_el0 (set_x n v c) = ctx_tpidr_el0 c" "ctx_exited (set_x n v c) = ctx_exited c"
  "ctx_exit_code (set_x n v c) = ctx_exit_code c"
  "ctx_target_os (set_x n v c) = ctx_target_os c"
  by (simp_all add: set_x_def)

lemma set_nzcv_fields [simp]:
  "ctx_x (set_nzcv n z c v s) = ctx_x s" "ctx_sp (set_nzcv n z c v s) = ctx_sp s"
  "ctx_pc (set_nzcv n z c v s) = ctx_pc s" "ctx_v (set_nzcv n z c v s) = ctx_v s"
  "ctx_tpidr_el0 (set_nzcv n z c v s) = ctx_tpidr_el0 s"
  "ctx_exited (set_nzcv n z c v s) = ctx_exited s"
  "ctx_exit_code (set_nzcv n z c v s) = ctx_exit_code s"
  "ctx_target_os (set_nzcv n z c v s) = ctx_target_os s"
  by (simp_all add: set_nzcv_def Let_def)

lemma get_x_scalar_fields [simp]:
  "get_x (c\<lparr>ctx_sp := s\<rparr>) n = get_x c n" "get_x (c\<lparr>ctx_pc := s\<rparr>) n = get_x c n"
  "get_x (c\<lparr>ctx_exited := e\<rparr>) n = get_x c n"
  "get_x (c\<lparr>ctx_exit_code := k\<rparr>) n = get_x c n"
  "get_x (c\<lparr>ctx_tpidr_el0 := t\<rparr>) n = get_x c n"
  by (simp_all add: get_x_def)

lemma get_x_set_nzcv [simp]: "get_x (set_nzcv n z c v s) m = get_x s m"
  by (simp add: get_x_def)

lemma get_x_set_v_bytes [simp]: "get_x (set_v_bytes n b c) m = get_x c m"
  by (simp add: get_x_def set_v_bytes_def)

lemma set_v_bytes_fields [simp]:
  "ctx_x (set_v_bytes n b c) = ctx_x c" "ctx_sp (set_v_bytes n b c) = ctx_sp c"
  "ctx_pc (set_v_bytes n b c) = ctx_pc c" "ctx_pstate (set_v_bytes n b c) = ctx_pstate c"
  "ctx_tpidr_el0 (set_v_bytes n b c) = ctx_tpidr_el0 c"
  "ctx_exited (set_v_bytes n b c) = ctx_exited c"
  "ctx_exit_code (set_v_bytes n b c) = ctx_exit_code c"
  "ctx_target_os (set_v_bytes n b c) = ctx_target_os c"
  by (simp_all add: set_v_bytes_def)

lemma v_set_v_bytes [cpu_simps]:
  "wf_cpu c \<Longrightarrow> n < 32 \<Longrightarrow> ctx_v (set_v_bytes n b c) ! m = (if n = m then b else ctx_v c ! m)"
  by (simp add: set_v_bytes_def wf_cpu_def nth_list_update)

lemma and_push_bit_1_neq_0: "(w :: 'a::len word) AND push_bit k 1 \<noteq> 0 \<longleftrightarrow> bit w k"
  by (simp add: push_bit_of_1 and_exp_eq_0_iff_not_bit)

lemma flag_bits:
  "get_n c \<longleftrightarrow> bit (ctx_pstate c) 31" "get_z c \<longleftrightarrow> bit (ctx_pstate c) 30"
  "get_c c \<longleftrightarrow> bit (ctx_pstate c) 29" "get_v c \<longleftrightarrow> bit (ctx_pstate c) 28"
  by (simp_all only: get_n_def get_z_def get_c_def get_v_def FLAG_N_def FLAG_Z_def FLAG_C_def
      FLAG_V_def and_push_bit_1_neq_0)

lemma bit_push_bit_1: "bit (push_bit k 1 :: 'a::len word) i \<longleftrightarrow> i = k \<and> k < LENGTH('a)"
  by (auto simp: push_bit_of_1 bit_exp_iff)

lemma bit_FLAG:
  "bit FLAG_N i \<longleftrightarrow> i = 31" "bit FLAG_Z i \<longleftrightarrow> i = 30" "bit FLAG_C i \<longleftrightarrow> i = 29"
  "bit FLAG_V i \<longleftrightarrow> i = 28"
  unfolding FLAG_N_def FLAG_Z_def FLAG_C_def FLAG_V_def bit_push_bit_1 by simp_all

lemma bit_set_nzcv:
  "bit (ctx_pstate (set_nzcv n z c v ctx)) i \<longleftrightarrow>
     (if i < 28 then bit (ctx_pstate ctx) i
      else i = 31 \<and> n \<or> i = 30 \<and> z \<or> i = 29 \<and> c \<or> i = 28 \<and> v)"
proof -
  have m: "(0x0fffffff :: u32) = mask 28" by (simp add: mask_eq_exp_minus_1)
  show ?thesis
    by (auto simp: set_nzcv_def Let_def m bit_or_iff bit_and_iff bit_mask_iff bit_FLAG)
qed

lemma get_set_nzcv [simp, cpu_simps]:
  "get_n (set_nzcv n z c v ctx) = n" "get_z (set_nzcv n z c v ctx) = z"
  "get_c (set_nzcv n z c v ctx) = c" "get_v (set_nzcv n z c v ctx) = v"
  by (simp_all add: flag_bits bit_set_nzcv)

lemma flags_set_x [simp]:
  "get_n (set_x r w ctx) = get_n ctx" "get_z (set_x r w ctx) = get_z ctx"
  "get_c (set_x r w ctx) = get_c ctx" "get_v (set_x r w ctx) = get_v ctx"
  by (simp_all add: flag_bits)

subsection \<open>The register-slot contract\<close>

text \<open>
  What an instruction handler relies on when it reads, changes and writes back one
  register: the laws of a cell. The interpretations below discharge them for the
  general-purpose and the vector registers of \<open>CpuContext\<close>.
\<close>

locale register_slot =
  fixes get :: "'c \<Rightarrow> 'v" and put :: "'v \<Rightarrow> 'c \<Rightarrow> 'c" and ok :: "'c \<Rightarrow> bool"
  assumes put_ok: "ok c \<Longrightarrow> ok (put v c)"
    and get_put: "ok c \<Longrightarrow> get (put v c) = v"
    and put_put: "ok c \<Longrightarrow> put v (put w c) = put v c"
    and put_get: "ok c \<Longrightarrow> put (get c) c = c"
begin

lemma rmw_compose:
  "ok c \<Longrightarrow> put (g (get (put (f (get c)) c))) (put (f (get c)) c) = put (g (f (get c))) c"
  by (simp add: get_put put_put)

lemma put_inj: "ok c \<Longrightarrow> put v c = put w c \<Longrightarrow> v = w"
  by (metis get_put)

lemma rmw_fold:
  "ok c \<Longrightarrow> fold (\<lambda>f c. put (f (get c)) c) fs c = put (fold (\<lambda>f v. f v) fs (get c)) c"
proof (induction fs arbitrary: c)
  case Nil
  then show ?case by (simp add: put_get)
next
  case (Cons f fs)
  then show ?case by (simp add: put_ok get_put put_put)
qed

end

interpretation xreg: register_slot "\<lambda>c. get_x c n" "set_x n" "\<lambda>c. wf_cpu c \<and> n < 31" for n
  by unfold_locales (auto simp: get_x_def set_x_def wf_cpu_def)

interpretation vreg: register_slot "\<lambda>c. get_v_u128 c n" "set_v_u128 n"
  "\<lambda>c. wf_cpu c \<and> n < 32" for n
proof unfold_locales
  fix c v assume c: "wf_cpu c \<and> n < 32"
  then show "wf_cpu (set_v_u128 n v c) \<and> n < 32" by simp
  from c show "get_v_u128 (set_v_u128 n v c) n = v"
    by (simp add: set_v_u128_bytes get_v_u128_def v_set_v_bytes from_to_le_bytes)
  show "set_v_u128 n v (set_v_u128 n w c) = set_v_u128 n v c" for w
  proof -
    from c have "wf_cpu (set_v_u128 n w c)" by simp
    with c have "set_v_u128 n v (set_v_u128 n w c) =
        set_v_bytes n (to_le_bytes v) (set_v_bytes n (to_le_bytes w) c)"
      by (simp add: set_v_u128_bytes)
    with c show ?thesis by (simp add: set_v_u128_bytes set_v_bytes_def)
  qed
  from c have "to_le_bytes (get_v_u128 c n) = ctx_v c ! n"
    by (simp add: get_v_u128_def to_from_le_bytes wf_cpu_v)
  with c show "set_v_u128 n (get_v_u128 c n) c = c"
    by (simp add: set_v_u128_bytes set_v_bytes_def)
qed

lemma get_v_u64_set_v_u64:
  "wf_cpu c \<Longrightarrow> n < 32 \<Longrightarrow> get_v_u64 (set_v_u64 n v c) n = v"
  by (simp add: set_v_u64_bytes get_v_u64_def v_set_v_bytes slice_at_def from_to_le_bytes)

end
