(* ===== verification/Bad64.thy ===== *)
theory Bad64
  imports Cpu
begin

text \<open>
  The interface of the third-party disassembler crate \<open>bad64\<close>, re-exported by
  \<open>decoder/mod.rs\<close>: the constructors and fields of its instruction data that the program
  matches on, and, as the parameters of the model, its decoder and the \<open>Debug\<close>
  renderings the program inspects. What a pattern of the program skips with \<open>..\<close>, and
  every value it never looks into, has the type parameter \<open>'x\<close>.
\<close>

subsection \<open>Registers\<close>

text \<open>
  \<open>RX n\<close> is \<open>Reg::Xn\<close> and so on. The program names \<open>X0\<close> to \<open>X30\<close>, \<open>W0\<close> to \<open>W30\<close> and
  the 32 registers of each SIMD view; an index past these is no register of the crate,
  and every function below treats it as the wildcard branch does.
\<close>

datatype reg =
    RX nat | RW nat | XZR | WZR | SP | WSP
  | RB nat | RH nat | RS nat | RD nat | RQ nat | RV nat
  | R_other string

subsection \<open>Immediates, shifts, operands\<close>

text \<open>\<open>Imm::Signed\<close> holds the two's complement word of the \<open>i64\<close>.\<close>

datatype imm = Signed u64 | Unsigned u64

datatype shift =
    Sh_LSL u32 | Sh_LSR u32 | Sh_ASR u32 | Sh_ROR u32
  | Sh_UXTB u32 | Sh_UXTH u32 | Sh_UXTW u32 | Sh_UXTX u32
  | Sh_SXTB u32 | Sh_SXTH u32 | Sh_SXTW u32 | Sh_SXTX u32 | Sh_MSL u32

datatype 'x operand =
    O_Reg reg 'x
  | O_QualReg reg 'x
  | O_ShiftReg reg shift 'x
  | O_MultiReg "reg option list" 'x
  | O_Imm64 imm "shift option"
  | O_Imm32 imm "shift option"
  | O_Label imm
  | O_Cond 'x
  | O_MemReg reg
  | O_MemOffset reg imm 'x
  | O_MemPreIdx reg imm 'x
  | O_MemPostIdxImm reg imm 'x
  | O_MemPostIdxReg reg reg
  | O_MemExt reg reg "shift option" 'x
  | O_other 'x

subsection \<open>Operations\<close>

text \<open>
  The variants of \<open>Op\<close> that the program names, under the program's names, in one
  enumeration per group of match arms of \<open>Interpreter::step\<close>. \<open>Op::AND\<close> and \<open>Op::STR\<close> are \<open>AND_op\<close> and \<open>STR_op\<close>.
  Every variant the program does not name is \<open>Op_other\<close> of its \<open>Debug\<close> name.
\<close>

datatype arith_op =
    ADD | ADDS | CMN | SUB | SUBS | CMP | NEG | NEGS | MOV | MOVI | MOVK | MOVN | MOVZ
  | UDIV | SDIV | MUL | UMULH | SMULH | MADD | MSUB | MNEG | SMULL | UMULL
  | SMADDL | UMADDL | SMSUBL | UMSUBL | ADRP | ADR

datatype branch_op =
    B | B_EQ | B_NE | B_CS | B_CC | B_MI | B_PL | B_VS | B_VC | B_HI | B_LS | B_GE | B_LT
  | B_GT | B_LE | CBZ | CBNZ | TBZ | TBNZ | BL | BLR | BR | RET

datatype mem_op =
    LDR | LDUR | LDAXR | LDXR | LDAR | LDRSW | LDURSW | LDRH | LDURH | LDRSH | LDURSH
  | STR_op | STUR | STLR | STLXR | STXR | STLXRB | STXRB | STRH | STURH | STP | LDP
  | LDRB | LDURB | LDXRB | LDAXRB | LDARB | LDRSB | LDURSB | STRB | STURB | STLRB
  | LD1 | LD1R | ST1 | LD2 | LD3 | LD4

datatype cond_op =
    CSEL | CSINC | CSINV | CSNEG | CINC | CINV | CNEG | CSET | CSETM | CCMP | CCMN
  | MRS | MSR

datatype logic_op =
    ORR | ORN | EOR | EON | AND_op | ANDS | TST | BIC | BICS | MVN | REV | CLZ | RBIT
  | REV16 | REV32 | REV64 | SXTW | SXTH | SXTB | UXTW | UXTH | UXTB
  | SBFIZ | UBFIZ | UBFX | SBFX | UBFM | SBFM | BFM | BFI | BFXIL
  | LSL | LSR | ASR | ROR | EXTR

datatype vec_op =
    DUP | USHL | SHL | SSHL | CMEQ | CMHI | CMHS | CMGT | CMGE | CMTST | ADDP | EXT
  | BIT | BIF | BSL | MVNI | SHRN | SHRN2 | UMINP | UMAXP | SMINP | SMAXP | CNT
  | ADDV | UADDLV | SADDLV | UMAXV | UMINV | SMAXV | SMINV | USHR | SSHR | ZIP1 | ZIP2
  | XTN | XTN2 | UMOV | SMOV | SXTL | UXTL | SXTL2 | UXTL2

datatype fp_op =
    FMOV | FCMP | FCMPE | FADD | FSUB | FMUL | FDIV | FCVTZS | FCVTZU | SCVTF | UCVTF
  | FNEG | FABS | FSQRT | FCVT

datatype sys_op =
    NOP | BTI | PACIASP | AUTIASP | PACIBSP | AUTIBSP | DMB | DSB | ISB | SVC

datatype op =
    Op_arith arith_op | Op_branch branch_op | Op_mem mem_op | Op_cond cond_op
  | Op_logic logic_op | Op_vec vec_op | Op_fp fp_op | Op_sys sys_op | Op_other string

record 'x instruction =
  inst_op :: op
  inst_operands :: "'x operand list"

subsection \<open>Parameters\<close>

text \<open>
  \<open>decode\<close> is \<open>bad64::decode\<close>; its error is kept as its \<open>Debug\<close> text. The other fields
  are the \<open>Debug\<close> renderings of an operand, a register and a condition, on whose text
  the interpreter bases the vector arrangement, the register size, the system register
  and the condition.
\<close>

record 'x bad64 =
  decode :: "u32 \<Rightarrow> u64 \<Rightarrow> string + 'x instruction"
  fmt_operand :: "'x operand \<Rightarrow> string"
  fmt_reg :: "reg \<Rightarrow> string"
  fmt_cond :: "'x \<Rightarrow> string"

text \<open>
  \<open>Reg\<close> derives \<open>Debug\<close>, so a register renders as its variant name. The hypothesis
  states as much of this as \<open>reg_size\<close> looks at: the first letter.
\<close>

definition fmt_reg_std :: "'x bad64 \<Rightarrow> bool" where
  "fmt_reg_std D \<longleftrightarrow> (\<forall>n.
     starts_with (fmt_reg D (RB n)) ''B'' \<and> starts_with (fmt_reg D (RH n)) ''H'' \<and>
     starts_with (fmt_reg D (RS n)) ''S'' \<and> starts_with (fmt_reg D (RD n)) ''D'' \<and>
     starts_with (fmt_reg D (RQ n)) ''Q'' \<and> starts_with (fmt_reg D (RV n)) ''V'')"

subsection \<open>The decoder wrapper\<close>

text \<open>\<open>Decoder::decode\<close> of \<open>decoder/mod.rs\<close>.\<close>

definition Decoder_decode :: "'x bad64 \<Rightarrow> u32 \<Rightarrow> u64 \<Rightarrow> 'x instruction out" where
  "Decoder_decode D opcode address =
     (case decode D opcode address of
        Inl e \<Rightarrow> Fail (DecodeError address e)
      | Inr i \<Rightarrow> Val i)"

text \<open>A concrete instance of the parameters, for evaluation: every word fails to decode.\<close>

primrec reg_name :: "reg \<Rightarrow> string" where
  "reg_name (RX n) = CHR ''X'' # show_nat n"
| "reg_name (RW n) = CHR ''W'' # show_nat n"
| "reg_name XZR = ''XZR''"
| "reg_name WZR = ''WZR''"
| "reg_name SP = ''SP''"
| "reg_name WSP = ''WSP''"
| "reg_name (RB n) = CHR ''B'' # show_nat n"
| "reg_name (RH n) = CHR ''H'' # show_nat n"
| "reg_name (RS n) = CHR ''S'' # show_nat n"
| "reg_name (RD n) = CHR ''D'' # show_nat n"
| "reg_name (RQ n) = CHR ''Q'' # show_nat n"
| "reg_name (RV n) = CHR ''V'' # show_nat n"
| "reg_name (R_other s) = s"

text \<open>The hidden part of an operand is its rendering, that of a condition its name.\<close>

primrec operand_text :: "string operand \<Rightarrow> string" where
  "operand_text (O_Reg r x) = x"
| "operand_text (O_QualReg r x) = x"
| "operand_text (O_ShiftReg r s x) = x"
| "operand_text (O_MultiReg rs x) = x"
| "operand_text (O_Imm64 i s) = ''Imm64''"
| "operand_text (O_Imm32 i s) = ''Imm32''"
| "operand_text (O_Label i) = ''Label''"
| "operand_text (O_Cond x) = x"
| "operand_text (O_MemReg r) = ''MemReg''"
| "operand_text (O_MemOffset r i x) = x"
| "operand_text (O_MemPreIdx r i x) = x"
| "operand_text (O_MemPostIdxImm r i x) = x"
| "operand_text (O_MemPostIdxReg r r') = ''MemPostIdxReg''"
| "operand_text (O_MemExt r r' s x) = x"
| "operand_text (O_other x) = x"

definition text_bad64 :: "(u32 \<Rightarrow> u64 \<Rightarrow> string + string instruction) \<Rightarrow> string bad64" where
  "text_bad64 dec = \<lparr>decode = dec, fmt_operand = operand_text, fmt_reg = reg_name,
     fmt_cond = (\<lambda>s. s)\<rparr>"

lemma text_bad64_std: "fmt_reg_std (text_bad64 dec)"
  by (simp add: fmt_reg_std_def text_bad64_def starts_with_def)

end
