(* ===== verification/Memory.thy ===== *)
theory Memory
  imports Bad64
begin

text \<open>
  \<open>MemoryManager\<close> of \<open>memory/mod.rs\<close>: the guest address space as a list of segments,
  each backed by a range of host memory. Host memory is explicit, because the code reads
  and writes it through raw pointers: the segments' own pointers, and, for guest addresses
  from \<open>0x5000_0000_0000\<close> on, the guest address taken as a host address.
\<close>

unbundle bit_operations_syntax

subsection \<open>Host memory\<close>

text \<open>
  A mapped host byte with its accessibility. An access to a byte that is not mapped or
  not accessible is a fault (\<open>None\<close>), which kills the process.
\<close>

datatype cell = Cell (cell_byte: u8) (cell_rd: bool) (cell_wr: bool)

type_synonym hmem = "u64 \<Rightarrow> cell option"

fun hload :: "hmem \<Rightarrow> u64 \<Rightarrow> nat \<Rightarrow> bytes option" where
  "hload hm p 0 = Some []"
| "hload hm p (Suc n) =
     (case hm p of
        Some c \<Rightarrow> if cell_rd c then map_option ((#) (cell_byte c)) (hload hm (p + 1) n) else None
      | None \<Rightarrow> None)"

fun hstore :: "hmem \<Rightarrow> u64 \<Rightarrow> bytes \<Rightarrow> hmem option" where
  "hstore hm p [] = Some hm"
| "hstore hm p (b # bs) =
     (case hm p of
        Some c \<Rightarrow> if cell_wr c then hstore (hm(p \<mapsto> Cell b (cell_rd c) True)) (p + 1) bs else None
      | None \<Rightarrow> None)"

subsection \<open>State\<close>

text \<open>\<open>ProtFlags\<close>: read, write, execute.\<close>

datatype prot = Prot (prot_read: bool) (prot_write: bool) (prot_exec: bool)

record memory_segment =
  seg_addr :: u64
  seg_size :: u64
  seg_prot :: prot
  seg_ptr :: u64

record memory_manager =
  segments :: "memory_segment list"
  brk_base :: u64
  brk_current :: u64
  brk_mapped_end :: u64
  mmap_current :: u64

text \<open>
  The manager together with what its unsafe code and the system calls act on: host
  memory, the state \<open>'h\<close> of the host kernel, and the bytes printed so far.
\<close>

record 'h sys = memory_manager +
  host_mem :: hmem
  kernel :: 'h
  stdout :: bytes

text \<open>
  The functions of \<open>nix::sys::mman\<close>, parameters of the model: they see and change host
  memory and the kernel state, and return an error text or a pointer.
\<close>

record 'h os =
  os_mmap :: "u64 option \<Rightarrow> u64 \<Rightarrow> prot \<Rightarrow> hmem \<Rightarrow> 'h \<Rightarrow> (string + u64) \<times> hmem \<times> 'h"
  os_mprotect :: "u64 \<Rightarrow> u64 \<Rightarrow> prot \<Rightarrow> hmem \<Rightarrow> 'h \<Rightarrow> (string + unit) \<times> hmem \<times> 'h"
  os_munmap :: "u64 \<Rightarrow> u64 \<Rightarrow> hmem \<Rightarrow> 'h \<Rightarrow> (string + unit) \<times> hmem \<times> 'h"

definition PAGE_SIZE :: u64 where "PAGE_SIZE = 4096"

definition RAW_BASE :: u64 where "RAW_BASE = 0x500000000000"

definition mm_new :: memory_manager where
  "mm_new = \<lparr>segments = [], brk_base = 0, brk_current = 0, brk_mapped_end = 0,
     mmap_current = 0x700000000000\<rparr>"

subsection \<open>Page arithmetic\<close>

definition align_down_page :: "u64 \<Rightarrow> u64" where
  "align_down_page addr = addr AND NOT (PAGE_SIZE - 1)"

definition align_up_page :: "bool \<Rightarrow> u64 \<Rightarrow> u64 out" where
  "align_up_page oc addr =
     bindO (ck_add oc addr PAGE_SIZE) (\<lambda>s.
     bindO (ck_sub oc s 1) (\<lambda>t. Val (t AND NOT (PAGE_SIZE - 1))))"

subsection \<open>Mapping\<close>

definition map_anonymous_prot ::
  "('h, 'z) os_scheme \<Rightarrow> u64 \<Rightarrow> u64 \<Rightarrow> prot \<Rightarrow> ('h sys, u64) comp" where
  "map_anonymous_prot K target_addr sz prot m =
     (if sz = 0 then (Fail (MemoryError ''Size cannot be zero'' target_addr sz), m)
      else
        (let target_non_zero = (if target_addr = 0 then None else Some target_addr)
         in case os_mmap K target_non_zero sz prot (host_mem m) (kernel m) of
              (Inl e, hm, k) \<Rightarrow>
                (Fail (MemoryError e target_addr sz), m\<lparr>host_mem := hm, kernel := k\<rparr>)
            | (Inr ptr, hm, k) \<Rightarrow>
                (let virt = (if target_addr \<noteq> 0 then target_addr else ptr);
                     seg = \<lparr>seg_addr = virt, seg_size = sz, seg_prot = prot, seg_ptr = ptr\<rparr>
                 in (Val virt, m\<lparr>host_mem := hm, kernel := k, segments := segments m @ [seg]\<rparr>))))"

definition map_anonymous ::
  "('h, 'z) os_scheme \<Rightarrow> u64 \<Rightarrow> u64 \<Rightarrow> ('h sys, u64) comp" where
  "map_anonymous K target_addr sz = map_anonymous_prot K target_addr sz (Prot True True True)"

definition set_brk_base :: "bool \<Rightarrow> u64 \<Rightarrow> ('h sys, unit) comp" where
  "set_brk_base oc base =
     bind (lift (align_up_page oc base)) (\<lambda>aligned_base.
       modify (\<lambda>m. m\<lparr>brk_base := aligned_base, brk_current := aligned_base,
                     brk_mapped_end := aligned_base\<rparr>))"

definition brk_expand ::
  "bool \<Rightarrow> ('h, 'z) os_scheme \<Rightarrow> u64 \<Rightarrow> u64 \<Rightarrow> ('h sys, unit) comp" where
  "brk_expand oc K new_brk cur_mapped =
     bind (lift (align_up_page oc new_brk)) (\<lambda>new_mapped.
     bind (lift (ck_sub oc new_mapped cur_mapped)) (\<lambda>expand_size.
       if expand_size > 0
       then bind (map_anonymous_prot K cur_mapped expand_size (Prot True True False))
              (\<lambda>mapped. modify (\<lambda>m. m\<lparr>brk_mapped_end := new_mapped\<rparr>))
       else ret ()))"

definition set_brk :: "bool \<Rightarrow> ('h, 'z) os_scheme \<Rightarrow> u64 \<Rightarrow> ('h sys, u64) comp" where
  "set_brk oc K new_brk m =
     (if new_brk = 0 \<or> new_brk < brk_base m then (Val (brk_current m), m)
      else bind (if new_brk > brk_mapped_end m
                 then brk_expand oc K new_brk (brk_mapped_end m) else ret ())
             (\<lambda>_. bind (modify (\<lambda>m. m\<lparr>brk_current := new_brk\<rparr>)) (\<lambda>_. gets brk_current)) m)"

text \<open>The loop of \<open>mprotect\<close>: the first segment that starts at the address and is large enough.\<close>

fun mprotect_seg :: "u64 \<Rightarrow> u64 \<Rightarrow> memory_segment list \<Rightarrow> nat \<Rightarrow> nat option" where
  "mprotect_seg a n [] i = None"
| "mprotect_seg a n (s # ss) i =
     (if seg_addr s = a \<and> n \<le> seg_size s then Some i else mprotect_seg a n ss (Suc i))"

definition mm_mprotect ::
  "bool \<Rightarrow> ('h, 'z) os_scheme \<Rightarrow> u64 \<Rightarrow> u64 \<Rightarrow> prot \<Rightarrow> ('h sys, unit) comp" where
  "mm_mprotect oc K addr sz prot =
     (let aligned_addr = align_down_page addr
      in bind (lift (ck_add oc addr sz)) (\<lambda>end.
         bind (lift (align_up_page oc end)) (\<lambda>aligned_end.
         bind (lift (ck_sub oc aligned_end aligned_addr)) (\<lambda>aligned_size m.
           case mprotect_seg aligned_addr aligned_size (segments m) 0 of
             None \<Rightarrow> (Fail (MemoryError ''No mapped segment matching address'' addr sz), m)
           | Some i \<Rightarrow>
               (case os_mprotect K (seg_ptr (segments m ! i)) aligned_size prot
                       (host_mem m) (kernel m) of
                  (Inl e, hm, k) \<Rightarrow>
                    (Fail (MemoryError e addr sz), m\<lparr>host_mem := hm, kernel := k\<rparr>)
                | (Inr _, hm, k) \<Rightarrow>
                    (Val (), m\<lparr>host_mem := hm, kernel := k,
                       segments := (segments m)[i := (segments m ! i)\<lparr>seg_prot := prot\<rparr>]\<rparr>))))))"

fun seg_position :: "u64 \<Rightarrow> memory_segment list \<Rightarrow> nat \<Rightarrow> nat option" where
  "seg_position a [] i = None"
| "seg_position a (s # ss) i = (if seg_addr s = a then Some i else seg_position a ss (Suc i))"

definition mm_munmap ::
  "bool \<Rightarrow> ('h, 'z) os_scheme \<Rightarrow> u64 \<Rightarrow> u64 \<Rightarrow> ('h sys, unit) comp" where
  "mm_munmap oc K addr sz =
     (let aligned_addr = align_down_page addr
      in bind (lift (ck_add oc addr sz)) (\<lambda>end.
         bind (lift (align_up_page oc end)) (\<lambda>aligned_end.
         bind (lift (ck_sub oc aligned_end aligned_addr)) (\<lambda>aligned_size m.
           case seg_position aligned_addr (segments m) 0 of
             None \<Rightarrow> (Fail (MemoryError ''No mapped segment to unmap'' addr sz), m)
           | Some pos \<Rightarrow>
               (let seg = segments m ! pos;
                    m1 = m\<lparr>segments := take pos (segments m) @ drop (Suc pos) (segments m)\<rparr>
                in case os_munmap K (seg_ptr seg) aligned_size (host_mem m1) (kernel m1) of
                     (Inl e, hm, k) \<Rightarrow>
                       (Fail (MemoryError e addr sz), m1\<lparr>host_mem := hm, kernel := k\<rparr>)
                   | (Inr _, hm, k) \<Rightarrow> (Val (), m1\<lparr>host_mem := hm, kernel := k\<rparr>))))))"

subsection \<open>Access\<close>

text \<open>
  \<open>for seg in segments\<close> with the guard \<open>cur >= seg.addr && cur < seg.addr + seg.size\<close>;
  the sum is only evaluated when the first conjunct holds.
\<close>

fun find_seg :: "bool \<Rightarrow> memory_segment list \<Rightarrow> u64 \<Rightarrow> memory_segment option out" where
  "find_seg oc [] a = Val None"
| "find_seg oc (s # ss) a =
     (if seg_addr s \<le> a
      then bindO (ck_add oc (seg_addr s) (seg_size s))
             (\<lambda>e. if a < e then Val (Some s) else find_seg oc ss a)
      else find_seg oc ss a)"

text \<open>The first loop of \<open>read\<close>: a segment that holds the whole range.\<close>

fun find_cover :: "bool \<Rightarrow> memory_segment list \<Rightarrow> u64 \<Rightarrow> u64 \<Rightarrow> memory_segment option out" where
  "find_cover oc [] a n = Val None"
| "find_cover oc (s # ss) a n =
     (if seg_addr s \<le> a
      then bindO (ck_add oc a n) (\<lambda>r.
           bindO (ck_add oc (seg_addr s) (seg_size s)) (\<lambda>e.
             if r \<le> e then Val (Some s) else find_cover oc ss a n))
      else find_cover oc ss a n)"

text \<open>The error text lists every segment with its end, which is computed with \<open>+\<close>.\<close>

fun seg_info :: "bool \<Rightarrow> memory_segment list \<Rightarrow> unit out" where
  "seg_info oc [] = Val ()"
| "seg_info oc (s # ss) = bindO (ck_add oc (seg_addr s) (seg_size s)) (\<lambda>_. seg_info oc ss)"

definition out_of_bounds :: "bool \<Rightarrow> memory_segment list \<Rightarrow> u64 \<Rightarrow> u64 \<Rightarrow> 'a out" where
  "out_of_bounds oc segs addr n =
     bindO (seg_info oc segs) (\<lambda>_. Fail (MemoryError ''out of mapped bounds'' addr n))"

text \<open>How many bytes of the remaining range the segment found for \<open>cur\<close> takes.\<close>

definition chunk_len :: "memory_segment \<Rightarrow> u64 \<Rightarrow> nat \<Rightarrow> nat" where
  "chunk_len s cur remaining = min remaining (unat (seg_size s - (cur - seg_addr s)))"

function write_loop ::
  "bool \<Rightarrow> memory_segment list \<Rightarrow> u64 \<Rightarrow> bytes \<Rightarrow> nat \<Rightarrow> hmem \<Rightarrow> unit out \<times> hmem" where
  "write_loop oc segs addr data written hm =
     (if written < length data
      then (case bindO (ck_add oc addr (of_nat written))
                   (\<lambda>cur. bindO (find_seg oc segs cur) (\<lambda>f. Val (cur, f))) of
              Fail e \<Rightarrow> (Fail e, hm)
            | Crash c \<Rightarrow> (Crash c, hm)
            | Val (cur, None) \<Rightarrow> (out_of_bounds oc segs addr (of_nat (length data)), hm)
            | Val (cur, Some s) \<Rightarrow>
                (let n = chunk_len s cur (length data - written)
                 in if n = 0 then (out_of_bounds oc segs addr (of_nat (length data)), hm)
                    else (case hstore hm (seg_ptr s + (cur - seg_addr s)) (slice_at written n data) of
                            None \<Rightarrow> (Crash Segv, hm)
                          | Some hm' \<Rightarrow> write_loop oc segs addr data (written + n) hm')))
      else (Val (), hm))"
  by pat_completeness auto
termination
  by (relation "measure (\<lambda>(oc, segs, addr, data, written, hm). length data - written)")
    (auto simp: chunk_len_def)

declare write_loop.simps [simp del]

definition mem_write :: "bool \<Rightarrow> u64 \<Rightarrow> bytes \<Rightarrow> ('h sys, unit) comp" where
  "mem_write oc addr data m =
     (if addr \<ge> RAW_BASE
      then (case hstore (host_mem m) addr data of
              None \<Rightarrow> (Crash Segv, m)
            | Some hm \<Rightarrow> (Val (), m\<lparr>host_mem := hm\<rparr>))
      else (case write_loop oc (segments m) addr data 0 (host_mem m) of
              (r, hm) \<Rightarrow> (r, m\<lparr>host_mem := hm\<rparr>)))"

function read_loop ::
  "bool \<Rightarrow> memory_segment list \<Rightarrow> hmem \<Rightarrow> u64 \<Rightarrow> nat \<Rightarrow> nat \<Rightarrow> bytes \<Rightarrow> bytes out" where
  "read_loop oc segs hm addr len got buf =
     (if got < len
      then (case bindO (ck_add oc addr (of_nat got))
                   (\<lambda>cur. bindO (find_seg oc segs cur) (\<lambda>f. Val (cur, f))) of
              Fail e \<Rightarrow> Fail e
            | Crash c \<Rightarrow> Crash c
            | Val (cur, None) \<Rightarrow> out_of_bounds oc segs addr (of_nat len)
            | Val (cur, Some s) \<Rightarrow>
                (let n = chunk_len s cur (len - got)
                 in if n = 0 then out_of_bounds oc segs addr (of_nat len)
                    else (case hload hm (seg_ptr s + (cur - seg_addr s)) n of
                            None \<Rightarrow> Crash Segv
                          | Some bs \<Rightarrow> read_loop oc segs hm addr len (got + n) (copy_at got bs buf))))
      else Val buf)"
  by pat_completeness auto
termination
  by (relation "measure (\<lambda>(oc, segs, hm, addr, len, got, buf). len - got)")
    (auto simp: chunk_len_def)

declare read_loop.simps [simp del]

text \<open>
  \<open>read\<close> does not change the manager. \<open>vec![0u8; len]\<close> panics on a length above
  \<open>isize::MAX\<close>; any other allocation is taken to succeed.
\<close>

definition mem_read :: "bool \<Rightarrow> 'h sys \<Rightarrow> u64 \<Rightarrow> u64 \<Rightarrow> bytes out" where
  "mem_read oc m addr len =
     (if len = 0 then Val []
      else if addr \<ge> RAW_BASE
      then (case hload (host_mem m) addr (unat len) of None \<Rightarrow> Crash Segv | Some bs \<Rightarrow> Val bs)
      else bindO (find_cover oc (segments m) addr len) (\<lambda>found.
        case found of
          Some s \<Rightarrow>
            (let offset = addr - seg_addr s
             in if unat (seg_size s) < unat offset + unat len then Crash Panic
                else (case hload (host_mem m) (seg_ptr s + offset) (unat len) of
                        None \<Rightarrow> Crash Segv | Some bs \<Rightarrow> Val bs))
        | None \<Rightarrow>
            if 2 ^ 63 \<le> unat len then Crash Panic
            else read_loop oc (segments m) (host_mem m) addr (unat len) 0
                   (replicate (unat len) 0)))"

definition get_host_ptr :: "bool \<Rightarrow> 'h sys \<Rightarrow> u64 \<Rightarrow> u64 out" where
  "get_host_ptr oc m addr =
     bindO (find_seg oc (segments m) addr) (\<lambda>found.
       case found of
         Some s \<Rightarrow> Val (seg_ptr s + (addr - seg_addr s))
       | None \<Rightarrow> Fail (MemoryError ''out of mapped memory bounds'' addr 0))"

text \<open>
  \<open>read_string\<close>: one byte per round until a zero byte. \<open>n\<close> counts the rounds; a run that
  has visited every address of the space without a zero byte never ends.
\<close>

function read_string_loop :: "bool \<Rightarrow> 'h sys \<Rightarrow> u64 \<Rightarrow> nat \<Rightarrow> bytes \<Rightarrow> bytes out" where
  "read_string_loop oc m cur n acc =
     (if 2 ^ 64 \<le> n then Crash Diverge
      else case mem_read oc m cur 1 of
             Fail e \<Rightarrow> Fail e
           | Crash c \<Rightarrow> Crash c
           | Val bs \<Rightarrow>
               if hd bs = 0 then Val acc
               else (case ck_add oc cur 1 of
                       Fail e \<Rightarrow> Fail e
                     | Crash c \<Rightarrow> Crash c
                     | Val cur' \<Rightarrow> read_string_loop oc m cur' (Suc n) (acc @ [hd bs])))"
  by pat_completeness auto
termination
  by (relation "measure (\<lambda>(oc, m, cur, n, acc). 2 ^ 64 - n)") auto

declare read_string_loop.simps [simp del]

definition read_string :: "bool \<Rightarrow> 'h sys \<Rightarrow> u64 \<Rightarrow> bytes out" where
  "read_string oc m addr = read_string_loop oc m addr 0 []"

text \<open>Little-endian access at the widths the interpreter and the system calls use.\<close>

definition mem_read_le :: "bool \<Rightarrow> 'h sys \<Rightarrow> u64 \<Rightarrow> 'a::len word out" where
  "mem_read_le oc m addr =
     bindO (mem_read oc m addr (of_nat (LENGTH('a) div 8))) (\<lambda>bs. Val (from_le_bytes bs))"

end
