(* ===== verification/Memory_Iface.thy ===== *)
theory Memory_Iface
  imports Rust_Std
begin

text \<open>
  The contract between the address space and its clients (the loads and stores of the
  interpreter, the system calls, the loaders): a partial map from addresses to bytes with
  a bulk read and a bulk write. The laws are what \<open>MemoryManager\<close> promises; the client
  lemmas below are proved from the laws alone.
\<close>

definition in_range :: "u64 \<Rightarrow> nat \<Rightarrow> u64 \<Rightarrow> bool" where
  "in_range a n x \<longleftrightarrow> a \<le> x \<and> unat x < unat a + n"

locale guest_memory =
  fixes rd :: "'m \<Rightarrow> u64 \<Rightarrow> u64 \<Rightarrow> bytes out"
    and wr :: "u64 \<Rightarrow> bytes \<Rightarrow> ('m, unit) comp"
    and view :: "'m \<Rightarrow> u64 \<Rightarrow> u8 option"
    and inv :: "'m \<Rightarrow> bool"
    and okrange :: "u64 \<Rightarrow> nat \<Rightarrow> bool"
  assumes okrange_nowrap: "okrange a k \<Longrightarrow> unat a + k < 2 ^ 64"
    and rd_ok: "inv m \<Longrightarrow> okrange a (unat n) \<Longrightarrow>
      \<forall>i < unat n. view m (a + of_nat i) \<noteq> None \<Longrightarrow>
      rd m a n = Val (map (\<lambda>i. the (view m (a + of_nat i))) [0..<unat n])"
    and rd_unmapped: "inv m \<Longrightarrow> okrange a (unat n) \<Longrightarrow> i < unat n \<Longrightarrow>
      view m (a + of_nat i) = None \<Longrightarrow> \<exists>e. rd m a n = Fail e"
    and wr_ok: "inv m \<Longrightarrow> okrange a (length bs) \<Longrightarrow>
      \<forall>i < length bs. view m (a + of_nat i) \<noteq> None \<Longrightarrow>
      \<exists>m'. wr a bs m = (Val (), m') \<and> inv m' \<and>
        (\<forall>x. view m' x = (if in_range a (length bs) x then Some (bs ! (unat x - unat a))
                           else view m x))"
    and wr_unmapped: "inv m \<Longrightarrow> okrange a (length bs) \<Longrightarrow> i < length bs \<Longrightarrow>
      view m (a + of_nat i) = None \<Longrightarrow>
      \<exists>e m'. wr a bs m = (Fail e, m') \<and> inv m' \<and> (\<forall>x. view m' x \<noteq> None \<longleftrightarrow> view m x \<noteq> None) \<and>
        (\<forall>x. \<not> in_range a (length bs) x \<longrightarrow> view m' x = view m x)"
begin

definition mapped :: "'m \<Rightarrow> u64 \<Rightarrow> nat \<Rightarrow> bool" where
  "mapped m a n \<longleftrightarrow> (\<forall>i<n. view m (a + of_nat i) \<noteq> None)"

lemma in_range_offset:
  assumes "okrange a n" and "i < n"
  shows "in_range a n (a + of_nat i)" and "unat (a + of_nat i) - unat a = i"
proof -
  have "unat (a + of_nat i) = unat a + i"
    using okrange_nowrap [OF assms(1)] assms(2)
    by (simp add: unat_word_ariths unsigned_of_nat take_bit_eq_mod mod_simps)
  then show "in_range a n (a + of_nat i)" and "unat (a + of_nat i) - unat a = i"
    using assms(2) by (simp_all add: in_range_def word_le_nat_alt)
qed

lemma wr_total:
  assumes "inv m" and "okrange a (length bs)"
  shows "inv (snd (wr a bs m)) \<and> \<not> is_Crash (fst (wr a bs m))"
proof (cases "mapped m a (length bs)")
  case True
  with wr_ok [OF assms] show ?thesis by (auto simp: mapped_def)
next
  case False
  then obtain i where "i < length bs" "view m (a + of_nat i) = None" by (auto simp: mapped_def)
  from wr_unmapped [OF assms this] show ?thesis by auto
qed

lemma wr_keeps_mapped:
  assumes "inv m" and "okrange a (length bs)" and "wr a bs m = (r, m')"
  shows "view m' x \<noteq> None \<longleftrightarrow> view m x \<noteq> None"
proof (cases "mapped m a (length bs)")
  case True
  from wr_ok [OF assms(1,2)] True assms(3)
  have v: "view m' x = (if in_range a (length bs) x then Some (bs ! (unat x - unat a)) else view m x)"
    by (auto simp: mapped_def)
  show ?thesis
  proof (cases "in_range a (length bs) x")
    case in_r: True
    then have "x = a + of_nat (unat x - unat a)" and "unat x - unat a < length bs"
      by (auto simp: in_range_def word_le_nat_alt of_nat_diff)
    with True have "view m x \<noteq> None" unfolding mapped_def by metis
    with v in_r show ?thesis by simp
  next
    case False
    with v show ?thesis by simp
  qed
next
  case False
  with wr_unmapped [OF assms(1,2)] assms(3) show ?thesis
    unfolding mapped_def by (metis Pair_inject)
qed

lemma wr_frame:
  assumes "inv m" and "okrange a (length bs)" and "wr a bs m = (r, m')"
    and "\<not> in_range a (length bs) x"
  shows "view m' x = view m x"
proof (cases "mapped m a (length bs)")
  case True
  with wr_ok [OF assms(1,2)] assms(3,4) show ?thesis by (auto simp: mapped_def)
next
  case False
  with wr_unmapped [OF assms(1,2)] assms(3,4) show ?thesis
    unfolding mapped_def by (metis Pair_inject)
qed

text \<open>Reading back what was written.\<close>

lemma rd_wr_same:
  assumes "inv m" and "okrange a (length bs)" and "length bs < 2 ^ 64"
    and "wr a bs m = (Val (), m')"
  shows "rd m' a (of_nat (length bs)) = Val bs"
proof -
  have n: "unat (of_nat (length bs) :: u64) = length bs"
    using assms(3) by (simp add: unsigned_of_nat take_bit_nat_eq_self)
  have mp: "mapped m a (length bs)"
    using wr_unmapped [OF assms(1,2)] assms(4) by (force simp: mapped_def)
  from wr_ok [OF assms(1,2)] mp assms(4) have inv: "inv m'" and
    v: "\<And>x. view m' x = (if in_range a (length bs) x then Some (bs ! (unat x - unat a)) else view m x)"
    by (auto simp: mapped_def)
  have vi: "view m' (a + of_nat i) = Some (bs ! i)" if "i < length bs" for i
    using v in_range_offset [OF assms(2) that] by simp
  have "rd m' a (of_nat (length bs)) = Val (map (\<lambda>i. the (view m' (a + of_nat i))) [0..<length bs])"
    using rd_ok [OF inv, of a "of_nat (length bs)"] assms(2) n vi by simp
  also have "map (\<lambda>i. the (view m' (a + of_nat i))) [0..<length bs] = bs"
    by (rule nth_equalityI) (auto simp: vi)
  finally show ?thesis .
qed

text \<open>Reading a range that the write did not meet.\<close>

lemma rd_wr_disjoint:
  assumes "inv m" and "okrange a (length bs)" and "okrange b (unat n)"
    and "wr a bs m = (r, m')"
    and "unat a + length bs \<le> unat b \<or> unat b + unat n \<le> unat a"
    and "mapped m b (unat n)"
  shows "rd m' b n = rd m b n"
proof -
  have inv: "inv m'" using wr_total [OF assms(1,2)] assms(4) by simp
  have same: "view m' (b + of_nat i) = view m (b + of_nat i)" if i: "i < unat n" for i
  proof (rule wr_frame [OF assms(1,2,4)])
    have "unat (b + of_nat i) = unat b + i"
      using okrange_nowrap [OF assms(3)] i
      by (simp add: unat_word_ariths unsigned_of_nat take_bit_eq_mod mod_simps)
    with assms(5) i show "\<not> in_range a (length bs) (b + of_nat i)"
      by (auto simp: in_range_def word_le_nat_alt)
  qed
  have "rd m' b n = Val (map (\<lambda>i. the (view m' (b + of_nat i))) [0..<unat n])"
    using same assms(6) by (intro rd_ok [OF inv assms(3)]) (simp add: mapped_def)
  also have "\<dots> = Val (map (\<lambda>i. the (view m (b + of_nat i))) [0..<unat n])"
    using same by simp
  also have "\<dots> = rd m b n"
    using assms(6) rd_ok [OF assms(1,3)] by (simp add: mapped_def)
  finally show ?thesis .
qed

text \<open>A word stored in little-endian order is loaded back.\<close>

lemma load_store_word:
  fixes w :: "'a::len word"
  assumes "inv m" and "okrange a (LENGTH('a) div 8)" and "8 dvd LENGTH('a)"
    and "LENGTH('a) < 2 ^ 64" and "wr a (to_le_bytes w) m = (Val (), m')"
  shows "bindO (rd m' a (of_nat (LENGTH('a) div 8))) (\<lambda>bs. Val (from_le_bytes bs)) = Val w"
  using rd_wr_same [OF assms(1), of a "to_le_bytes w" m'] assms by (simp add: from_to_le_bytes)

end

end
