(* ===== verification/Memory_Props.thy ===== *)
theory Memory_Props
  imports Memory Memory_Iface
begin

text \<open>
  What the address space promises its clients: seen through \<open>guest_byte\<close>, the manager is
  a partial map from guest addresses to bytes. Under the invariant \<open>wf_mem\<close> reading and
  writing below \<open>RAW_BASE\<close> implement that map, with and without overflow checks.
\<close>

unbundle bit_operations_syntax

subsection \<open>The abstract view\<close>

definition seg_contains :: "memory_segment \<Rightarrow> u64 \<Rightarrow> bool" where
  "seg_contains s a \<longleftrightarrow>
     seg_addr s \<le> a \<and> unat a < unat (seg_addr s) + unat (seg_size s)"

definition lookup_seg :: "memory_segment list \<Rightarrow> u64 \<Rightarrow> memory_segment option" where
  "lookup_seg segs a = List.find (\<lambda>s. seg_contains s a) segs"

definition host_addr :: "memory_segment list \<Rightarrow> u64 \<Rightarrow> u64 option" where
  "host_addr segs a = map_option (\<lambda>s. seg_ptr s + (a - seg_addr s)) (lookup_seg segs a)"

definition guest_byte :: "'h sys \<Rightarrow> u64 \<Rightarrow> u8 option" where
  "guest_byte m a =
     (case host_addr (segments m) a of
        None \<Rightarrow> None
      | Some p \<Rightarrow> map_option cell_byte (host_mem m p))"

text \<open>
  A segment is well-formed when it is not empty, neither of its ranges passes the end of
  the address space and its host range is mapped for reading and writing. Two segments must not meet, in
  the guest or on the host.
\<close>

definition wf_seg :: "hmem \<Rightarrow> memory_segment \<Rightarrow> bool" where
  "wf_seg hm s \<longleftrightarrow> seg_size s \<noteq> 0 \<and>
     unat (seg_addr s) + unat (seg_size s) < 2 ^ 64 \<and>
     unat (seg_ptr s) + unat (seg_size s) < 2 ^ 64 \<and>
     (\<forall>i < unat (seg_size s). \<exists>b. hm (seg_ptr s + of_nat i) = Some (Cell b True True))"

definition ranges_disjoint :: "u64 \<Rightarrow> u64 \<Rightarrow> u64 \<Rightarrow> u64 \<Rightarrow> bool" where
  "ranges_disjoint a n b k \<longleftrightarrow> unat a + unat n \<le> unat b \<or> unat b + unat k \<le> unat a"

definition segs_disjoint :: "memory_segment \<Rightarrow> memory_segment \<Rightarrow> bool" where
  "segs_disjoint s t \<longleftrightarrow>
     ranges_disjoint (seg_addr s) (seg_size s) (seg_addr t) (seg_size t) \<and>
     ranges_disjoint (seg_ptr s) (seg_size s) (seg_ptr t) (seg_size t)"

definition wf_mem :: "'h sys \<Rightarrow> bool" where
  "wf_mem m \<longleftrightarrow> (\<forall>s \<in> set (segments m). wf_seg (host_mem m) s) \<and>
     sorted_wrt segs_disjoint (segments m)"

text \<open>The abstract operations.\<close>

definition spec_read :: "'h sys \<Rightarrow> u64 \<Rightarrow> nat \<Rightarrow> bytes out" where
  "spec_read m addr n =
     (if \<forall>i<n. guest_byte m (addr + of_nat i) \<noteq> None
      then Val (map (\<lambda>i. the (guest_byte m (addr + of_nat i))) [0..<n])
      else Fail (MemoryError ''out of mapped bounds'' addr (of_nat n)))"

definition mapped_prefix :: "'h sys \<Rightarrow> u64 \<Rightarrow> nat \<Rightarrow> nat" where
  "mapped_prefix m addr n =
     length (takeWhile (\<lambda>i. guest_byte m (addr + of_nat i) \<noteq> None) [0..<n])"

subsection \<open>Address arithmetic\<close>

lemma unat_add_of_nat:
  "unat (a :: u64) + k < 2 ^ 64 \<Longrightarrow> unat (a + of_nat k) = unat a + k"
  by (simp add: unat_word_ariths unsigned_of_nat take_bit_eq_mod mod_simps)

lemma unat_sub_le: "b \<le> (a :: u64) \<Longrightarrow> unat (a - b) = unat a - unat b"
  by (simp add: unat_sub)

lemma word_le_unat: "(a :: 'a::len word) \<le> b \<longleftrightarrow> unat a \<le> unat b"
  by (simp add: word_le_nat_alt)

lemma word_less_unat: "(a :: 'a::len word) < b \<longleftrightarrow> unat a < unat b"
  by (simp add: word_less_nat_alt)

lemma ck_add_no_overflow:
  "unat a + unat b < 2 ^ LENGTH('a) \<Longrightarrow> ck_add oc (a :: 'a::len word) b = Val (a + b)"
  by (simp add: ck_add_def)

lemma add_of_nat_inj:
  "unat (a :: u64) + i < 2 ^ 64 \<Longrightarrow> unat a + j < 2 ^ 64 \<Longrightarrow>
     a + of_nat i = a + of_nat j \<longleftrightarrow> i = j"
  by (metis add_left_cancel unat_add_of_nat)

subsection \<open>Segment search\<close>

lemma seg_contains_offset:
  "seg_contains s a \<Longrightarrow> unat (a - seg_addr s) < unat (seg_size s)"
  by (auto simp: seg_contains_def word_le_unat unat_sub_le)

lemma find_seg_lookup:
  "\<forall>s \<in> set segs. unat (seg_addr s) + unat (seg_size s) < 2 ^ 64 \<Longrightarrow>
     find_seg oc segs a = Val (lookup_seg segs a)"
  by (induction segs)
    (auto simp: lookup_seg_def seg_contains_def ck_add_no_overflow word_less_unat
      unat_add_lem [THEN iffD1])

lemma lookup_Some: "lookup_seg segs a = Some s \<Longrightarrow> s \<in> set segs \<and> seg_contains s a"
  by (auto simp: lookup_seg_def find_Some_iff)

lemma lookup_unique:
  "sorted_wrt segs_disjoint segs \<Longrightarrow> s \<in> set segs \<Longrightarrow> seg_contains s a \<Longrightarrow>
     lookup_seg segs a = Some s"
proof (induction segs)
  case Nil
  then show ?case by simp
next
  case (Cons t segs)
  show ?case
  proof (cases "seg_contains t a")
    case True
    have "t = s"
    proof (rule ccontr)
      assume "t \<noteq> s"
      with Cons.prems have "segs_disjoint t s" by auto
      with True Cons.prems(3) show False
        by (auto simp: segs_disjoint_def ranges_disjoint_def seg_contains_def word_le_unat)
    qed
    with True show ?thesis by (simp add: lookup_seg_def)
  next
    case False
    with Cons.prems have "s \<in> set segs" by auto
    with Cons False show ?thesis by (simp add: lookup_seg_def)
  qed
qed

lemma seg_contains_step:
  assumes "seg_contains s a" and "unat (a - seg_addr s) + k < unat (seg_size s)"
    and "unat (seg_addr s) + unat (seg_size s) < 2 ^ 64"
  shows "seg_contains s (a + of_nat k)"
proof -
  have le: "unat (seg_addr s) \<le> unat a" and "unat (a - seg_addr s) = unat a - unat (seg_addr s)"
    using assms(1) by (auto simp: seg_contains_def word_le_unat unat_sub_le)
  with assms have "unat a + k < unat (seg_addr s) + unat (seg_size s)" by linarith
  moreover from this assms(3) have "unat (a + of_nat k) = unat a + k"
    by (intro unat_add_of_nat) linarith
  ultimately show ?thesis using le by (simp add: seg_contains_def word_le_unat)
qed

lemma lookup_step:
  assumes "sorted_wrt segs_disjoint segs" and "lookup_seg segs a = Some s"
    and "unat (a - seg_addr s) + k < unat (seg_size s)"
    and "unat (seg_addr s) + unat (seg_size s) < 2 ^ 64"
  shows "lookup_seg segs (a + of_nat k) = Some s"
  using assms lookup_Some [OF assms(2)] seg_contains_step lookup_unique by blast

subsection \<open>Host loads and stores\<close>

lemma hload_ok:
  "(\<And>i. i < n \<Longrightarrow> \<exists>b w. hm (p + of_nat i) = Some (Cell b True w)) \<Longrightarrow>
     hload hm p n = Some (map (\<lambda>i. cell_byte (the (hm (p + of_nat i)))) [0..<n])"
proof (induction n arbitrary: p)
  case 0
  then show ?case by simp
next
  case (Suc n)
  from Suc.prems [of 0] obtain b w where p: "hm p = Some (Cell b True w)" by auto
  have "hload hm (p + 1) n = Some (map (\<lambda>i. cell_byte (the (hm (p + 1 + of_nat i)))) [0..<n])"
  proof (rule Suc.IH)
    fix i assume "i < n"
    then show "\<exists>b w. hm (p + 1 + of_nat i) = Some (Cell b True w)"
      using Suc.prems [of "Suc i"] by (simp add: add.assoc)
  qed
  with p show ?case
    by (simp add: upt_conv_Cons map_Suc_upt [symmetric] comp_def add.assoc
        del: upt_Suc map_Suc_upt)
qed

lemma length_hload: "hload hm p n = Some bs \<Longrightarrow> length bs = n"
  by (induction n arbitrary: p bs) (auto split: option.splits if_splits)

lemma hstore_ok:
  assumes "\<And>i. i < length bs \<Longrightarrow> \<exists>b. hm (p + of_nat i) = Some (Cell b True True)"
    and "unat p + length bs < 2 ^ 64"
  shows "\<exists>hm'. hstore hm p bs = Some hm' \<and>
    (\<forall>q. hm' q = (if p \<le> q \<and> unat q < unat p + length bs
                  then Some (Cell (bs ! (unat q - unat p)) True True) else hm q))"
  using assms
proof (induction bs arbitrary: p hm)
  case Nil
  then show ?case by (auto simp: word_le_unat)
next
  case (Cons c bs)
  from Cons.prems(1) [of 0] obtain b where p: "hm p = Some (Cell b True True)" by auto
  have p1: "unat (p + 1) = unat p + 1"
    using Cons.prems(2) unat_add_of_nat [of p 1] by simp
  let ?hm = "hm(p \<mapsto> Cell c True True)"
  have ih: "\<exists>hm'. hstore ?hm (p + 1) bs = Some hm' \<and>
    (\<forall>q. hm' q = (if p + 1 \<le> q \<and> unat q < unat (p + 1) + length bs
                  then Some (Cell (bs ! (unat q - unat (p + 1))) True True) else ?hm q))"
  proof (rule Cons.IH)
    fix i assume i: "i < length bs"
    have "p + 1 + of_nat i = p + of_nat (Suc i)" by simp
    then show "\<exists>b. ?hm (p + 1 + of_nat i) = Some (Cell b True True)"
      using Cons.prems(1) [of "Suc i"] i by (auto simp: add.assoc)
  next
    show "unat (p + 1) + length bs < 2 ^ 64" using Cons.prems(2) p1 by simp
  qed
  then obtain hm' where st: "hstore ?hm (p + 1) bs = Some hm'"
    and v: "\<And>q. hm' q = (if p + 1 \<le> q \<and> unat q < unat (p + 1) + length bs
                  then Some (Cell (bs ! (unat q - unat (p + 1))) True True) else ?hm q)"
    by blast
  have "hm' q = (if p \<le> q \<and> unat q < unat p + length (c # bs)
           then Some (Cell ((c # bs) ! (unat q - unat p)) True True) else hm q)" for q
  proof (cases "q = p")
    case True
    then show ?thesis using v [of q] p1 by (simp add: word_le_unat)
  next
    case False
    then have "unat q \<noteq> unat p" by (simp add: word_unat_eq_iff)
    then show ?thesis using v [of q] p1 False
      by (auto simp: word_le_unat nth_Cons' intro!: arg_cong [where f = "(!) bs"])
  qed
  with st p show ?case by auto
qed

subsection \<open>Guest view of a well-formed manager\<close>

lemma wf_memD:
  assumes "wf_mem m" and "s \<in> set (segments m)"
  shows "unat (seg_addr s) + unat (seg_size s) < 2 ^ 64"
    and "unat (seg_ptr s) + unat (seg_size s) < 2 ^ 64"
    and "i < unat (seg_size s) \<Longrightarrow>
      \<exists>b. host_mem m (seg_ptr s + of_nat i) = Some (Cell b True True)"
  using assms by (auto simp: wf_mem_def wf_seg_def)

lemma wf_mem_find_seg: "wf_mem m \<Longrightarrow> find_seg oc (segments m) a = Val (lookup_seg (segments m) a)"
  by (intro find_seg_lookup ballI wf_memD(1))

lemma guest_byte_Some_iff:
  assumes "wf_mem m"
  shows "guest_byte m a \<noteq> None \<longleftrightarrow> lookup_seg (segments m) a \<noteq> None"
proof (cases "lookup_seg (segments m) a")
  case None
  then show ?thesis by (simp add: guest_byte_def host_addr_def)
next
  case (Some s)
  then have s: "s \<in> set (segments m)" "seg_contains s a" using lookup_Some by blast+
  have "\<exists>b. host_mem m (seg_ptr s + of_nat (unat (a - seg_addr s))) = Some (Cell b True True)"
    using wf_memD(3) [OF assms s(1)] seg_contains_offset [OF s(2)] by blast
  with Some show ?thesis by (auto simp: guest_byte_def host_addr_def)
qed

lemma guest_byte_in_seg:
  assumes "lookup_seg (segments m) a = Some s"
  shows "guest_byte m a = map_option cell_byte (host_mem m (seg_ptr s + (a - seg_addr s)))"
  using assms by (simp add: guest_byte_def host_addr_def)

text \<open>One chunk of a transfer stays inside the segment that was found for its start.\<close>

lemma chunk_in_seg:
  assumes "wf_mem m" and "lookup_seg (segments m) cur = Some s"
    and "k < chunk_len s cur remaining"
  shows "lookup_seg (segments m) (cur + of_nat k) = Some s"
    and "(cur + of_nat k) - seg_addr s = (cur - seg_addr s) + of_nat k"
    and "unat (cur - seg_addr s) + k < unat (seg_size s)"
proof -
  from assms(2) have s: "s \<in> set (segments m)" "seg_contains s cur" using lookup_Some by blast+
  have off: "unat (cur - seg_addr s) < unat (seg_size s)" by (rule seg_contains_offset [OF s(2)])
  then have "cur - seg_addr s \<le> seg_size s" by (simp add: word_le_unat)
  with assms(3) off show lt: "unat (cur - seg_addr s) + k < unat (seg_size s)"
    by (simp add: chunk_len_def unat_sub_le less_diff_conv add.commute)
  show "lookup_seg (segments m) (cur + of_nat k) = Some s"
    using assms(1) lookup_step [OF _ assms(2) lt wf_memD(1) [OF assms(1) s(1)]]
    by (simp add: wf_mem_def)
  show "(cur + of_nat k) - seg_addr s = (cur - seg_addr s) + of_nat k" by simp
qed

lemma chunk_pos:
  assumes "wf_mem m" and "lookup_seg (segments m) cur = Some s" and "0 < remaining"
  shows "0 < chunk_len s cur remaining" and "chunk_len s cur remaining \<le> remaining"
proof -
  from assms(2) have "unat (cur - seg_addr s) < unat (seg_size s)"
    using lookup_Some seg_contains_offset by blast
  then show "0 < chunk_len s cur remaining"
    using assms(3) by (simp add: chunk_len_def unat_sub_le word_le_unat)
  show "chunk_len s cur remaining \<le> remaining" by (simp add: chunk_len_def)
qed

lemma out_of_bounds_wf:
  assumes "wf_mem m"
  shows "out_of_bounds oc (segments m) a n = Fail (MemoryError ''out of mapped bounds'' a n)"
proof -
  have "\<forall>s \<in> set segs. unat (seg_addr s) + unat (seg_size s) < 2 ^ 64 \<Longrightarrow> seg_info oc segs = Val ()"
    for segs by (induction segs) (auto simp: ck_add_no_overflow)
  then show ?thesis using wf_memD(1) [OF assms] by (simp add: out_of_bounds_def)
qed

lemma guest_byte_chunk:
  assumes "wf_mem m" and "lookup_seg (segments m) cur = Some s"
    and "k < chunk_len s cur remaining"
  shows "\<exists>b. host_mem m (seg_ptr s + (cur - seg_addr s) + of_nat k) = Some (Cell b True True) \<and>
    guest_byte m (cur + of_nat k) = Some b"
proof -
  from assms(2) have s: "s \<in> set (segments m)" using lookup_Some by blast
  note c = chunk_in_seg [OF assms]
  from wf_memD(3) [OF assms(1) s c(3)] obtain b
    where "host_mem m (seg_ptr s + of_nat (unat (cur - seg_addr s) + k)) = Some (Cell b True True)"
    by blast
  then have "host_mem m (seg_ptr s + (cur - seg_addr s) + of_nat k) = Some (Cell b True True)"
    by (simp add: add.assoc)
  with guest_byte_in_seg [OF c(1)] c(2) show ?thesis by (simp add: add.assoc)
qed

lemma hload_chunk:
  assumes "wf_mem m" and "lookup_seg (segments m) cur = Some s"
    and "n \<le> chunk_len s cur remaining"
  shows "hload (host_mem m) (seg_ptr s + (cur - seg_addr s)) n =
    Some (map (\<lambda>i. the (guest_byte m (cur + of_nat i))) [0..<n])"
proof -
  have c: "\<exists>b. host_mem m (seg_ptr s + (cur - seg_addr s) + of_nat i) = Some (Cell b True True) \<and>
      guest_byte m (cur + of_nat i) = Some b" if "i < n" for i
    using guest_byte_chunk [OF assms(1,2)] that assms(3) by (meson order_less_le_trans)
  have "hload (host_mem m) (seg_ptr s + (cur - seg_addr s)) n =
      Some (map (\<lambda>i. cell_byte (the (host_mem m (seg_ptr s + (cur - seg_addr s) + of_nat i)))) [0..<n])"
    using c by (intro hload_ok) blast
  also have "\<dots> = Some (map (\<lambda>i. the (guest_byte m (cur + of_nat i))) [0..<n])"
    using c by (intro arg_cong [where f = Some] map_cong) (auto dest!: c)
  finally show ?thesis .
qed

subsection \<open>Reading implements the abstract view\<close>

lemma read_loop_spec:
  assumes "wf_mem m" and "unat addr + len < 2 ^ 64" and "got \<le> len" and "length buf = len"
    and "\<forall>i<got. guest_byte m (addr + of_nat i) = Some (buf ! i)"
  shows "read_loop oc (segments m) (host_mem m) addr len got buf = spec_read m addr len"
  using assms(3-5)
proof (induction "len - got" arbitrary: got buf rule: less_induct)
  case less
  show ?case
  proof (cases "got < len")
    case False
    with less.prems have "got = len" by simp
    then have "buf = map (\<lambda>i. the (guest_byte m (addr + of_nat i))) [0..<len]"
      using less.prems by (intro nth_equalityI) auto
    then show ?thesis
      using False less.prems \<open>got = len\<close> by (subst read_loop.simps) (auto simp: spec_read_def)
  next
    case True
    let ?cur = "addr + of_nat got"
    have ck: "ck_add oc addr (of_nat got) = Val ?cur"
      using assms(2) True by (intro ck_add_no_overflow) (simp add: unsigned_of_nat take_bit_nat_eq_self)
    show ?thesis
    proof (cases "lookup_seg (segments m) ?cur")
      case None
      then have "guest_byte m ?cur = None" using guest_byte_Some_iff [OF assms(1)] by metis
      then have "spec_read m addr len = Fail (MemoryError ''out of mapped bounds'' addr (of_nat len))"
        using True by (auto simp: spec_read_def)
      with True ck None show ?thesis
        by (simp add: read_loop.simps [of _ _ _ _ _ got] wf_mem_find_seg [OF assms(1)]
            out_of_bounds_wf [OF assms(1)])
    next
      case (Some s)
      let ?n = "chunk_len s ?cur (len - got)"
      let ?bs = "map (\<lambda>i. the (guest_byte m (?cur + of_nat i))) [0..<?n]"
      have pos: "0 < ?n" "?n \<le> len - got" using chunk_pos [OF assms(1) Some] True by auto
      have step: "read_loop oc (segments m) (host_mem m) addr len got buf =
          read_loop oc (segments m) (host_mem m) addr len (got + ?n) (copy_at got ?bs buf)"
        using True ck Some pos hload_chunk [OF assms(1) Some order_refl]
        by (simp add: read_loop.simps [of _ _ _ _ _ got] wf_mem_find_seg [OF assms(1)] Let_def)
      have "\<forall>i<got + ?n. guest_byte m (addr + of_nat i) = Some (copy_at got ?bs buf ! i)"
      proof (intro allI impI)
        fix i assume i: "i < got + ?n"
        show "guest_byte m (addr + of_nat i) = Some (copy_at got ?bs buf ! i)"
        proof (cases "i < got")
          case True
          with less.prems pos show ?thesis by (simp add: nth_copy_at)
        next
          case False
          then obtain k where k: "i = got + k" by (metis le_Suc_ex not_less)
          with i guest_byte_chunk [OF assms(1) Some, of k] obtain b
            where "guest_byte m (?cur + of_nat k) = Some b" by auto
          with k i less.prems pos show ?thesis by (simp add: nth_copy_at add.assoc)
        qed
      qed
      with step pos True less.prems less.hyps [of "got + ?n" "copy_at got ?bs buf"] show ?thesis
        by simp
    qed
  qed
qed

lemma find_cover_Some:
  assumes "\<forall>s \<in> set segs. unat (seg_addr s) + unat (seg_size s) < 2 ^ 64"
    and "unat a + unat n < 2 ^ 64"
  shows "\<exists>f. find_cover oc segs a n = Val f \<and> (\<forall>s. f = Some s \<longrightarrow>
    s \<in> set segs \<and> seg_addr s \<le> a \<and> unat a + unat n \<le> unat (seg_addr s) + unat (seg_size s))"
  using assms(1)
proof (induction segs)
  case Nil
  then show ?case by simp
next
  case (Cons s segs)
  have "unat (a + n) = unat a + unat n" using assms(2) by (simp add: unat_add_lem [THEN iffD1])
  moreover have "unat (seg_addr s + seg_size s) = unat (seg_addr s) + unat (seg_size s)"
    using Cons.prems by (simp add: unat_add_lem [THEN iffD1])
  ultimately show ?case
    using Cons assms(2) by (auto simp: ck_add_no_overflow word_le_unat)
qed

text \<open>The refinement: \<open>read\<close> is \<open>spec_read\<close>, with and without overflow checks.\<close>

lemma mem_read_spec:
  assumes "wf_mem m" and "addr < RAW_BASE" and "unat addr + unat len < 2 ^ 64"
    and "unat len < 2 ^ 63"
  shows "mem_read oc m addr len = spec_read m addr (unat len)"
proof (cases "len = 0")
  case True
  then show ?thesis by (simp add: mem_read_def spec_read_def)
next
  case False
  have nov: "\<forall>s \<in> set (segments m). unat (seg_addr s) + unat (seg_size s) < 2 ^ 64"
    using wf_memD(1) [OF assms(1)] by blast
  obtain f where f: "find_cover oc (segments m) addr len = Val f" and
    fs: "\<And>s. f = Some s \<Longrightarrow> s \<in> set (segments m) \<and> seg_addr s \<le> addr \<and>
      unat addr + unat len \<le> unat (seg_addr s) + unat (seg_size s)"
    using find_cover_Some [OF nov assms(3)] by blast
  have low: "\<not> RAW_BASE \<le> addr" using assms(2) by simp
  show ?thesis
  proof (cases f)
    case None
    then show ?thesis
      using f False assms(4) read_loop_spec [OF assms(1,3), of 0 "replicate (unat len) 0" oc]
      by (simp add: mem_read_def low)
  next
    case (Some s)
    note s = fs [OF Some]
    have "0 < unat len" using False by (simp add: unat_gt_0)
    with s have "seg_contains s addr" by (auto simp: seg_contains_def)
    then have lk: "lookup_seg (segments m) addr = Some s"
      using lookup_unique s assms(1) unfolding wf_mem_def by blast
    have off: "unat (addr - seg_addr s) = unat addr - unat (seg_addr s)" "unat (seg_addr s) \<le> unat addr"
      using s by (auto simp: word_le_unat unat_sub_le)
    with s have le: "unat (addr - seg_addr s) + unat len \<le> unat (seg_size s)" by linarith
    have "unat len \<le> chunk_len s addr (unat len)"
      using le by (simp add: chunk_len_def unat_sub_le word_le_unat)
    note ld = hload_chunk [OF assms(1) lk this]
    have "guest_byte m (addr + of_nat i) \<noteq> None" if "i < unat len" for i
      using guest_byte_chunk [OF assms(1) lk, of i "unat len"] that
        \<open>unat len \<le> chunk_len s addr (unat len)\<close> by auto
    then show ?thesis
      using f Some False le ld by (simp add: mem_read_def spec_read_def low)
  qed
qed

subsection \<open>Writing implements the abstract view\<close>

text \<open>Storing into one segment's host range changes the guest view there and nowhere else.\<close>

lemma host_addr_inj:
  assumes "wf_mem m" and "lookup_seg (segments m) a = Some s" and "lookup_seg (segments m) b = Some t"
    and "seg_ptr s + (a - seg_addr s) = seg_ptr t + (b - seg_addr t)"
  shows "a = b"
proof -
  from assms(2,3) have st: "s \<in> set (segments m)" "t \<in> set (segments m)"
    "seg_contains s a" "seg_contains t b" using lookup_Some by blast+
  have sa: "unat (seg_ptr s + (a - seg_addr s)) = unat (seg_ptr s) + unat (a - seg_addr s)"
    using seg_contains_offset [OF st(3)] wf_memD(2) [OF assms(1) st(1)]
    by (intro unat_add_lem [THEN iffD1]) simp
  have tb: "unat (seg_ptr t + (b - seg_addr t)) = unat (seg_ptr t) + unat (b - seg_addr t)"
    using seg_contains_offset [OF st(4)] wf_memD(2) [OF assms(1) st(2)]
    by (intro unat_add_lem [THEN iffD1]) simp
  have "s = t"
  proof (rule ccontr)
    assume "s \<noteq> t"
    then have "segs_disjoint s t \<or> segs_disjoint t s"
      using assms(1) st(1,2) sorted_wrt_iff_nth_less [of segs_disjoint "segments m"]
      by (auto simp: wf_mem_def in_set_conv_nth) (metis nat_neq_iff)
    then show False
      using sa tb assms(4) seg_contains_offset [OF st(3)] seg_contains_offset [OF st(4)]
      by (auto simp: segs_disjoint_def ranges_disjoint_def)
  qed
  with assms(4) show ?thesis by simp
qed

lemma store_chunk:
  assumes wf: "wf_mem m" and lk: "lookup_seg (segments m) cur = Some s"
    and n: "length bs \<le> chunk_len s cur remaining"
  shows "\<exists>hm'. hstore (host_mem m) (seg_ptr s + (cur - seg_addr s)) bs = Some hm' \<and>
    wf_mem (m\<lparr>host_mem := hm'\<rparr>) \<and>
    (\<forall>a. guest_byte (m\<lparr>host_mem := hm'\<rparr>) a =
       (if cur \<le> a \<and> unat a < unat cur + length bs then Some (bs ! (unat a - unat cur))
        else guest_byte m a))"
proof -
  let ?p = "seg_ptr s + (cur - seg_addr s)"
  from lk have s: "s \<in> set (segments m)" "seg_contains s cur" using lookup_Some by blast+
  note sz = wf_memD(1,2) [OF wf s(1)]
  have off: "unat (cur - seg_addr s) < unat (seg_size s)" by (rule seg_contains_offset [OF s(2)])
  then have fit: "unat (cur - seg_addr s) + length bs \<le> unat (seg_size s)"
    using n by (auto simp: chunk_len_def unat_sub_le word_le_unat)
  have up: "unat ?p = unat (seg_ptr s) + unat (cur - seg_addr s)"
    using off sz(2) by (intro unat_add_lem [THEN iffD1]) simp
  have ok: "\<exists>b. host_mem m (?p + of_nat i) = Some (Cell b True True)" if "i < length bs" for i
    using guest_byte_chunk [OF wf lk, of i remaining] that n by auto
  have pb: "unat ?p + length bs < 2 ^ 64" using up fit sz(2) by linarith
  from hstore_ok [of bs "host_mem m" ?p, OF ok pb] obtain hm' where st: "hstore (host_mem m) ?p bs = Some hm'"
    and v: "\<And>q. hm' q = (if ?p \<le> q \<and> unat q < unat ?p + length bs
       then Some (Cell (bs ! (unat q - unat ?p)) True True) else host_mem m q)" by blast
  have wf': "wf_mem (m\<lparr>host_mem := hm'\<rparr>)"
    using wf by (fastforce simp: wf_mem_def wf_seg_def v)
  have gb: "guest_byte (m\<lparr>host_mem := hm'\<rparr>) a =
      (if cur \<le> a \<and> unat a < unat cur + length bs then Some (bs ! (unat a - unat cur))
       else guest_byte m a)" for a
  proof (cases "cur \<le> a \<and> unat a < unat cur + length bs")
    case True
    define k where "k = unat a - unat cur"
    have k: "k < length bs" and a: "a = cur + of_nat k"
      using True by (auto simp: k_def word_le_unat of_nat_diff)
    note c = chunk_in_seg [OF wf lk, of k remaining]
    have kc: "k < chunk_len s cur remaining" using k n by simp
    have q: "seg_ptr s + (a - seg_addr s) = ?p + of_nat k" using a by simp
    have "unat (?p + of_nat k) = unat ?p + k" using pb k by (intro unat_add_of_nat) simp
    with v [of "?p + of_nat k"] k have "hm' (?p + of_nat k) = Some (Cell (bs ! k) True True)"
      by (simp add: word_le_unat)
    then have "hm' (seg_ptr s + (a - seg_addr s)) = Some (Cell (bs ! k) True True)"
      by (simp only: q)
    moreover have "lookup_seg (segments m) a = Some s" using c(1) [OF kc] a by simp
    ultimately have "guest_byte (m\<lparr>host_mem := hm'\<rparr>) a = Some (bs ! k)"
      by (simp add: guest_byte_def host_addr_def)
    with True show ?thesis by (simp add: k_def)
  next
    case False
    show ?thesis
    proof (cases "lookup_seg (segments m) a")
      case None
      with False show ?thesis by (simp add: guest_byte_def host_addr_def)
    next
      case (Some t)
      let ?q = "seg_ptr t + (a - seg_addr t)"
      have "\<not> (?p \<le> ?q \<and> unat ?q < unat ?p + length bs)"
      proof
        assume in_range: "?p \<le> ?q \<and> unat ?q < unat ?p + length bs"
        define k where "k = unat ?q - unat ?p"
        have k: "k < length bs" and q: "?q = ?p + of_nat k"
          using in_range by (auto simp: k_def word_le_unat of_nat_diff)
        have kc: "k < chunk_len s cur remaining" using k n by simp
        have cs: "unat cur + length bs < 2 ^ 64"
        proof -
          have "unat cur = unat (cur - seg_addr s) + unat (seg_addr s)"
            using s(2) by (simp add: seg_contains_def word_le_unat unat_sub_le)
          with fit sz(1) show ?thesis by linarith
        qed
        have "seg_ptr s + ((cur + of_nat k) - seg_addr s) = ?q" using q by simp
        from host_addr_inj [OF wf chunk_in_seg(1) [OF wf lk kc] Some this]
        have "a = cur + of_nat k" by simp
        with cs k have "unat a = unat cur + k" using unat_add_of_nat [of cur k] by simp
        with False k show False by (simp add: word_le_unat)
      qed
      with v [of ?q] have "hm' ?q = host_mem m ?q" by auto
      with Some have "guest_byte (m\<lparr>host_mem := hm'\<rparr>) a = guest_byte m a"
        by (simp add: guest_byte_def host_addr_def)
      with False show ?thesis by (simp only: if_False)
    qed
  qed
  from st wf' gb show ?thesis by blast
qed

text \<open>
  The effect of a write as the client sees it: the longest mapped prefix of the range gets
  the data, nothing else changes, and the outcome says whether that was all of it.
\<close>

definition written ::
  "'h sys \<Rightarrow> u64 \<Rightarrow> bytes \<Rightarrow> nat \<Rightarrow> 'h sys \<Rightarrow> bool" where
  "written m addr data k m' \<longleftrightarrow>
     wf_mem m' \<and> (\<exists>hm. m' = m\<lparr>host_mem := hm\<rparr>) \<and>
     (\<forall>a. guest_byte m' a =
        (if addr \<le> a \<and> unat a < unat addr + k then Some (data ! (unat a - unat addr))
         else guest_byte m a))"

lemma written_mapped:
  assumes "wf_mem m" and "written m addr data k m'"
  shows "guest_byte m' a \<noteq> None \<longleftrightarrow> guest_byte m a \<noteq> None"
proof -
  from assms(2) obtain hm where "m' = m\<lparr>host_mem := hm\<rparr>" and "wf_mem m'"
    by (auto simp: written_def)
  then show ?thesis
    using guest_byte_Some_iff [OF assms(1)] guest_byte_Some_iff [of m'] by simp
qed

lemma mapped_prefix_le: "mapped_prefix m addr n \<le> n"
  unfolding mapped_prefix_def by (rule order_trans [OF length_takeWhile_le]) simp

lemma mapped_prefix_stop:
  assumes "k \<le> n" and "\<forall>i<k. guest_byte m (addr + of_nat i) \<noteq> None"
    and "k < n \<Longrightarrow> guest_byte m (addr + of_nat k) = None"
  shows "mapped_prefix m addr n = k"
proof -
  have "takeWhile (\<lambda>i. guest_byte m (addr + of_nat i) \<noteq> None) [0..<n] = take k [0..<n]"
    using assms by (intro takeWhile_eq_take_P_nth) auto
  then show ?thesis using assms(1) by (simp add: mapped_prefix_def)
qed

lemma write_loop_spec:
  assumes "wf_mem m" and "unat addr + length data < 2 ^ 64" and "done \<le> length data"
    and "written m addr data done m1"
    and "\<forall>i<done. guest_byte m (addr + of_nat i) \<noteq> None"
  shows "\<exists>hm'. write_loop oc (segments m) addr data done (host_mem m1) =
      (if mapped_prefix m addr (length data) = length data then Val ()
       else Fail (MemoryError ''out of mapped bounds'' addr (of_nat (length data))), hm') \<and>
    written m addr data (mapped_prefix m addr (length data)) (m\<lparr>host_mem := hm'\<rparr>)"
  using assms(3-5)
proof (induction "length data - done" arbitrary: "done" m1 rule: less_induct)
  case less
  from less.prems(2) have wf1: "wf_mem m1" and sg: "segments m1 = segments m"
    and m1: "m1 = m\<lparr>host_mem := host_mem m1\<rparr>"
    by (auto simp: written_def)
  show ?case
  proof (cases "done < length data")
    case False
    with less.prems have "done = length data" by simp
    with less.prems have "mapped_prefix m addr (length data) = done"
      by (intro mapped_prefix_stop) auto
    with \<open>done = length data\<close> less.prems m1 show ?thesis
      by (subst write_loop.simps) auto
  next
    case True
    let ?cur = "addr + of_nat done"
    have ck: "ck_add oc addr (of_nat done) = Val ?cur"
      using assms(2) True by (intro ck_add_no_overflow) (simp add: unsigned_of_nat take_bit_nat_eq_self)
    have ucur: "unat ?cur = unat addr + done"
      using assms(2) True by (intro unat_add_of_nat) simp
    show ?thesis
    proof (cases "lookup_seg (segments m) ?cur")
      case None
      then have "guest_byte m ?cur = None" using guest_byte_Some_iff [OF assms(1)] by metis
      with less.prems have "mapped_prefix m addr (length data) = done"
        by (intro mapped_prefix_stop) auto
      with True ck None less.prems m1 show ?thesis
        by (subst write_loop.simps)
          (auto simp: wf_mem_find_seg [OF assms(1)] out_of_bounds_wf [OF assms(1)])
    next
      case (Some s)
      let ?n = "chunk_len s ?cur (length data - done)"
      let ?bs = "slice_at done ?n data"
      have lk: "lookup_seg (segments m1) ?cur = Some s" using Some sg by simp
      have pos: "0 < ?n" "?n \<le> length data - done" using chunk_pos [OF assms(1) Some] True by auto
      have len: "length ?bs = ?n" using pos by simp
      obtain hm2 where st: "hstore (host_mem m1) (seg_ptr s + (?cur - seg_addr s)) ?bs = Some hm2"
        and wf2: "wf_mem (m1\<lparr>host_mem := hm2\<rparr>)"
        and gb2: "\<And>a. guest_byte (m1\<lparr>host_mem := hm2\<rparr>) a =
          (if ?cur \<le> a \<and> unat a < unat ?cur + length ?bs then Some (?bs ! (unat a - unat ?cur))
           else guest_byte m1 a)"
        using store_chunk [OF wf1 lk, of ?bs "length data - done"] len by auto
      let ?m2 = "m\<lparr>host_mem := hm2\<rparr>"
      have eq: "m1\<lparr>host_mem := hm2\<rparr> = ?m2" by (subst m1) simp
      have step: "write_loop oc (segments m) addr data done (host_mem m1) =
          write_loop oc (segments m) addr data (done + ?n) (host_mem ?m2)"
        using True ck Some pos st
        by (subst write_loop.simps) (simp add: wf_mem_find_seg [OF assms(1)] Let_def)
      have "guest_byte ?m2 a =
          (if addr \<le> a \<and> unat a < unat addr + (done + ?n) then Some (data ! (unat a - unat addr))
           else guest_byte m a)" for a
        using gb2 [of a] less.prems(2) len pos
        by (auto simp: eq written_def word_le_unat ucur nth_slice_at split: if_splits)
      then have w2: "written m addr data (done + ?n) ?m2"
        using wf2 eq by (auto simp: written_def)
      have mapped: "\<forall>i<done + ?n. guest_byte m (addr + of_nat i) \<noteq> None"
      proof (intro allI impI)
        fix i assume i: "i < done + ?n"
        show "guest_byte m (addr + of_nat i) \<noteq> None"
        proof (cases "i < done")
          case True
          with less.prems show ?thesis by simp
        next
          case False
          then obtain k where k: "i = done + k" by (metis le_Suc_ex not_less)
          with i guest_byte_chunk [OF assms(1) Some, of k] show ?thesis by (auto simp: add.assoc)
        qed
      qed
      from less.hyps [of "done + ?n" ?m2] pos True w2 mapped step show ?thesis by simp
    qed
  qed
qed

text \<open>The refinement of \<open>write\<close>.\<close>

lemma mem_write_spec:
  assumes "wf_mem m" and "addr < RAW_BASE" and "unat addr + length data < 2 ^ 64"
  shows "\<exists>m'. mem_write oc addr data m =
      (if mapped_prefix m addr (length data) = length data then Val ()
       else Fail (MemoryError ''out of mapped bounds'' addr (of_nat (length data))), m') \<and>
    written m addr data (mapped_prefix m addr (length data)) m'"
proof -
  have "written m addr data 0 m"
    using assms(1) by (auto simp: written_def word_le_unat intro: exI [of _ "host_mem m"])
  from write_loop_spec [OF assms(1,3) _ this, of oc]
  obtain hm' where "write_loop oc (segments m) addr data 0 (host_mem m) =
      (if mapped_prefix m addr (length data) = length data then Val ()
       else Fail (MemoryError ''out of mapped bounds'' addr (of_nat (length data))), hm')"
    and "written m addr data (mapped_prefix m addr (length data)) (m\<lparr>host_mem := hm'\<rparr>)"
    by auto
  then show ?thesis
    using assms(2) by (auto simp: mem_write_def)
qed

subsection \<open>The manager provides the contract\<close>

text \<open>The ranges the segments serve: below the raw region, without wrap-around.\<close>

definition low_range :: "u64 \<Rightarrow> nat \<Rightarrow> bool" where
  "low_range a n \<longleftrightarrow> a < RAW_BASE \<and> unat a + n < 2 ^ 64 \<and> n < 2 ^ 63"

lemma mapped_prefix_full:
  "\<forall>i<n. guest_byte m (a + of_nat i) \<noteq> None \<Longrightarrow> mapped_prefix m a n = n"
  by (rule mapped_prefix_stop) auto

lemma mapped_prefix_nth:
  "i < mapped_prefix m a n \<Longrightarrow> guest_byte m (a + of_nat i) \<noteq> None"
proof -
  assume i: "i < mapped_prefix m a n"
  then have "takeWhile (\<lambda>i. guest_byte m (a + of_nat i) \<noteq> None) [0..<n] ! i
      \<in> set (takeWhile (\<lambda>i. guest_byte m (a + of_nat i) \<noteq> None) [0..<n])"
    by (simp add: mapped_prefix_def)
  moreover have "takeWhile (\<lambda>i. guest_byte m (a + of_nat i) \<noteq> None) [0..<n] ! i = i"
    using i mapped_prefix_le [of m a n] by (simp add: mapped_prefix_def takeWhile_nth)
  ultimately show ?thesis by (auto dest: set_takeWhileD)
qed

interpretation gm: guest_memory "mem_read oc" "mem_write oc" guest_byte wf_mem low_range for oc
proof unfold_locales
  show "unat a + n < 2 ^ 64" if "low_range a n" for a n
    using that by (simp add: low_range_def)
next
  fix m :: "'b sys" and a n :: u64
  assume h: "wf_mem m" "low_range a (unat n)"
    and "\<forall>i<unat n. guest_byte m (a + of_nat i) \<noteq> None"
  then show "mem_read oc m a n = Val (map (\<lambda>i. the (guest_byte m (a + of_nat i))) [0..<unat n])"
    by (simp add: mem_read_spec low_range_def spec_read_def)
next
  fix m :: "'b sys" and a n :: u64 and i
  assume h: "wf_mem m" "low_range a (unat n)" "i < unat n" "guest_byte m (a + of_nat i) = None"
  then show "\<exists>e. mem_read oc m a n = Fail e"
    by (auto simp: mem_read_spec low_range_def spec_read_def)
next
  fix m :: "'b sys" and a and bs :: bytes
  assume h: "wf_mem m" "low_range a (length bs)"
    "\<forall>i<length bs. guest_byte m (a + of_nat i) \<noteq> None"
  with mem_write_spec [of m a bs oc] show "\<exists>m'. mem_write oc a bs m = (Val (), m') \<and> wf_mem m' \<and>
      (\<forall>x. guest_byte m' x = (if in_range a (length bs) x then Some (bs ! (unat x - unat a))
         else guest_byte m x))"
    by (auto simp: low_range_def mapped_prefix_full written_def in_range_def)
next
  fix m :: "'b sys" and a and bs :: bytes and i
  assume h: "wf_mem m" "low_range a (length bs)" "i < length bs"
    "guest_byte m (a + of_nat i) = None"
  from h obtain m' where w: "mem_write oc a bs m =
      (if mapped_prefix m a (length bs) = length bs then Val ()
       else Fail (MemoryError ''out of mapped bounds'' a (of_nat (length bs))), m')"
    and wr: "written m a bs (mapped_prefix m a (length bs)) m'"
    using mem_write_spec [of m a bs oc] by (auto simp: low_range_def)
  have "mapped_prefix m a (length bs) \<noteq> length bs"
    using h(3,4) mapped_prefix_nth [of i m a "length bs"] by auto
  moreover have "guest_byte m' x = guest_byte m x" if "\<not> in_range a (length bs) x" for x
    using wr that mapped_prefix_le [of m a "length bs"] by (auto simp: written_def in_range_def)
  ultimately show "\<exists>e m'. mem_write oc a bs m = (Fail e, m') \<and> wf_mem m' \<and>
      (\<forall>x. guest_byte m' x \<noteq> None \<longleftrightarrow> guest_byte m x \<noteq> None) \<and>
      (\<forall>x. \<not> in_range a (length bs) x \<longrightarrow> guest_byte m' x = guest_byte m x)"
    using w wr written_mapped [OF h(1) wr] by (auto simp: written_def)
qed

end
