(* ===== verification/Memory_Map.thy ===== *)
theory Memory_Map
  imports Memory_Props
begin

text \<open>
  Mapping and the program break: the documented behaviour of the kernel's \<open>mmap\<close> as a
  hypothesis, what \<open>map_anonymous_prot\<close> then guarantees, and the invariant of
  \<open>set_brk\<close>.
\<close>

unbundle bit_operations_syntax

subsection \<open>The kernel's contract\<close>

definition round_page :: "nat \<Rightarrow> nat" where
  "round_page n = (n + 4095) div 4096 * 4096"

text \<open>
  An anonymous private mapping without \<open>MAP_FIXED\<close>: on success the kernel chooses a range
  of whole pages that was not mapped and fills it with zero bytes of the asked protection;
  everything else, and everything on failure, is as before.
\<close>

definition mmap_contract :: "('h, 'z) os_scheme \<Rightarrow> bool" where
  "mmap_contract K \<longleftrightarrow> (\<forall>hint n p hm k. n \<noteq> 0 \<longrightarrow>
     (case os_mmap K hint n p hm k of
        (Inl e, hm', k') \<Rightarrow> hm' = hm
      | (Inr ptr, hm', k') \<Rightarrow>
          ptr \<noteq> 0 \<and> unat ptr + round_page (unat n) < 2 ^ 64 \<and>
          (\<forall>q. in_range ptr (round_page (unat n)) q \<longrightarrow> hm q = None) \<and>
          (\<forall>q. hm' q = (if in_range ptr (round_page (unat n)) q
                        then Some (Cell 0 (prot_read p) (prot_write p)) else hm q))))"

text \<open>
  A kernel that meets the contract, for the witnesses: it hands out ranges upwards from
  the address in its state and refuses when the next range is in use or too high.
\<close>

definition bump_mmap :: "u64 option \<Rightarrow> u64 \<Rightarrow> prot \<Rightarrow> hmem \<Rightarrow> u64 \<Rightarrow> (string + u64) \<times> hmem \<times> u64" where
  "bump_mmap hint n p hm k =
     (if k = 0 \<or> 2 ^ 64 \<le> unat k + round_page (unat n) \<or>
         (\<exists>i<round_page (unat n). hm (k + of_nat i) \<noteq> None)
      then (Inl ''ENOMEM'', hm, k)
      else (Inr k,
            (\<lambda>q. if in_range k (round_page (unat n)) q
                 then Some (Cell 0 (prot_read p) (prot_write p)) else hm q),
            k + of_nat (round_page (unat n))))"

definition bump_os :: "u64 os" where
  "bump_os = \<lparr>os_mmap = bump_mmap,
     os_mprotect = (\<lambda>p n pr hm k. (Inr (), hm, k)),
     os_munmap = (\<lambda>p n hm k. (Inr (), hm, k))\<rparr>"

lemma in_range_split: "in_range a n q \<Longrightarrow> \<exists>i<n. q = a + of_nat i"
  by (rule exI [of _ "unat q - unat a"]) (auto simp: in_range_def word_le_unat of_nat_diff)

lemma bump_os_contract: "mmap_contract bump_os"
  by (auto simp: mmap_contract_def bump_os_def bump_mmap_def not_le dest!: in_range_split
      split: prod.splits sum.splits if_splits)

lemma round_page_ge: "n \<le> round_page n"
  unfolding round_page_def by linarith

subsection \<open>Page arithmetic\<close>

lemma and_not_mask_unat:
  "unat ((a :: u64) AND NOT (mask n)) = unat a div 2 ^ n * 2 ^ n"
proof -
  have "a AND NOT (mask n) = push_bit n (drop_bit n a)"
    by (rule bit_word_eqI)
      (auto simp: bit_and_iff bit_not_iff bit_mask_iff bit_push_bit_iff bit_drop_bit_eq)
  moreover have "unat a div 2 ^ n * 2 ^ n < 2 ^ 64"
    by (rule order_le_less_trans [OF div_times_less_eq_dividend]) (use unsigned_less [of a] in simp)
  moreover have "unat (push_bit n (drop_bit n a)) =
      take_bit LENGTH(64) (push_bit n (drop_bit n (take_bit LENGTH(64) (unat a))))"
    by (simp only: unsigned_push_bit_eq unsigned_drop_bit_eq)
  ultimately show ?thesis
    by (simp add: push_bit_eq_mult drop_bit_eq_div take_bit_nat_eq_self unsigned_less [of a, simplified])
qed

lemma page_mask: "PAGE_SIZE - 1 = mask 12"
  by (simp add: PAGE_SIZE_def mask_eq_exp_minus_1)

lemma align_down_unat: "unat (align_down_page a) = unat a div 4096 * 4096"
  by (simp only: align_down_page_def page_mask and_not_mask_unat) simp

lemma align_up_Val:
  assumes "unat a + 4096 < 2 ^ 64"
  shows "\<exists>r. align_up_page oc a = Val r \<and> unat r = round_page (unat a)"
proof -
  let ?t = "a + PAGE_SIZE - 1"
  have s: "unat (a + PAGE_SIZE) = unat a + 4096"
    using assms by (simp add: PAGE_SIZE_def unat_add_lem [THEN iffD1])
  then have "\<not> a + PAGE_SIZE < 1" by (simp add: word_less_unat)
  then have c2: "ck_sub oc (a + PAGE_SIZE) 1 = Val ?t" by (simp only: ck_sub_def simp_thms if_False)
  have c1: "ck_add oc a PAGE_SIZE = Val (a + PAGE_SIZE)"
    using assms by (simp add: ck_add_def PAGE_SIZE_def)
  have "align_up_page oc a = Val (?t AND NOT (mask 12))"
    by (simp only: align_up_page_def c1 c2 bindO.simps page_mask)
  moreover have "unat ?t = unat a + 4095"
    using s by (simp add: unat_sub word_le_unat)
  ultimately show ?thesis by (simp add: and_not_mask_unat round_page_def)
qed

subsection \<open>A mapping adds zero bytes and keeps everything else\<close>

lemma ranges_meet:
  assumes "\<not> ranges_disjoint a n b k" and "n \<noteq> 0" and "k \<noteq> 0"
    and "unat a + unat n < 2 ^ 64" and "unat b + unat k < 2 ^ 64"
  shows "\<exists>q. in_range a (unat n) q \<and> in_range b (unat k) q"
proof -
  let ?q = "if a \<le> b then b else a"
  have "0 < unat n" "0 < unat k" using assms(2,3) by (simp_all add: unat_gt_0)
  with assms(1) have "in_range a (unat n) ?q \<and> in_range b (unat k) ?q"
    by (auto simp: ranges_disjoint_def in_range_def word_le_unat)
  then show ?thesis by blast
qed

text \<open>The guest range of a new mapping meets no segment.\<close>

definition guest_free :: "'h sys \<Rightarrow> u64 \<Rightarrow> u64 \<Rightarrow> bool" where
  "guest_free m a n \<longleftrightarrow>
     (\<forall>s \<in> set (segments m). ranges_disjoint (seg_addr s) (seg_size s) a n)"

lemma seg_host_range:
  assumes "wf_seg hm s" and "in_range (seg_ptr s) (unat (seg_size s)) q"
  shows "hm q \<noteq> None"
  using assms in_range_split [OF assms(2)] by (auto simp: wf_seg_def)

lemma map_anonymous_prot_ok:
  assumes wf: "wf_mem m" and K: "mmap_contract K" and free: "guest_free m addr n"
    and addr: "addr \<noteq> 0" "unat addr + unat n < 2 ^ 64"
    and p: "prot_read p" "prot_write p"
    and run: "map_anonymous_prot K addr n p m = (Val v, m')"
  shows "v = addr \<and> wf_mem m' \<and>
    (\<forall>a. guest_byte m' a = (if in_range addr (unat n) a then Some 0 else guest_byte m a)) \<and>
    brk_base m' = brk_base m \<and> brk_current m' = brk_current m \<and>
    brk_mapped_end m' = brk_mapped_end m"
proof -
  have n0: "n \<noteq> 0" using run by (auto simp: map_anonymous_prot_def)
  obtain ptr hm k where os: "os_mmap K (Some addr) n p (host_mem m) (kernel m) = (Inr ptr, hm, k)"
    and v: "v = addr"
    and m': "m' = m\<lparr>host_mem := hm, kernel := k, segments := segments m @
        [\<lparr>seg_addr = addr, seg_size = n, seg_prot = p, seg_ptr = ptr\<rparr>]\<rparr>"
    using run n0 addr(1)
    by (auto simp: map_anonymous_prot_def Let_def split: prod.splits sum.splits)
  let ?s = "\<lparr>seg_addr = addr, seg_size = n, seg_prot = p, seg_ptr = ptr\<rparr>"
  have contract: "unat ptr + round_page (unat n) < 2 ^ 64"
    "\<And>q. in_range ptr (round_page (unat n)) q \<Longrightarrow> host_mem m q = None"
    "\<And>q. hm q = (if in_range ptr (round_page (unat n)) q then Some (Cell 0 True True)
             else host_mem m q)"
    using K [unfolded mmap_contract_def, rule_format, OF n0,
        where hint = "Some addr" and p = p and hm = "host_mem m" and k = "kernel m"]
      os p by simp_all
  have ge: "unat n \<le> round_page (unat n)" by (rule round_page_ge)
  have sub: "in_range ptr (unat n) q \<Longrightarrow> in_range ptr (round_page (unat n)) q" for q
    using ge by (auto simp: in_range_def)
  have old: "hm q = host_mem m q" if "host_mem m q \<noteq> None" for q
    using contract(2,3) that by auto
  have new_ok: "wf_seg hm ?s"
  proof -
    have "hm (ptr + of_nat i) = Some (Cell 0 True True)" if "i < unat n" for i
    proof -
      have "unat (ptr + of_nat i) = unat ptr + i"
        using contract(1) ge that by (intro unat_add_of_nat) linarith
      then have "in_range ptr (round_page (unat n)) (ptr + of_nat i)"
        using that ge by (simp add: in_range_def word_le_unat)
      then show ?thesis by (simp add: contract(3))
    qed
    then show ?thesis using n0 addr(2) contract(1) ge by (auto simp: wf_seg_def)
  qed
  have keep: "wf_seg hm s" if "s \<in> set (segments m)" for s
  proof -
    have "wf_seg (host_mem m) s" using wf that by (simp add: wf_mem_def)
    then show ?thesis using old by (fastforce simp: wf_seg_def)
  qed
  have disj: "segs_disjoint s ?s" if "s \<in> set (segments m)" for s
  proof -
    have ws: "wf_seg (host_mem m) s" using wf that by (simp add: wf_mem_def)
    have "ranges_disjoint (seg_ptr s) (seg_size s) ptr n"
    proof (rule ccontr)
      assume "\<not> ranges_disjoint (seg_ptr s) (seg_size s) ptr n"
      from ranges_meet [OF this _ n0] ws contract(1) ge obtain q
        where "in_range (seg_ptr s) (unat (seg_size s)) q" and "in_range ptr (unat n) q"
        by (auto simp: wf_seg_def)
      with seg_host_range [OF ws] contract(2) sub show False by blast
    qed
    with free that show ?thesis by (simp add: segs_disjoint_def guest_free_def)
  qed
  have wf': "wf_mem m'"
    using wf keep new_ok disj by (auto simp: wf_mem_def m' sorted_wrt_append)
  have gb: "guest_byte m' a = (if in_range addr (unat n) a then Some 0 else guest_byte m a)" for a
  proof (cases "lookup_seg (segments m) a")
    case (Some s)
    then have s: "s \<in> set (segments m)" "seg_contains s a" using lookup_Some by blast+
    have "\<not> in_range addr (unat n) a"
      using free s by (auto simp: guest_free_def ranges_disjoint_def seg_contains_def
          in_range_def word_le_unat)
    moreover have "lookup_seg (segments m') a = Some s"
      using wf' s by (intro lookup_unique) (auto simp: wf_mem_def m')
    moreover have "host_mem m (seg_ptr s + (a - seg_addr s)) \<noteq> None"
      using guest_byte_Some_iff [OF wf, of a] Some by (auto simp: guest_byte_def host_addr_def)
    ultimately show ?thesis
      using Some old by (auto simp: guest_byte_def host_addr_def m')
  next
    case None
    then have none: "\<not> seg_contains s a" if "s \<in> set (segments m)" for s
      using that by (auto simp: lookup_seg_def find_None_iff)
    show ?thesis
    proof (cases "in_range addr (unat n) a")
      case True
      then have c: "seg_contains ?s a" by (simp add: seg_contains_def in_range_def)
      then have "lookup_seg (segments m') a = Some ?s"
        using wf' by (intro lookup_unique) (auto simp: wf_mem_def m')
      moreover have "hm (ptr + of_nat (unat (a - addr))) \<noteq> None"
        using new_ok seg_contains_offset [OF c] by (fastforce simp: wf_seg_def)
      moreover have "in_range ptr (round_page (unat n)) (ptr + (a - addr))"
      proof -
        have lt: "unat (a - addr) < unat n" using seg_contains_offset [OF c] by simp
        then have "unat (ptr + (a - addr)) = unat ptr + unat (a - addr)"
          using contract(1) ge by (intro unat_add_lem [THEN iffD1]) simp
        with lt ge show ?thesis by (simp add: in_range_def word_le_unat)
      qed
      ultimately show ?thesis
        using True contract(3) by (simp add: guest_byte_def host_addr_def m')
    next
      case False
      then have "\<not> seg_contains ?s a" by (simp add: seg_contains_def in_range_def)
      with none have "lookup_seg (segments m') a = None"
        by (auto simp: lookup_seg_def find_None_iff m')
      with None False show ?thesis by (simp add: guest_byte_def host_addr_def)
    qed
  qed
  show ?thesis using v wf' gb by (simp add: m')
qed

subsection \<open>The program break\<close>

definition brk_wf :: "'h sys \<Rightarrow> bool" where
  "brk_wf m \<longleftrightarrow> brk_base m \<noteq> 0 \<and> brk_base m \<le> brk_current m \<and>
     brk_current m \<le> brk_mapped_end m \<and>
     (\<forall>x. brk_base m \<le> x \<and> x < brk_mapped_end m \<longrightarrow> guest_byte m x \<noteq> None)"

lemma guest_byte_kernel [simp]:
  "guest_byte (m\<lparr>kernel := k\<rparr>) a = guest_byte m a"
  "guest_byte (m\<lparr>brk_current := b\<rparr>) a = guest_byte m a"
  "guest_byte (m\<lparr>brk_mapped_end := b\<rparr>) a = guest_byte m a"
  "guest_byte (m\<lparr>stdout := so\<rparr>) a = guest_byte m a"
  by (simp_all add: guest_byte_def split: option.split)

lemma wf_mem_kernel [simp]:
  "wf_mem (m\<lparr>kernel := k\<rparr>) = wf_mem m" "wf_mem (m\<lparr>brk_current := b\<rparr>) = wf_mem m"
  "wf_mem (m\<lparr>brk_mapped_end := b\<rparr>) = wf_mem m" "wf_mem (m\<lparr>stdout := so\<rparr>) = wf_mem m"
  by (simp_all add: wf_mem_def)

lemma map_anonymous_prot_Fail:
  assumes "mmap_contract K" and "map_anonymous_prot K addr n p m = (Fail e, m')"
  shows "\<exists>k. m' = m\<lparr>kernel := k\<rparr>"
proof (cases "n = 0")
  case True
  with assms(2) have "m' = m\<lparr>kernel := kernel m\<rparr>" by (simp add: map_anonymous_prot_def)
  then show ?thesis by blast
next
  case False
  let ?hint = "if addr = 0 then None else Some addr"
  obtain e' hm k where os: "os_mmap K ?hint n p (host_mem m) (kernel m) = (Inl e', hm, k)"
    and m': "m' = m\<lparr>host_mem := hm, kernel := k\<rparr>"
    using assms(2) False
    by (auto simp: map_anonymous_prot_def Let_def split: prod.splits sum.splits)
  from assms(1) [unfolded mmap_contract_def, rule_format, OF False,
      where hint = ?hint and p = p and hm = "host_mem m" and k = "kernel m"] os
  have "hm = host_mem m" by simp
  with m' have "m' = m\<lparr>kernel := k\<rparr>" by simp
  then show ?thesis by blast
qed

lemma map_anonymous_prot_no_crash: "fst (map_anonymous_prot K a n p m) \<noteq> Crash c"
  by (auto simp: map_anonymous_prot_def Let_def split: prod.splits sum.splits)

definition keeps_bytes :: "'h sys \<Rightarrow> 'h sys \<Rightarrow> bool" where
  "keeps_bytes m m' \<longleftrightarrow> (\<forall>a. guest_byte m a \<noteq> None \<longrightarrow> guest_byte m' a = guest_byte m a)"

lemma guest_free_unmapped:
  assumes "guest_free m addr n" and "in_range addr (unat n) a"
  shows "guest_byte m a = None"
proof -
  have "\<not> seg_contains s a" if "s \<in> set (segments m)" for s
    using assms that by (force simp: guest_free_def ranges_disjoint_def seg_contains_def
        in_range_def word_le_unat)
  then have "lookup_seg (segments m) a = None"
    by (auto simp: lookup_seg_def find_None_iff)
  then show ?thesis by (simp add: guest_byte_def host_addr_def)
qed

text \<open>Growing the mapped part of the heap.\<close>

lemma brk_expand_ok:
  assumes wf: "wf_mem m" and bw: "brk_wf m" and K: "mmap_contract K"
    and hi: "unat new_brk + 4096 < 2 ^ 64" and gt: "brk_mapped_end m < new_brk"
    and free: "guest_free m (brk_mapped_end m)
      (of_nat (round_page (unat new_brk)) - brk_mapped_end m)"
  shows "\<exists>r m'. brk_expand oc K new_brk (brk_mapped_end m) m = (r, m') \<and>
    wf_mem m' \<and> brk_wf m' \<and> keeps_bytes m m' \<and> brk_base m' = brk_base m \<and>
    brk_current m' = brk_current m \<and>
    (\<forall>c. r \<noteq> Crash c) \<and> (r = Val () \<longrightarrow> new_brk \<le> brk_mapped_end m' \<and>
      unat (brk_mapped_end m') = round_page (unat new_brk) \<and>
      (\<forall>a. guest_byte m' a = (if brk_mapped_end m \<le> a \<and> a < brk_mapped_end m'
         then Some 0 else guest_byte m a))) \<and>
    (\<forall>e. r = Fail e \<longrightarrow> brk_mapped_end m' = brk_mapped_end m \<and> guest_byte m' = guest_byte m)"
proof -
  obtain r0 where up: "align_up_page oc new_brk = Val r0"
    and r0: "unat r0 = round_page (unat new_brk)"
    using align_up_Val [OF hi] by blast
  have r0': "of_nat (round_page (unat new_brk)) = r0" by (simp flip: r0)
  have ge: "new_brk \<le> r0" using round_page_ge [of "unat new_brk"] by (simp add: word_le_unat r0)
  then have lt: "brk_mapped_end m < r0" using gt by simp
  let ?n = "r0 - brk_mapped_end m"
  have sub: "ck_sub oc r0 (brk_mapped_end m) = Val ?n"
    using lt by (auto simp: ck_sub_def dest: order_less_asym)
  have un: "unat ?n = unat r0 - unat (brk_mapped_end m)" using lt by (simp add: unat_sub)
  have npos: "0 < ?n" using lt by (simp add: word_less_unat un)
  have me: "brk_mapped_end m \<noteq> 0" using bw by (auto simp: brk_wf_def)
  have nov: "unat (brk_mapped_end m) + unat ?n < 2 ^ 64"
    using lt un unsigned_less [of r0] by (simp add: word_less_unat)
  let ?p = "Prot True True False"
  obtain r1 m1 where run: "map_anonymous_prot K (brk_mapped_end m) ?n ?p m = (r1, m1)"
    by fastforce
  show ?thesis
  proof (cases r1)
    case (Val v)
    have ok: "wf_mem m1 \<and> (\<forall>a. guest_byte m1 a =
        (if in_range (brk_mapped_end m) (unat ?n) a then Some 0 else guest_byte m a)) \<and>
      brk_base m1 = brk_base m \<and> brk_current m1 = brk_current m \<and>
      brk_mapped_end m1 = brk_mapped_end m"
      using map_anonymous_prot_ok [OF wf K _ me nov _ _ run [unfolded Val]] free r0' by simp
    let ?m' = "m1\<lparr>brk_mapped_end := r0\<rparr>"
    have "brk_expand oc K new_brk (brk_mapped_end m) m = (Val (), ?m')"
      using up sub npos run Val by (simp add: brk_expand_def bind_def)
    moreover have "brk_wf ?m'"
      using bw ok lt un by (auto simp: brk_wf_def in_range_def word_le_unat word_less_unat)
    moreover have "keeps_bytes m ?m'"
      using ok guest_free_unmapped [OF free] r0' by (auto simp: keeps_bytes_def)
    moreover have "in_range (brk_mapped_end m) (unat ?n) a \<longleftrightarrow> brk_mapped_end m \<le> a \<and> a < r0" for a
      using lt un by (auto simp: in_range_def word_le_unat word_less_unat)
    ultimately show ?thesis using ok ge r0 by auto
  next
    case (Fail e)
    from map_anonymous_prot_Fail [OF K run [unfolded Fail]] obtain k where m1: "m1 = m\<lparr>kernel := k\<rparr>"
      by blast
    have "brk_expand oc K new_brk (brk_mapped_end m) m = (Fail e, m1)"
      using up sub npos run Fail by (simp add: brk_expand_def bind_def)
    moreover have "wf_mem m1 \<and> brk_wf m1 \<and> keeps_bytes m m1 \<and> brk_base m1 = brk_base m \<and>
        brk_current m1 = brk_current m \<and> brk_mapped_end m1 = brk_mapped_end m \<and>
        guest_byte m1 = guest_byte m"
      using wf bw by (simp add: m1 brk_wf_def keeps_bytes_def fun_eq_iff)
    ultimately show ?thesis by auto
  next
    case (Crash c)
    with run map_anonymous_prot_no_crash [of K "brk_mapped_end m" ?n ?p m c] show ?thesis by simp
  qed
qed

text \<open>The heap grows: only then are pages mapped.\<close>

definition brk_grows :: "'h sys \<Rightarrow> u64 \<Rightarrow> bool" where
  "brk_grows m new_brk \<longleftrightarrow> brk_base m \<le> new_brk \<and> brk_mapped_end m < new_brk"

text \<open>What \<open>set_brk\<close> leaves, for every outcome but a crash.\<close>

definition brk_outcome :: "'h sys \<Rightarrow> u64 \<Rightarrow> u64 out \<Rightarrow> 'h sys \<Rightarrow> bool" where
  "brk_outcome m new_brk r m' \<longleftrightarrow> brk_base m' = brk_base m \<and>
     (case r of
        Val v \<Rightarrow> v = brk_current m' \<and> v = (if new_brk < brk_base m then brk_current m else new_brk) \<and>
          unat (brk_mapped_end m') =
            (if brk_grows m new_brk then round_page (unat new_brk) else unat (brk_mapped_end m)) \<and>
          (\<forall>a. guest_byte m' a = (if brk_mapped_end m \<le> a \<and> a < brk_mapped_end m'
             then Some 0 else guest_byte m a))
      | Fail e \<Rightarrow> brk_grows m new_brk \<and> brk_current m' = brk_current m \<and>
          brk_mapped_end m' = brk_mapped_end m \<and> guest_byte m' = guest_byte m
      | Crash c \<Rightarrow> False)"

text \<open>\<open>set_brk\<close>: every branch, every outcome.\<close>

lemma set_brk_ok:
  assumes wf: "wf_mem m" and bw: "brk_wf m" and K: "mmap_contract K"
    and hi: "brk_grows m new_brk \<Longrightarrow> unat new_brk + 4096 < 2 ^ 64"
    and free: "brk_grows m new_brk \<Longrightarrow> guest_free m (brk_mapped_end m)
      (of_nat (round_page (unat new_brk)) - brk_mapped_end m)"
  shows "\<exists>r m'. set_brk oc K new_brk m = (r, m') \<and>
    wf_mem m' \<and> brk_wf m' \<and> keeps_bytes m m' \<and> brk_outcome m new_brk r m'"
proof (cases "new_brk = 0 \<or> new_brk < brk_base m")
  case True
  moreover have "brk_base m \<noteq> 0" using bw by (simp add: brk_wf_def)
  then have "new_brk = 0 \<Longrightarrow> new_brk < brk_base m" by (simp add: word_less_unat unat_gt_0)
  ultimately have "set_brk oc K new_brk m = (Val (brk_current m), m)" and "new_brk < brk_base m"
    by (auto simp: set_brk_def)
  then show ?thesis using wf bw by (auto simp: keeps_bytes_def brk_outcome_def brk_grows_def)
next
  case False
  show ?thesis
  proof (cases "brk_mapped_end m < new_brk")
    case True
    then have g: "brk_grows m new_brk" using False by (auto simp: brk_grows_def)
    obtain r m1 where ex: "brk_expand oc K new_brk (brk_mapped_end m) m = (r, m1)"
      and m1: "wf_mem m1" "brk_wf m1" "keeps_bytes m m1" "brk_base m1 = brk_base m"
        "brk_current m1 = brk_current m"
      and nc: "\<forall>c. r \<noteq> Crash c"
      and r: "r = Val () \<longrightarrow> new_brk \<le> brk_mapped_end m1 \<and>
        unat (brk_mapped_end m1) = round_page (unat new_brk) \<and>
        (\<forall>a. guest_byte m1 a = (if brk_mapped_end m \<le> a \<and> a < brk_mapped_end m1
           then Some 0 else guest_byte m a))"
      and fl: "\<forall>e. r = Fail e \<longrightarrow> brk_mapped_end m1 = brk_mapped_end m \<and>
        guest_byte m1 = guest_byte m"
      using brk_expand_ok [OF wf bw K hi [OF g] True free [OF g]] by blast
    show ?thesis
    proof (cases r)
      case (Val u)
      let ?m' = "m1\<lparr>brk_current := new_brk\<rparr>"
      have "set_brk oc K new_brk m = (Val new_brk, ?m')"
        using False True ex Val by (simp add: set_brk_def bind_def)
      moreover have "brk_wf ?m'" using m1 r Val False by (auto simp: brk_wf_def)
      moreover have "brk_outcome m new_brk (Val new_brk) ?m'"
        using m1 r Val g False by (auto simp: brk_outcome_def)
      ultimately show ?thesis using m1 by (auto simp: keeps_bytes_def)
    next
      case (Fail e)
      have "set_brk oc K new_brk m = (Fail e, m1)"
        using False True ex Fail by (simp add: set_brk_def bind_def)
      then show ?thesis using m1 fl Fail g by (simp add: brk_outcome_def)
    next
      case (Crash c)
      with nc show ?thesis by simp
    qed
  next
    case le: False
    have "set_brk oc K new_brk m = (Val new_brk, m\<lparr>brk_current := new_brk\<rparr>)"
      using False le by (simp add: set_brk_def bind_def ret_def)
    moreover have "brk_wf (m\<lparr>brk_current := new_brk\<rparr>)"
      using bw False le by (auto simp: brk_wf_def)
    ultimately show ?thesis using wf False le
      by (auto simp: keeps_bytes_def brk_outcome_def brk_grows_def)
  qed
qed

end
