(* ===== verification/Operand.thy ===== *)
theory Operand
  imports Memory_Map
begin

text \<open>
  The machine the interpreter steps (registers and memory) and the operand helpers at the
  top of \<open>interp/mod.rs\<close>: register indices and views, immediates, shifts, vector
  arrangements, conditions and effective addresses.
\<close>

unbundle bit_operations_syntax

subsection \<open>The machine\<close>

text \<open>What every function of the interpreter gets as \<open>ctx\<close> and \<open>mem\<close>.\<close>

record 'h machine =
  ctx :: cpu_context
  mem :: "'h sys"

definition on_ctx :: "(cpu_context \<Rightarrow> cpu_context) \<Rightarrow> ('h machine, unit) comp" where
  "on_ctx f = modify (\<lambda>m. m\<lparr>ctx := f (ctx m)\<rparr>)"

definition on_ctx_out :: "(cpu_context \<Rightarrow> cpu_context out) \<Rightarrow> ('h machine, unit) comp" where
  "on_ctx_out f = (\<lambda>m. case f (ctx m) of
      Val c \<Rightarrow> (Val (), m\<lparr>ctx := c\<rparr>)
    | Fail e \<Rightarrow> (Fail e, m)
    | Crash a \<Rightarrow> (Crash a, m))"

definition ctx_comp :: "(cpu_context, 'a) comp \<Rightarrow> ('h machine, 'a) comp" where
  "ctx_comp f = (\<lambda>m. case f (ctx m) of (r, c) \<Rightarrow> (r, m\<lparr>ctx := c\<rparr>))"

definition mem_comp :: "('h sys, 'a) comp \<Rightarrow> ('h machine, 'a) comp" where
  "mem_comp f = (\<lambda>m. case f (mem m) of (r, s) \<Rightarrow> (r, m\<lparr>mem := s\<rparr>))"

definition load :: "bool \<Rightarrow> u64 \<Rightarrow> u64 \<Rightarrow> ('h machine, bytes) comp" where
  "load oc a n = (\<lambda>m. (mem_read oc (mem m) a n, m))"

definition store :: "bool \<Rightarrow> u64 \<Rightarrow> bytes \<Rightarrow> ('h machine, unit) comp" where
  "store oc a bs = mem_comp (mem_write oc a bs)"

subsection \<open>Registers\<close>

fun reg_idx :: "reg \<Rightarrow> nat option" where
  "reg_idx (RX n) = (if n < 31 then Some n else None)"
| "reg_idx (RW n) = (if n < 31 then Some n else None)"
| "reg_idx _ = None"

fun is_w_reg :: "reg \<Rightarrow> bool" where
  "is_w_reg (RW n) = (n < 31)"
| "is_w_reg WZR = True"
| "is_w_reg _ = False"

fun is_d_reg :: "reg \<Rightarrow> bool" where
  "is_d_reg (RD n) = (n < 32)"
| "is_d_reg _ = False"

fun is_s_reg :: "reg \<Rightarrow> bool" where
  "is_s_reg (RS n) = (n < 32)"
| "is_s_reg _ = False"

fun v_reg_idx :: "reg \<Rightarrow> nat option" where
  "v_reg_idx (RB n) = (if n < 32 then Some n else None)"
| "v_reg_idx (RH n) = (if n < 32 then Some n else None)"
| "v_reg_idx (RS n) = (if n < 32 then Some n else None)"
| "v_reg_idx (RD n) = (if n < 32 then Some n else None)"
| "v_reg_idx (RQ n) = (if n < 32 then Some n else None)"
| "v_reg_idx (RV n) = (if n < 32 then Some n else None)"
| "v_reg_idx _ = None"

definition reg_size :: "'x bad64 \<Rightarrow> reg \<Rightarrow> nat" where
  "reg_size D reg =
     (let s = fmt_reg D reg
      in if starts_with s ''Q'' \<or> starts_with s ''V'' then 16
         else if starts_with s ''D'' \<or> starts_with s ''X'' then 8
         else if starts_with s ''S'' \<or> starts_with s ''W'' then 4
         else if starts_with s ''H'' then 2
         else if starts_with s ''B'' then 1
         else 8)"

definition get_reg_val :: "'x bad64 \<Rightarrow> reg \<Rightarrow> cpu_context \<Rightarrow> u64" where
  "get_reg_val D reg c =
     (if is_w_reg reg then
        (case reg_idx reg of Some idx \<Rightarrow> get_x c idx AND 0xFFFFFFFF | None \<Rightarrow> 0)
      else case reg_idx reg of
        Some idx \<Rightarrow> get_x c idx
      | None \<Rightarrow>
          (case v_reg_idx reg of
             Some idx \<Rightarrow>
               (let copy_sz = min (reg_size D reg) 8
                in from_le_bytes (copy_at 0 (take copy_sz (ctx_v c ! idx)) (replicate 8 0)))
           | None \<Rightarrow> if reg = SP then ctx_sp c else 0))"

definition set_reg_val :: "'x bad64 \<Rightarrow> reg \<Rightarrow> u64 \<Rightarrow> cpu_context \<Rightarrow> cpu_context" where
  "set_reg_val D reg val c =
     (if is_w_reg reg then
        (case reg_idx reg of Some idx \<Rightarrow> set_x idx (val AND 0xFFFFFFFF) c | None \<Rightarrow> c)
      else case reg_idx reg of
        Some idx \<Rightarrow> set_x idx val c
      | None \<Rightarrow>
          (case v_reg_idx reg of
             Some idx \<Rightarrow>
               (let copy_sz = min (reg_size D reg) 8
                in set_v_bytes idx
                     (copy_at 0 (take copy_sz (to_le_bytes val)) (replicate 16 0)) c)
           | None \<Rightarrow> if reg = SP then c\<lparr>ctx_sp := val\<rparr> else c))"

subsection \<open>Immediates and shifted registers\<close>

text \<open>Both readings of an immediate are the same word; \<open>imm_to_i64\<close> is read with \<open>sint\<close>.\<close>

primrec imm_to_u64 :: "imm \<Rightarrow> u64" where
  "imm_to_u64 (Signed val) = val"
| "imm_to_u64 (Unsigned val) = val"

primrec imm_to_i64 :: "imm \<Rightarrow> u64" where
  "imm_to_i64 (Signed val) = val"
| "imm_to_i64 (Unsigned val) = val"

text \<open>\<open>x << (amt & 63)\<close> on a \<open>u64\<close>.\<close>

definition shl63 :: "u64 \<Rightarrow> u32 \<Rightarrow> u64" where
  "shl63 w amt = push_bit (unat (amt AND 63)) w"

fun eval_shift_reg :: "'x bad64 \<Rightarrow> reg \<Rightarrow> shift \<Rightarrow> cpu_context \<Rightarrow> u64" where
  "eval_shift_reg D reg (Sh_LSL amt) c =
     (if is_w_reg reg then ucast (wrapping_shl (ucast (get_reg_val D reg c) :: u32) (amt AND 31))
      else wrapping_shl (get_reg_val D reg c) (amt AND 63))"
| "eval_shift_reg D reg (Sh_LSR amt) c =
     (if is_w_reg reg then ucast (wrapping_shr (ucast (get_reg_val D reg c) :: u32) (amt AND 31))
      else wrapping_shr (get_reg_val D reg c) (amt AND 63))"
| "eval_shift_reg D reg (Sh_ASR amt) c =
     (if is_w_reg reg then ucast (wrapping_sar (ucast (get_reg_val D reg c) :: u32) (amt AND 31))
      else wrapping_sar (get_reg_val D reg c) (amt AND 63))"
| "eval_shift_reg D reg (Sh_ROR amt) c =
     (if is_w_reg reg then ucast (rotate_right (ucast (get_reg_val D reg c) :: u32) (amt AND 31))
      else rotate_right (get_reg_val D reg c) (amt AND 63))"
| "eval_shift_reg D reg (Sh_UXTB amt) c = shl63 (ucast (ucast (get_reg_val D reg c) :: u8)) amt"
| "eval_shift_reg D reg (Sh_UXTH amt) c = shl63 (ucast (ucast (get_reg_val D reg c) :: u16)) amt"
| "eval_shift_reg D reg (Sh_UXTW amt) c = shl63 (ucast (ucast (get_reg_val D reg c) :: u32)) amt"
| "eval_shift_reg D reg (Sh_UXTX amt) c = shl63 (get_reg_val D reg c) amt"
| "eval_shift_reg D reg (Sh_SXTB amt) c = shl63 (scast (ucast (get_reg_val D reg c) :: u8)) amt"
| "eval_shift_reg D reg (Sh_SXTH amt) c = shl63 (scast (ucast (get_reg_val D reg c) :: u16)) amt"
| "eval_shift_reg D reg (Sh_SXTW amt) c = shl63 (scast (ucast (get_reg_val D reg c) :: u32)) amt"
| "eval_shift_reg D reg (Sh_SXTX amt) c = shl63 (get_reg_val D reg c) amt"
| "eval_shift_reg D reg (Sh_MSL amt) c =
     shl63 (get_reg_val D reg c) amt OR (shl63 1 amt - 1)"

fun get_op_reg :: "'x operand \<Rightarrow> reg option" where
  "get_op_reg (O_Reg reg x) = Some reg"
| "get_op_reg (O_QualReg reg x) = Some reg"
| "get_op_reg (O_ShiftReg reg sh x) = Some reg"
| "get_op_reg (O_MultiReg regs x) =
     (case List.find (\<lambda>r. r \<noteq> None) regs of Some r \<Rightarrow> r | None \<Rightarrow> None)"
| "get_op_reg _ = None"

fun get_multi_regs :: "'x operand \<Rightarrow> reg list" where
  "get_multi_regs (O_MultiReg regs x) = List.map_filter id regs"
| "get_multi_regs op = (case get_op_reg op of None \<Rightarrow> [] | Some r \<Rightarrow> [r])"

fun eval_imm_shift :: "u64 \<Rightarrow> shift option \<Rightarrow> u64" where
  "eval_imm_shift raw (Some (Sh_LSL amt)) = wrapping_shl raw amt"
| "eval_imm_shift raw (Some (Sh_LSR amt)) = wrapping_shr raw amt"
| "eval_imm_shift raw (Some (Sh_ASR amt)) = wrapping_sar raw amt"
| "eval_imm_shift raw (Some (Sh_ROR amt)) = rotate_right raw amt"
| "eval_imm_shift raw _ = raw"

fun get_operand_val :: "'x bad64 \<Rightarrow> 'x operand \<Rightarrow> cpu_context \<Rightarrow> u64" where
  "get_operand_val D (O_Reg reg x) c = get_reg_val D reg c"
| "get_operand_val D (O_QualReg reg x) c = get_reg_val D reg c"
| "get_operand_val D (O_ShiftReg reg sh x) c = eval_shift_reg D reg sh c"
| "get_operand_val D (O_Imm64 imm sh) c = eval_imm_shift (imm_to_u64 imm) sh"
| "get_operand_val D (O_Imm32 imm sh) c = eval_imm_shift (imm_to_u64 imm) sh"
| "get_operand_val D (O_Label imm) c = imm_to_u64 imm"
| "get_operand_val D _ c = 0"

fun shift_val :: "shift option \<Rightarrow> u32" where
  "shift_val (Some (Sh_LSL amt)) = amt"
| "shift_val (Some (Sh_LSR amt)) = amt"
| "shift_val (Some (Sh_ASR amt)) = amt"
| "shift_val (Some (Sh_ROR amt)) = amt"
| "shift_val _ = 0"

subsection \<open>Vector arrangements\<close>

definition is_64bit_vector :: "'x bad64 \<Rightarrow> 'x operand \<Rightarrow> bool" where
  "is_64bit_vector D op =
     (let s = fmt_operand D op
      in contains s ''8B'' \<or> contains s ''4H'' \<or> contains s ''2S'' \<or> contains s ''1D'' \<or>
         contains s ''8b'' \<or> contains s ''4h'' \<or> contains s ''2s'' \<or> contains s ''1d'')"

definition get_vec_elem_size :: "'x bad64 \<Rightarrow> 'x operand \<Rightarrow> nat" where
  "get_vec_elem_size D op =
     (let s = fmt_operand D op
      in if contains s ''16B'' \<or> contains s ''8B'' \<or> contains s ''16b'' \<or> contains s ''8b'' then 1
         else if contains s ''8H'' \<or> contains s ''4H'' \<or> contains s ''8h'' \<or> contains s ''4h'' then 2
         else if contains s ''4S'' \<or> contains s ''2S'' \<or> contains s ''4s'' \<or> contains s ''2s'' then 4
         else if contains s ''2D'' \<or> contains s ''1D'' \<or> contains s ''2d'' \<or> contains s ''1d'' then 8
         else 1)"

subsection \<open>Conditions\<close>

definition to_uppercase :: "string \<Rightarrow> string" where
  "to_uppercase s = map (\<lambda>ch. let n = (of_char ch :: nat)
     in if 97 \<le> n \<and> n \<le> 122 then char_of (n - 32) else ch) s"

definition eval_cond :: "'x bad64 \<Rightarrow> 'x \<Rightarrow> cpu_context \<Rightarrow> bool" where
  "eval_cond D cond c =
     (let s = to_uppercase (fmt_cond D cond)
      in if s = ''EQ'' then get_z c
         else if s = ''NE'' then \<not> get_z c
         else if s = ''CS'' \<or> s = ''HS'' then get_c c
         else if s = ''CC'' \<or> s = ''LO'' then \<not> get_c c
         else if s = ''MI'' then get_n c
         else if s = ''PL'' then \<not> get_n c
         else if s = ''VS'' then get_v c
         else if s = ''VC'' then \<not> get_v c
         else if s = ''HI'' then get_c c \<and> \<not> get_z c
         else if s = ''LS'' then \<not> get_c c \<or> get_z c
         else if s = ''GE'' then get_n c = get_v c
         else if s = ''LT'' then get_n c \<noteq> get_v c
         else if s = ''GT'' then \<not> get_z c \<and> get_n c = get_v c
         else if s = ''LE'' then get_z c \<or> get_n c \<noteq> get_v c
         else True)"

subsection \<open>Effective addresses\<close>

text \<open>
  The address of a memory operand, with the write-back of the pre- and post-indexed forms
  into the base register; \<open>None\<close> when the operand is no memory operand. The sum with an
  immediate is a signed \<open>+\<close>, the sum with a register wraps.
\<close>

fun eval_mem_addr :: "bool \<Rightarrow> 'x bad64 \<Rightarrow> 'x operand \<Rightarrow> (cpu_context, u64 option) comp" where
  "eval_mem_addr oc D (O_Reg reg x) c = (Val (Some (get_reg_val D reg c)), c)"
| "eval_mem_addr oc D (O_QualReg reg x) c = (Val (Some (get_reg_val D reg c)), c)"
| "eval_mem_addr oc D (O_MemReg reg) c = (Val (Some (get_reg_val D reg c)), c)"
| "eval_mem_addr oc D (O_MemOffset reg offset x) c =
     (bindO (ck_sadd oc (get_reg_val D reg c) (imm_to_i64 offset)) (\<lambda>a. Val (Some a)), c)"
| "eval_mem_addr oc D (O_MemPreIdx reg imm x) c =
     bind (lift (ck_sadd oc (get_reg_val D reg c) (imm_to_i64 imm))) (\<lambda>new_addr.
     bind (modify (set_reg_val D reg new_addr)) (\<lambda>_. ret (Some new_addr))) c"
| "eval_mem_addr oc D (O_MemPostIdxImm reg imm x) c =
     (let base = get_reg_val D reg c
      in bind (lift (ck_sadd oc base (imm_to_i64 imm))) (\<lambda>new_base.
         bind (modify (set_reg_val D reg new_base)) (\<lambda>_. ret (Some base))) c)"
| "eval_mem_addr oc D (O_MemExt r0 r1 sh x) c =
     (let base = get_reg_val D r0 c;
          off = (case sh of
                   Some s \<Rightarrow> eval_shift_reg D r1 s c
                 | None \<Rightarrow> if is_w_reg r1 then ucast (ucast (get_reg_val D r1 c) :: u32)
                          else get_reg_val D r1 c)
      in (Val (Some (base + off)), c))"
| "eval_mem_addr oc D (O_MemPostIdxReg r0 r1) c =
     (let base = get_reg_val D r0 c; off = get_reg_val D r1 c
      in (Val (Some base), set_reg_val D r0 (base + off) c))"
| "eval_mem_addr oc D (O_Label imm) c = (Val (Some (imm_to_u64 imm)), c)"
| "eval_mem_addr oc D _ c = (Val None, c)"

text \<open>\<open>m_err\<close>: a memory error becomes an interpreter error at the instruction.\<close>

definition m_err :: "u64 \<Rightarrow> error \<Rightarrow> error" where
  "m_err pc e = InterpreterError pc ''Memory error'' (Some e)"

end
