(* ===== verification/Vec_Lanes.thy ===== *)
theory Vec_Lanes
  imports Operand
begin

text \<open>
  The lanes of a 16-byte vector register: the read of a lane, the register built lane by
  lane, and the facts the vector handlers of \<open>interp/mod.rs\<close> share. A lane is a word
  whose type gives the element size.
\<close>

unbundle bit_operations_syntax

text \<open>\<open>T::from_le_bytes(v[i * w..i * w + w])\<close>.\<close>

definition lane :: "bytes \<Rightarrow> nat \<Rightarrow> 'a::len word" where
  "lane v i = from_le_bytes (slice_at (i * (LENGTH('a) div 8)) (LENGTH('a) div 8) v)"

text \<open>
  \<open>let mut res = [0u8; 16]; for i in 0..n { res[i * w..i * w + w] = f(i).to_le_bytes() }\<close>
  for lanes that fit into the register.
\<close>

definition build_vec :: "nat \<Rightarrow> (nat \<Rightarrow> 'a::len word) \<Rightarrow> bytes" where
  "build_vec n f = copy_at 0 (concat (map (\<lambda>i. to_le_bytes (f i)) [0..<n])) (replicate 16 0)"

text \<open>\<open>get_op_reg(op).and_then(v_reg_idx)\<close> and the register it names, zero if none.\<close>

definition vec_idx :: "'x operand \<Rightarrow> nat option" where
  "vec_idx op = Option.bind (get_op_reg op) v_reg_idx"

definition vec_operand :: "cpu_context \<Rightarrow> 'x operand \<Rightarrow> bytes" where
  "vec_operand c op = (case vec_idx op of Some idx \<Rightarrow> ctx_v c ! idx | None \<Rightarrow> replicate 16 0)"

text \<open>Both registers of a two-register operation, when both are vector registers.\<close>

definition vec_pair :: "'x operand list \<Rightarrow> (nat \<times> nat) option" where
  "vec_pair ops =
     (case (vec_idx (ops ! 0), vec_idx (ops ! 1)) of
        (Some d, Some n) \<Rightarrow> Some (d, n) | _ \<Rightarrow> None)"

text \<open>
  \<open>match elem_sz\<close> over the lane types: one function per width, the widest for every
  other size.
\<close>

definition by_elem :: "nat \<Rightarrow> 'r \<Rightarrow> 'r \<Rightarrow> 'r \<Rightarrow> 'r \<Rightarrow> 'r" where
  "by_elem sz r1 r2 r4 r8 = (if sz = 1 then r1 else if sz = 2 then r2 else if sz = 4 then r4 else r8)"

text \<open>\<open>Operand::Reg { reg, .. }\<close> and \<open>Operand::Imm64 | Imm32 { imm, .. }\<close>.\<close>

fun plain_reg :: "'x operand \<Rightarrow> reg option" where
  "plain_reg (O_Reg reg x) = Some reg"
| "plain_reg _ = None"

fun operand_imm :: "'x operand \<Rightarrow> (imm \<times> shift option) option" where
  "operand_imm (O_Imm64 imm sh) = Some (imm, sh)"
| "operand_imm (O_Imm32 imm sh) = Some (imm, sh)"
| "operand_imm _ = None"

lemma v_reg_idx_bound: "v_reg_idx r = Some i \<Longrightarrow> i < 32"
  by (cases r rule: v_reg_idx.cases) (auto split: if_splits)

lemma reg_idx_bound: "reg_idx r = Some i \<Longrightarrow> i < 31"
  by (cases r rule: reg_idx.cases) (auto split: if_splits)

lemma vec_idx_bound: "vec_idx op = Some i \<Longrightarrow> i < 32"
  by (auto simp: vec_idx_def Option.bind_eq_Some_conv v_reg_idx_bound)

lemma length_vec_operand [simp]: "wf_cpu c \<Longrightarrow> length (vec_operand c op) = 16"
  by (auto simp: vec_operand_def wf_cpu_v vec_idx_bound split: option.splits)

lemma get_vec_elem_size_cases: "get_vec_elem_size D op \<in> {1, 2, 4, 8}"
  by (simp add: get_vec_elem_size_def Let_def)

lemma length_build_vec [simp]:
  assumes "n * (LENGTH('a::len) div 8) \<le> 16"
  shows "length (build_vec n (f :: nat \<Rightarrow> 'a word)) = 16"
  unfolding build_vec_def
  by (subst length_copy_at) (use assms in \<open>simp_all add: length_concat_const ac_simps\<close>)

text \<open>Reading a built register back lane by lane, at the width it was built with.\<close>

lemma slice_build_vec:
  assumes n: "n * (LENGTH('a::len) div 8) \<le> 16" and i: "i < n"
  shows "slice_at (i * (LENGTH('a) div 8)) (LENGTH('a) div 8)
      (build_vec n (f :: nat \<Rightarrow> 'a word)) = to_le_bytes (f i)"
proof -
  define w where "w = LENGTH('a) div 8"
  define ls where "ls = concat (map (\<lambda>i. to_le_bytes (f i)) [0..<n])"
  have len: "length ls = w * n" unfolding ls_def w_def by (simp add: length_concat_const)
  have "i * w + w \<le> w * n"
  proof -
    have "(i + 1) * w \<le> n * w" using i by (intro mult_right_mono) auto
    then show ?thesis by (simp add: algebra_simps)
  qed
  note fits = this
  show ?thesis
  proof (rule nth_equalityI)
    show "length (slice_at (i * (LENGTH('a) div 8)) (LENGTH('a) div 8) (build_vec n f)) =
        length (to_le_bytes (f i))"
      using fits n by (subst length_slice_at) (simp_all add: w_def [symmetric] ac_simps)
  next
    fix k
    assume "k < length (slice_at (i * (LENGTH('a) div 8)) (LENGTH('a) div 8) (build_vec n f))"
    moreover have "length (slice_at (i * w) w (build_vec n f)) = w"
      using fits n by (subst length_slice_at) (simp_all add: w_def ac_simps)
    ultimately have k: "k < w" by (simp add: w_def)
    have le: "i * w + k < w * n" using k fits by linarith
    have "slice_at (i * w) w (build_vec n f) ! k = build_vec n f ! (i * w + k)"
      using k fits n by (subst nth_slice_at) (simp_all add: w_def ac_simps)
    also have "\<dots> = ls ! (i * w + k)"
      using le len by (simp add: build_vec_def ls_def [symmetric] copy_at_def nth_append)
    also have "\<dots> = to_le_bytes (f i) ! k"
      unfolding ls_def using le k i
      by (subst nth_concat_const [where n = w]) (auto simp: w_def)
    finally show "slice_at (i * (LENGTH('a) div 8)) (LENGTH('a) div 8) (build_vec n f) ! k =
        to_le_bytes (f i) ! k" by (simp add: w_def)
  qed
qed

lemma lane_build_vec:
  assumes "8 dvd LENGTH('a::len)" and "n * (LENGTH('a) div 8) \<le> 16" and "i < n"
  shows "lane (build_vec n (f :: nat \<Rightarrow> 'a word)) i = f i"
  unfolding lane_def slice_build_vec [OF assms(2,3)] by (rule from_to_le_bytes [OF assms(1)])

text \<open>The low 64 bits of a vector register, as the scalar views read them.\<close>

lemma build_vec_cong:
  "(\<And>i. i < n \<Longrightarrow> f i = g i) \<Longrightarrow> build_vec n f = build_vec n g"
  by (auto simp: build_vec_def intro!: arg_cong [where f = "\<lambda>x. copy_at 0 x (replicate 16 0)"]
      arg_cong [where f = concat])

end
