(* ===== verification/Interp_Float.thy ===== *)
theory Interp_Float
  imports Vec_Lanes
begin

text \<open>
  The scalar floating-point arms of \<open>Interpreter::step\<close>. Values are IEEE 754 bit
  patterns. Comparisons, sign operations and the truncating conversions to integers are
  computed on the patterns; the rounding operations, whose NaN results Rust does not fix,
  are the parameter \<open>fpu\<close>.
\<close>

unbundle bit_operations_syntax

subsection \<open>Patterns\<close>

record fpu =
  f64_arith :: "fp_op \<Rightarrow> u64 \<Rightarrow> u64 \<Rightarrow> u64"
  f32_arith :: "fp_op \<Rightarrow> u32 \<Rightarrow> u32 \<Rightarrow> u32"
  f64_sqrt :: "u64 \<Rightarrow> u64"
  f32_sqrt :: "u32 \<Rightarrow> u32"
  f32_to_f64 :: "u32 \<Rightarrow> u64"
  f64_to_f32 :: "u64 \<Rightarrow> u32"
  int_to_f64 :: "int \<Rightarrow> u64"
  int_to_f32 :: "int \<Rightarrow> u32"

text \<open>
  \<open>m\<close> is the number of fraction bits: 52 for \<open>f64\<close>, 23 for \<open>f32\<close>. Below the sign bit
  the patterns of the non-NaN numbers are ordered as their absolute values.
\<close>

definition f_magnitude :: "'a::len word \<Rightarrow> nat" where
  "f_magnitude w = unat (take_bit (LENGTH('a) - 1) w)"

definition f_infinity :: "nat \<Rightarrow> 'a::len word \<Rightarrow> nat" where
  "f_infinity m w = (2 ^ (LENGTH('a) - 1 - m) - 1) * 2 ^ m"

definition f_is_nan :: "nat \<Rightarrow> 'a::len word \<Rightarrow> bool" where
  "f_is_nan m w \<longleftrightarrow> f_infinity m w < f_magnitude w"

definition f_key :: "'a::len word \<Rightarrow> int" where
  "f_key w = (if is_neg w then - int (f_magnitude w) else int (f_magnitude w))"

text \<open>The flags of a comparison: the four outcomes of the source, in its order.\<close>

definition f_compare :: "nat \<Rightarrow> 'a::len word \<Rightarrow> 'a word \<Rightarrow> bool \<times> bool \<times> bool \<times> bool" where
  "f_compare m v1 v2 =
     (if f_is_nan m v1 \<or> f_is_nan m v2 then (False, False, True, True)
      else if f_key v1 < f_key v2 then (True, False, False, False)
      else if f_key v1 = f_key v2 then (False, True, True, False)
      else (False, False, True, False))"

text \<open>\<open>x as i64\<close> and \<open>x as u64\<close> of an \<open>f64\<close>: truncated towards zero, saturated, NaN to 0.\<close>

definition f64_trunc :: "u64 \<Rightarrow> int" where
  "f64_trunc w =
     (let e = unat (take_bit 11 (drop_bit 52 w));
          frac = unat (take_bit 52 w);
          sig = (if e = 0 then frac else 2 ^ 52 + frac);
          mag = (if 1075 \<le> e then sig * 2 ^ (e - 1075) else sig div 2 ^ (1075 - max e 1))
      in if is_neg w then - int mag else int mag)"

definition f64_to_i64 :: "u64 \<Rightarrow> u64" where
  "f64_to_i64 w =
     (if f_is_nan 52 w then 0 else word_of_int (max (- (2 ^ 63)) (min (2 ^ 63 - 1) (f64_trunc w))))"

definition f64_to_u64 :: "u64 \<Rightarrow> u64" where
  "f64_to_u64 w =
     (if f_is_nan 52 w then 0 else word_of_int (max 0 (min (2 ^ 64 - 1) (f64_trunc w))))"

definition f_neg :: "'a::len word \<Rightarrow> 'a word" where
  "f_neg w = w XOR push_bit (LENGTH('a) - 1) 1"

definition f_abs :: "'a::len word \<Rightarrow> 'a word" where
  "f_abs w = take_bit (LENGTH('a) - 1) w"

subsection \<open>Registers\<close>

definition get_f64 :: "cpu_context \<Rightarrow> nat \<Rightarrow> u64" where
  "get_f64 c i = from_le_bytes (take 8 (ctx_v c ! i))"

definition get_f32 :: "cpu_context \<Rightarrow> nat \<Rightarrow> u32" where
  "get_f32 c i = from_le_bytes (take 4 (ctx_v c ! i))"

text \<open>\<open>ctx.v[idx][..n].copy_from_slice(&bytes)\<close>: the rest of the register keeps its bytes.\<close>

definition put_low :: "nat \<Rightarrow> bytes \<Rightarrow> cpu_context \<Rightarrow> cpu_context" where
  "put_low idx b c = set_v_bytes idx (copy_at 0 b (ctx_v c ! idx)) c"

subsection \<open>Handlers\<close>

definition exec_FMOV :: "'x bad64 \<Rightarrow> 'x operand list \<Rightarrow> cpu_context \<Rightarrow> cpu_context" where
  "exec_FMOV D ops c =
     (if length ops < 2 then c
      else case get_op_reg (ops ! 0) of
        None \<Rightarrow> c
      | Some reg \<Rightarrow> set_reg_val D reg (get_operand_val D (ops ! 1) c) c)"

definition exec_FCMP :: "'x operand list \<Rightarrow> cpu_context \<Rightarrow> cpu_context" where
  "exec_FCMP ops c =
     (if length ops < 2 then c
      else case get_op_reg (ops ! 0) of
        None \<Rightarrow> c
      | Some r1 \<Rightarrow>
          (case v_reg_idx r1 of
             None \<Rightarrow> c
           | Some idx1 \<Rightarrow>
               (let (n, z, cf, v) =
                      (if is_d_reg r1
                       then f_compare 52 (get_f64 c idx1)
                              (case vec_idx (ops ! 1) of Some idx2 \<Rightarrow> get_f64 c idx2 | None \<Rightarrow> 0)
                       else f_compare 23 (get_f32 c idx1)
                              (case vec_idx (ops ! 1) of Some idx2 \<Rightarrow> get_f32 c idx2 | None \<Rightarrow> 0))
                in set_nzcv n z cf v c)))"

definition exec_FADD ::
  "fpu \<Rightarrow> fp_op \<Rightarrow> 'x operand list \<Rightarrow> cpu_context \<Rightarrow> cpu_context" where
  "exec_FADD F opc ops c =
     (if length ops < 3 then c
      else case (get_op_reg (ops ! 0), vec_idx (ops ! 0), vec_idx (ops ! 1), vec_idx (ops ! 2)) of
        (Some rd, Some idxd, Some idxn, Some idxm) \<Rightarrow>
          if is_d_reg rd then
            put_low idxd (to_le_bytes (f64_arith F opc (get_f64 c idxn) (get_f64 c idxm))) c
          else if is_s_reg rd then
            put_low idxd (to_le_bytes (f32_arith F opc (get_f32 c idxn) (get_f32 c idxm))) c
          else c
      | _ \<Rightarrow> c)"

definition exec_FCVTZ ::
  "fpu \<Rightarrow> 'x bad64 \<Rightarrow> fp_op \<Rightarrow> 'x operand list \<Rightarrow> cpu_context \<Rightarrow> cpu_context" where
  "exec_FCVTZ F D opc ops c =
     (if length ops < 2 then c
      else case (get_op_reg (ops ! 0), get_op_reg (ops ! 1), vec_idx (ops ! 1)) of
        (Some rd, Some rn, Some idxn) \<Rightarrow>
          (let val = (if is_d_reg rn then get_f64 c idxn else f32_to_f64 F (get_f32 c idxn))
           in set_reg_val D rd (if opc = FCVTZS then f64_to_i64 val else f64_to_u64 val) c)
      | _ \<Rightarrow> c)"

definition exec_SCVTF ::
  "fpu \<Rightarrow> 'x bad64 \<Rightarrow> fp_op \<Rightarrow> 'x operand list \<Rightarrow> cpu_context \<Rightarrow> cpu_context" where
  "exec_SCVTF F D opc ops c =
     (if length ops < 2 then c
      else case (get_op_reg (ops ! 0), get_op_reg (ops ! 1), vec_idx (ops ! 0)) of
        (Some rd, Some rn, Some idxd) \<Rightarrow>
          (let int_val = get_operand_val D (ops ! 1) c;
               i = (if opc = SCVTF then sint int_val else uint int_val)
           in if is_d_reg rd then put_low idxd (to_le_bytes (int_to_f64 F i)) c
              else if is_s_reg rd then put_low idxd (to_le_bytes (int_to_f32 F i)) c
              else c)
      | _ \<Rightarrow> c)"

definition exec_FNEG ::
  "fpu \<Rightarrow> fp_op \<Rightarrow> 'x operand list \<Rightarrow> cpu_context \<Rightarrow> cpu_context" where
  "exec_FNEG F opc ops c =
     (if length ops < 2 then c
      else case (get_op_reg (ops ! 0), vec_idx (ops ! 0), vec_idx (ops ! 1)) of
        (Some rd, Some idxd, Some idxn) \<Rightarrow>
          if is_d_reg rd then
            put_low idxd (to_le_bytes ((if opc = FNEG then f_neg else if opc = FABS then f_abs
                                        else f64_sqrt F) (get_f64 c idxn))) c
          else if is_s_reg rd then
            put_low idxd (to_le_bytes ((if opc = FNEG then f_neg else if opc = FABS then f_abs
                                        else f32_sqrt F) (get_f32 c idxn))) c
          else c
      | _ \<Rightarrow> c)"

definition exec_FCVT :: "fpu \<Rightarrow> 'x operand list \<Rightarrow> cpu_context \<Rightarrow> cpu_context" where
  "exec_FCVT F ops c =
     (if length ops < 2 then c
      else case (get_op_reg (ops ! 0), get_op_reg (ops ! 1), vec_pair ops) of
        (Some rd, Some rn, Some (idxd, idxn)) \<Rightarrow>
          if is_d_reg rd \<and> is_s_reg rn then
            put_low idxd (to_le_bytes (f32_to_f64 F (get_f32 c idxn))) c
          else if is_s_reg rd \<and> is_d_reg rn then
            put_low idxd (to_le_bytes (f64_to_f32 F (get_f64 c idxn))) c
          else c
      | _ \<Rightarrow> c)"

subsection \<open>Dispatch\<close>

fun exec_fp ::
  "fpu \<Rightarrow> 'x bad64 \<Rightarrow> fp_op \<Rightarrow> 'x operand list \<Rightarrow> cpu_context \<Rightarrow> cpu_context" where
  "exec_fp F D FMOV ops c = exec_FMOV D ops c"
| "exec_fp F D FCMP ops c = exec_FCMP ops c"
| "exec_fp F D FCMPE ops c = exec_FCMP ops c"
| "exec_fp F D FCVTZS ops c = exec_FCVTZ F D FCVTZS ops c"
| "exec_fp F D FCVTZU ops c = exec_FCVTZ F D FCVTZU ops c"
| "exec_fp F D SCVTF ops c = exec_SCVTF F D SCVTF ops c"
| "exec_fp F D UCVTF ops c = exec_SCVTF F D UCVTF ops c"
| "exec_fp F D FNEG ops c = exec_FNEG F FNEG ops c"
| "exec_fp F D FABS ops c = exec_FNEG F FABS ops c"
| "exec_fp F D FSQRT ops c = exec_FNEG F FSQRT ops c"
| "exec_fp F D FCVT ops c = exec_FCVT F ops c"
| "exec_fp F D opc ops c = exec_FADD F opc ops c"

end
