(* ===== verification/Interp_Arith.thy ===== *)
theory Interp_Arith
  imports Vec_Lanes
begin

text \<open>
  The integer arithmetic arms of \<open>Interpreter::step\<close>: addition and subtraction with their
  flags, moves of immediates, division, multiplication and the pc-relative addresses. A
  handler takes the operand list \<open>inst.operands()\<close> and changes the registers only; the
  length guards of the source come first, so that the indexing below them is in range.
\<close>

unbundle bit_operations_syntax

subsection \<open>Flags\<close>

text \<open>
  The NZCV computation of the additions and of the subtractions, which the source writes
  out at 32 and at 64 bits: the carry is the one \<open>overflowing_add\<close> reports, the negation
  of the borrow \<open>overflowing_sub\<close> reports, and the overflow looks at the sign bits.
\<close>

definition sign_mask :: "'a::len word" where
  "sign_mask = push_bit (LENGTH('a) - 1) 1"

definition add_flags :: "'a::len word \<Rightarrow> 'a word \<Rightarrow> cpu_context \<Rightarrow> cpu_context" where
  "add_flags v1 v2 c =
     (let (r, overflow) = overflowing_add v1 v2
      in set_nzcv (is_neg r) (r = 0) overflow
           ((v1 XOR NOT v2) AND (v1 XOR r) AND sign_mask \<noteq> 0) c)"

definition sub_flags :: "'a::len word \<Rightarrow> 'a word \<Rightarrow> cpu_context \<Rightarrow> cpu_context" where
  "sub_flags v1 v2 c =
     (let (r, borrow) = overflowing_sub v1 v2
      in set_nzcv (is_neg r) (r = 0) (\<not> borrow)
           ((v1 XOR v2) AND (v1 XOR r) AND sign_mask \<noteq> 0) c)"

text \<open>\<open>if is_32 { .. } else { .. }\<close> around the flags, on 64-bit operand values.\<close>

definition add_flags_sized :: "bool \<Rightarrow> u64 \<Rightarrow> u64 \<Rightarrow> cpu_context \<Rightarrow> cpu_context" where
  "add_flags_sized is_32 v1 v2 c =
     (if is_32 then add_flags (ucast v1 :: u32) (ucast v2) c else add_flags v1 v2 c)"

definition sub_flags_sized :: "bool \<Rightarrow> u64 \<Rightarrow> u64 \<Rightarrow> cpu_context \<Rightarrow> cpu_context" where
  "sub_flags_sized is_32 v1 v2 c =
     (if is_32 then sub_flags (ucast v1 :: u32) (ucast v2) c else sub_flags v1 v2 c)"

definition op_is_w :: "'x operand \<Rightarrow> bool" where
  "op_is_w op = (case get_op_reg op of Some r \<Rightarrow> is_w_reg r | None \<Rightarrow> False)"

subsection \<open>ADD, ADDS, CMN\<close>

definition vec_add :: "nat \<Rightarrow> bytes \<Rightarrow> bytes \<Rightarrow> bytes" where
  "vec_add elem_sz vec1 vec2 =
     by_elem elem_sz
       (build_vec (16 div elem_sz) (\<lambda>i. (lane vec1 i :: u8) + lane vec2 i))
       (build_vec (16 div elem_sz) (\<lambda>i. (lane vec1 i :: u16) + lane vec2 i))
       (build_vec (16 div elem_sz) (\<lambda>i. (lane vec1 i :: u32) + lane vec2 i))
       (build_vec (16 div elem_sz) (\<lambda>i. (lane vec1 i :: u64) + lane vec2 i))"

definition exec_ADD :: "'x bad64 \<Rightarrow> arith_op \<Rightarrow> 'x operand list \<Rightarrow> cpu_context \<Rightarrow> cpu_context" where
  "exec_ADD D opc ops c =
     (if length ops < 2 then c
      else case (if opc = CMN then None else get_op_reg (ops ! 0)) of
        Some reg \<Rightarrow>
          (case v_reg_idx reg of
             Some idx0 \<Rightarrow>
               (let n = length ops;
                    vec1 = vec_operand c (ops ! (if 3 \<le> n then n - 2 else 0));
                    vec2 = vec_operand c (ops ! (n - 1))
                in set_v_bytes idx0 (vec_add (get_vec_elem_size D (ops ! 0)) vec1 vec2) c)
           | None \<Rightarrow>
               (let (op1, op2) = (if 3 \<le> length ops then (ops ! 1, ops ! 2) else (ops ! 0, ops ! 1));
                    v1 = get_operand_val D op1 c;
                    v2 = get_operand_val D op2 c;
                    c' = set_reg_val D reg (v1 + v2) c
                in if opc = ADDS then add_flags_sized (op_is_w op1) v1 v2 c' else c'))
      | None \<Rightarrow>
          (if opc = CMN
           then add_flags_sized (op_is_w (ops ! 0))
                  (get_operand_val D (ops ! 0) c) (get_operand_val D (ops ! 1) c) c
           else c))"

subsection \<open>SUB, SUBS, CMP, NEG, NEGS\<close>

definition exec_SUB :: "'x bad64 \<Rightarrow> arith_op \<Rightarrow> 'x operand list \<Rightarrow> cpu_context \<Rightarrow> cpu_context" where
  "exec_SUB D opc ops c =
     (if length ops < 2 then c
      else let (target_reg, op1, op2) =
                 (if opc = CMP then (None, ops ! 0, ops ! 1)
                  else if 3 \<le> length ops then (get_op_reg (ops ! 0), ops ! 1, ops ! 2)
                  else (get_op_reg (ops ! 0), ops ! 0, ops ! 1));
               v1 = get_operand_val D op1 c;
               v2 = get_operand_val D op2 c;
               c' = (case target_reg of Some reg \<Rightarrow> set_reg_val D reg (v1 - v2) c | None \<Rightarrow> c)
           in if opc = SUBS \<or> opc = CMP then sub_flags_sized (op_is_w op1) v1 v2 c' else c')"

definition exec_NEG :: "'x bad64 \<Rightarrow> arith_op \<Rightarrow> 'x operand list \<Rightarrow> cpu_context \<Rightarrow> cpu_context" where
  "exec_NEG D opc ops c =
     (if length ops < 2 then c
      else case plain_reg (ops ! 0) of
        None \<Rightarrow> c
      | Some reg \<Rightarrow>
          (let v2 = get_operand_val D (ops ! 1) c;
               c' = set_reg_val D reg (0 - v2) c
           in if opc = NEGS then sub_flags_sized (is_w_reg reg) 0 v2 c' else c'))"

subsection \<open>Moves\<close>

definition vec_dup :: "nat \<Rightarrow> u64 \<Rightarrow> bytes" where
  "vec_dup elem_sz val =
     by_elem elem_sz
       (build_vec (16 div elem_sz) (\<lambda>i. ucast (val AND 0xff) :: u8))
       (build_vec (16 div elem_sz) (\<lambda>i. ucast (val AND 0xffff) :: u16))
       (build_vec (16 div elem_sz) (\<lambda>i. ucast (val AND 0xffffffff) :: u32))
       (build_vec (16 div elem_sz) (\<lambda>i. val))"

definition exec_MOV :: "'x bad64 \<Rightarrow> 'x operand list \<Rightarrow> cpu_context \<Rightarrow> cpu_context" where
  "exec_MOV D ops c =
     (if length ops < 2 then c
      else case get_op_reg (ops ! 0) of
        None \<Rightarrow> c
      | Some reg \<Rightarrow>
          (let val = get_operand_val D (ops ! 1) c
           in case v_reg_idx reg of
                Some idx \<Rightarrow> set_v_bytes idx (vec_dup (get_vec_elem_size D (ops ! 0)) val) c
              | None \<Rightarrow> set_reg_val D reg val c))"

definition exec_MOVK ::
  "bool \<Rightarrow> 'x bad64 \<Rightarrow> 'x operand list \<Rightarrow> cpu_context \<Rightarrow> cpu_context out" where
  "exec_MOVK oc D ops c =
     (if length ops < 2 then Val c
      else case plain_reg (ops ! 0) of
        None \<Rightarrow> Val c
      | Some reg \<Rightarrow>
          (let (raw_imm, shift_opt) =
                 (case operand_imm (ops ! 1) of
                    Some (imm, sh) \<Rightarrow> (imm_to_u64 imm, sh)
                  | None \<Rightarrow> (get_operand_val D (ops ! 1) c, None));
               imm = raw_imm AND 0xffff;
               s_val = unat (shift_val shift_opt);
               cur_val = get_reg_val D reg c
           in bindO (ck_shl oc 0xffff s_val) (\<lambda>m.
              bindO (ck_shl oc imm s_val) (\<lambda>sh.
              Val (set_reg_val D reg ((cur_val AND NOT m) OR sh) c)))))"

text \<open>
  MOVN and MOVZ take the immediate through \<open>get_operand_val\<close>, which has already applied
  the operand's shift, mask it to 16 bits and shift it again.
\<close>

definition mov_imm :: "'x bad64 \<Rightarrow> 'x operand \<Rightarrow> cpu_context \<Rightarrow> u64 \<times> nat" where
  "mov_imm D op c =
     (get_operand_val D op c AND 0xffff,
      unat (case operand_imm op of Some (imm, sh) \<Rightarrow> shift_val sh | None \<Rightarrow> 0))"

definition exec_MOVN ::
  "bool \<Rightarrow> 'x bad64 \<Rightarrow> 'x operand list \<Rightarrow> cpu_context \<Rightarrow> cpu_context out" where
  "exec_MOVN oc D ops c =
     (if length ops < 2 then Val c
      else case plain_reg (ops ! 0) of
        None \<Rightarrow> Val c
      | Some reg \<Rightarrow>
          (let (imm, s_val) = mov_imm D (ops ! 1) c
           in bindO (ck_shl oc imm s_val) (\<lambda>sh. Val (set_reg_val D reg (NOT sh) c))))"

definition exec_MOVZ ::
  "bool \<Rightarrow> 'x bad64 \<Rightarrow> 'x operand list \<Rightarrow> cpu_context \<Rightarrow> cpu_context out" where
  "exec_MOVZ oc D ops c =
     (if length ops < 2 then Val c
      else case plain_reg (ops ! 0) of
        None \<Rightarrow> Val c
      | Some reg \<Rightarrow>
          (let (imm, s_val) = mov_imm D (ops ! 1) c
           in bindO (ck_shl oc imm s_val) (\<lambda>sh. Val (set_reg_val D reg sh c))))"

subsection \<open>Division and multiplication\<close>

text \<open>\<open>x as u32 as u64\<close> when the destination is a W register.\<close>

definition trunc_w :: "bool \<Rightarrow> u64 \<Rightarrow> u64" where
  "trunc_w is_32 v = (if is_32 then ucast (ucast v :: u32) else v)"

text \<open>\<open>x as i32 as i64\<close> and \<open>x as u32 as u64\<close>.\<close>

definition sext32 :: "u64 \<Rightarrow> u64" where
  "sext32 v = scast (ucast v :: u32)"

definition zext32 :: "u64 \<Rightarrow> u64" where
  "zext32 v = ucast (ucast v :: u32)"

definition exec_UDIV :: "'x bad64 \<Rightarrow> 'x operand list \<Rightarrow> cpu_context \<Rightarrow> cpu_context" where
  "exec_UDIV D ops c =
     (if length ops < 3 then c
      else case plain_reg (ops ! 0) of
        None \<Rightarrow> c
      | Some reg \<Rightarrow>
          (let is_32 = is_w_reg reg;
               v1 = trunc_w is_32 (get_operand_val D (ops ! 1) c);
               v2 = trunc_w is_32 (get_operand_val D (ops ! 2) c)
           in set_reg_val D reg (if v2 = 0 then 0 else v1 div v2) c))"

definition exec_SDIV :: "'x bad64 \<Rightarrow> 'x operand list \<Rightarrow> cpu_context \<Rightarrow> cpu_context out" where
  "exec_SDIV D ops c =
     (if length ops < 3 then Val c
      else case plain_reg (ops ! 0) of
        None \<Rightarrow> Val c
      | Some reg \<Rightarrow>
          bindO
            (if is_w_reg reg then
               (let v1 = (ucast (get_operand_val D (ops ! 1) c) :: u32);
                    v2 = (ucast (get_operand_val D (ops ! 2) c) :: u32)
                in if v2 = 0 then Val 0 else bindO (ck_sdiv v1 v2) (\<lambda>q. Val (ucast q)))
             else
               (let v1 = get_operand_val D (ops ! 1) c;
                    v2 = get_operand_val D (ops ! 2) c
                in if v2 = 0 then Val 0 else ck_sdiv v1 v2))
            (\<lambda>res. Val (set_reg_val D reg res c)))"

definition exec_MUL :: "'x bad64 \<Rightarrow> 'x operand list \<Rightarrow> cpu_context \<Rightarrow> cpu_context" where
  "exec_MUL D ops c =
     (if length ops < 3 then c
      else case plain_reg (ops ! 0) of
        None \<Rightarrow> c
      | Some reg \<Rightarrow>
          set_reg_val D reg (get_operand_val D (ops ! 1) c * get_operand_val D (ops ! 2) c) c)"

text \<open>The 128-bit products of two 64-bit factors do not overflow their type.\<close>

definition exec_UMULH :: "'x bad64 \<Rightarrow> 'x operand list \<Rightarrow> cpu_context \<Rightarrow> cpu_context" where
  "exec_UMULH D ops c =
     (if length ops < 3 then c
      else case get_op_reg (ops ! 0) of
        None \<Rightarrow> c
      | Some rd \<Rightarrow>
          (let v1 = get_operand_val D (ops ! 1) c;
               v2 = get_operand_val D (ops ! 2) c;
               prod = (ucast v1 :: u128) * ucast v2
           in set_reg_val D rd (ucast (drop_bit 64 prod)) c))"

definition exec_SMULH :: "'x bad64 \<Rightarrow> 'x operand list \<Rightarrow> cpu_context \<Rightarrow> cpu_context" where
  "exec_SMULH D ops c =
     (if length ops < 3 then c
      else case get_op_reg (ops ! 0) of
        None \<Rightarrow> c
      | Some rd \<Rightarrow>
          (let v1 = get_operand_val D (ops ! 1) c;
               v2 = get_operand_val D (ops ! 2) c;
               prod = (scast v1 :: u128) * scast v2
           in set_reg_val D rd (ucast (signed_drop_bit 64 prod)) c))"

text \<open>MADD, MSUB and MNEG: the product is added to, or taken from, the addend.\<close>

definition exec_MADD :: "'x bad64 \<Rightarrow> 'x operand list \<Rightarrow> cpu_context \<Rightarrow> cpu_context" where
  "exec_MADD D ops c =
     (if length ops < 4 then c
      else case plain_reg (ops ! 0) of
        None \<Rightarrow> c
      | Some reg \<Rightarrow>
          (let is_32 = is_w_reg reg;
               v1 = trunc_w is_32 (get_operand_val D (ops ! 1) c);
               v2 = trunc_w is_32 (get_operand_val D (ops ! 2) c);
               v3 = trunc_w is_32 (get_operand_val D (ops ! 3) c)
           in set_reg_val D reg (v3 + v1 * v2) c))"

definition exec_MSUB :: "'x bad64 \<Rightarrow> 'x operand list \<Rightarrow> cpu_context \<Rightarrow> cpu_context" where
  "exec_MSUB D ops c =
     (if length ops < 4 then c
      else case plain_reg (ops ! 0) of
        None \<Rightarrow> c
      | Some reg \<Rightarrow>
          (let is_32 = is_w_reg reg;
               v1 = trunc_w is_32 (get_operand_val D (ops ! 1) c);
               v2 = trunc_w is_32 (get_operand_val D (ops ! 2) c);
               v3 = trunc_w is_32 (get_operand_val D (ops ! 3) c)
           in set_reg_val D reg (v3 - v1 * v2) c))"

definition exec_MNEG :: "'x bad64 \<Rightarrow> 'x operand list \<Rightarrow> cpu_context \<Rightarrow> cpu_context" where
  "exec_MNEG D ops c =
     (if length ops < 3 then c
      else case plain_reg (ops ! 0) of
        None \<Rightarrow> c
      | Some reg \<Rightarrow>
          (let is_32 = is_w_reg reg;
               v1 = trunc_w is_32 (get_operand_val D (ops ! 1) c);
               v2 = trunc_w is_32 (get_operand_val D (ops ! 2) c)
           in set_reg_val D reg (0 - v1 * v2) c))"

text \<open>The multiplications of 32-bit factors: \<open>ext\<close> is \<open>sext32\<close> or \<open>zext32\<close>.\<close>

definition exec_MULL ::
  "(u64 \<Rightarrow> u64) \<Rightarrow> 'x bad64 \<Rightarrow> 'x operand list \<Rightarrow> cpu_context \<Rightarrow> cpu_context" where
  "exec_MULL ext D ops c =
     (if length ops < 3 then c
      else case plain_reg (ops ! 0) of
        None \<Rightarrow> c
      | Some reg \<Rightarrow>
          set_reg_val D reg
            (ext (get_operand_val D (ops ! 1) c) * ext (get_operand_val D (ops ! 2) c)) c)"

text \<open>SMADDL, UMADDL, SMSUBL, UMSUBL: \<open>comb\<close> is the wrapping sum or difference.\<close>

definition exec_MADDL ::
  "(u64 \<Rightarrow> u64) \<Rightarrow> (u64 \<Rightarrow> u64 \<Rightarrow> u64) \<Rightarrow> 'x bad64 \<Rightarrow> 'x operand list \<Rightarrow> cpu_context \<Rightarrow> cpu_context"
  where
  "exec_MADDL ext comb D ops c =
     (if length ops < 4 then c
      else case get_op_reg (ops ! 0) of
        None \<Rightarrow> c
      | Some reg \<Rightarrow>
          (let v1 = ext (get_operand_val D (ops ! 1) c);
               v2 = ext (get_operand_val D (ops ! 2) c);
               v3 = get_operand_val D (ops ! 3) c
           in set_reg_val D reg (comb v3 (v1 * v2)) c))"

subsection \<open>Addresses\<close>

definition exec_ADRP :: "'x bad64 \<Rightarrow> 'x operand list \<Rightarrow> cpu_context \<Rightarrow> cpu_context" where
  "exec_ADRP D ops c =
     (if length ops < 2 then c
      else case plain_reg (ops ! 0) of
        None \<Rightarrow> c
      | Some reg \<Rightarrow> set_reg_val D reg (get_operand_val D (ops ! 1) c AND NOT 0xfff) c)"

definition exec_ADR :: "'x bad64 \<Rightarrow> 'x operand list \<Rightarrow> cpu_context \<Rightarrow> cpu_context" where
  "exec_ADR D ops c =
     (if length ops < 2 then c
      else case plain_reg (ops ! 0) of
        None \<Rightarrow> c
      | Some reg \<Rightarrow> set_reg_val D reg (get_operand_val D (ops ! 1) c) c)"

subsection \<open>Dispatch\<close>

fun exec_arith ::
  "bool \<Rightarrow> 'x bad64 \<Rightarrow> arith_op \<Rightarrow> 'x operand list \<Rightarrow> cpu_context \<Rightarrow> cpu_context out" where
  "exec_arith oc D ADD ops c = Val (exec_ADD D ADD ops c)"
| "exec_arith oc D ADDS ops c = Val (exec_ADD D ADDS ops c)"
| "exec_arith oc D CMN ops c = Val (exec_ADD D CMN ops c)"
| "exec_arith oc D SUB ops c = Val (exec_SUB D SUB ops c)"
| "exec_arith oc D SUBS ops c = Val (exec_SUB D SUBS ops c)"
| "exec_arith oc D CMP ops c = Val (exec_SUB D CMP ops c)"
| "exec_arith oc D NEG ops c = Val (exec_NEG D NEG ops c)"
| "exec_arith oc D NEGS ops c = Val (exec_NEG D NEGS ops c)"
| "exec_arith oc D MOV ops c = Val (exec_MOV D ops c)"
| "exec_arith oc D MOVI ops c = Val (exec_MOV D ops c)"
| "exec_arith oc D MOVK ops c = exec_MOVK oc D ops c"
| "exec_arith oc D MOVN ops c = exec_MOVN oc D ops c"
| "exec_arith oc D MOVZ ops c = exec_MOVZ oc D ops c"
| "exec_arith oc D UDIV ops c = Val (exec_UDIV D ops c)"
| "exec_arith oc D SDIV ops c = exec_SDIV D ops c"
| "exec_arith oc D MUL ops c = Val (exec_MUL D ops c)"
| "exec_arith oc D UMULH ops c = Val (exec_UMULH D ops c)"
| "exec_arith oc D SMULH ops c = Val (exec_SMULH D ops c)"
| "exec_arith oc D MADD ops c = Val (exec_MADD D ops c)"
| "exec_arith oc D MSUB ops c = Val (exec_MSUB D ops c)"
| "exec_arith oc D MNEG ops c = Val (exec_MNEG D ops c)"
| "exec_arith oc D SMULL ops c = Val (exec_MULL sext32 D ops c)"
| "exec_arith oc D UMULL ops c = Val (exec_MULL zext32 D ops c)"
| "exec_arith oc D SMADDL ops c = Val (exec_MADDL sext32 (+) D ops c)"
| "exec_arith oc D UMADDL ops c = Val (exec_MADDL zext32 (+) D ops c)"
| "exec_arith oc D SMSUBL ops c = Val (exec_MADDL sext32 (-) D ops c)"
| "exec_arith oc D UMSUBL ops c = Val (exec_MADDL zext32 (-) D ops c)"
| "exec_arith oc D ADRP ops c = Val (exec_ADRP D ops c)"
| "exec_arith oc D ADR ops c = Val (exec_ADR D ops c)"

end
