(* ===== verification/Interp_Logic.thy ===== *)
theory Interp_Logic
  imports Interp_Arith
begin

text \<open>
  Conditional selection and comparison, system registers, the bitwise operations on
  general-purpose and vector registers, and byte and bit reversal, as the arms of
  \<open>Interpreter::step\<close> write them.
\<close>

unbundle bit_operations_syntax

subsection \<open>Conditional select and compare\<close>

fun operand_cond :: "'x operand \<Rightarrow> 'x option" where
  "operand_cond (O_Cond x) = Some x"
| "operand_cond _ = None"

text \<open>\<open>-(v as i64)\<close>: overflows on the least value.\<close>

fun select_val :: "bool \<Rightarrow> cond_op \<Rightarrow> u64 \<Rightarrow> u64 out" where
  "select_val oc CSINC v = Val (v + 1)"
| "select_val oc CINC v = Val (v + 1)"
| "select_val oc CSINV v = Val (NOT v)"
| "select_val oc CINV v = Val (NOT v)"
| "select_val oc CSNEG v = ck_neg oc v"
| "select_val oc CNEG v = ck_neg oc v"
| "select_val oc _ v = Val v"

definition exec_CSEL ::
  "bool \<Rightarrow> 'x bad64 \<Rightarrow> cond_op \<Rightarrow> 'x operand list \<Rightarrow> cpu_context \<Rightarrow> cpu_context out" where
  "exec_CSEL oc D opc ops c =
     (if length ops < 4 then Val c
      else case (get_op_reg (ops ! 0), operand_cond (ops ! 3)) of
        (Some rd, Some cond) \<Rightarrow>
          (let v1 = get_operand_val D (ops ! 1) c;
               v2 = get_operand_val D (ops ! 2) c
           in bindO (if eval_cond D cond c then Val v1 else select_val oc opc v2)
                (\<lambda>res. Val (set_reg_val D rd res c)))
      | _ \<Rightarrow> Val c)"

definition exec_CINC ::
  "bool \<Rightarrow> 'x bad64 \<Rightarrow> cond_op \<Rightarrow> 'x operand list \<Rightarrow> cpu_context \<Rightarrow> cpu_context out" where
  "exec_CINC oc D opc ops c =
     (if length ops < 3 then Val c
      else case (get_op_reg (ops ! 0), operand_cond (ops ! 2)) of
        (Some rd, Some cond) \<Rightarrow>
          (let vn = get_operand_val D (ops ! 1) c
           in bindO (if eval_cond D cond c then select_val oc opc vn else Val vn)
                (\<lambda>res. Val (set_reg_val D rd res c)))
      | _ \<Rightarrow> Val c)"

definition exec_CSET :: "'x bad64 \<Rightarrow> cond_op \<Rightarrow> 'x operand list \<Rightarrow> cpu_context \<Rightarrow> cpu_context" where
  "exec_CSET D opc ops c =
     (if length ops < 2 then c
      else case (get_op_reg (ops ! 0), operand_cond (ops ! 1)) of
        (Some rd, Some cond) \<Rightarrow>
          set_reg_val D rd
            (if eval_cond D cond c then (if opc = CSETM then NOT 0 else 1) else 0) c
      | _ \<Rightarrow> c)"

definition exec_CCMP :: "'x bad64 \<Rightarrow> cond_op \<Rightarrow> 'x operand list \<Rightarrow> cpu_context \<Rightarrow> cpu_context" where
  "exec_CCMP D opc ops c =
     (if length ops < 4 then c
      else case operand_cond (ops ! 3) of
        None \<Rightarrow> c
      | Some cond \<Rightarrow>
          if eval_cond D cond c then
            (let v1 = get_operand_val D (ops ! 0) c;
                 v2 = get_operand_val D (ops ! 1) c;
                 is_32 = op_is_w (ops ! 0)
             in if opc = CCMN then add_flags_sized is_32 v1 v2 c
                else sub_flags_sized is_32 v1 v2 c)
          else
            (let nzcv_imm = (ucast (get_operand_val D (ops ! 2) c) :: u8)
             in set_nzcv (nzcv_imm AND 8 \<noteq> 0) (nzcv_imm AND 4 \<noteq> 0) (nzcv_imm AND 2 \<noteq> 0)
                  (nzcv_imm AND 1 \<noteq> 0) c))"

subsection \<open>System registers\<close>

definition sysreg_is_tpidr :: "string \<Rightarrow> bool" where
  "sysreg_is_tpidr s \<longleftrightarrow> contains s ''TPIDR_EL0'' \<or> contains s ''tpidr_el0''"

definition exec_MRS :: "'x bad64 \<Rightarrow> 'x operand list \<Rightarrow> cpu_context \<Rightarrow> cpu_context" where
  "exec_MRS D ops c =
     (if length ops < 2 then c
      else let s = fmt_operand D (ops ! 1);
               val = (if sysreg_is_tpidr s then ctx_tpidr_el0 c
                      else if contains s ''DCZID'' \<or> contains s ''dczid'' then 0x10
                      else if contains s ''CNT'' then 1000000000
                      else 0)
           in case get_op_reg (ops ! 0) of Some reg \<Rightarrow> set_reg_val D reg val c | None \<Rightarrow> c)"

definition exec_MSR :: "'x bad64 \<Rightarrow> 'x operand list \<Rightarrow> cpu_context \<Rightarrow> cpu_context" where
  "exec_MSR D ops c =
     (if length ops < 2 then c
      else let s = fmt_operand D (ops ! 0);
               val = get_operand_val D (ops ! 1) c
           in if sysreg_is_tpidr s then c\<lparr>ctx_tpidr_el0 := val\<rparr> else c)"

subsection \<open>Bitwise operations\<close>

text \<open>\<open>for i in 0..16 { res[i] = f(vec1[i], vec2[i]) }\<close>.\<close>

definition vec_bytewise :: "(u8 \<Rightarrow> u8 \<Rightarrow> u8) \<Rightarrow> bytes \<Rightarrow> bytes \<Rightarrow> bytes" where
  "vec_bytewise f vec1 vec2 = map (\<lambda>i. f (vec1 ! i) (vec2 ! i)) [0..<16]"

definition vec_operand2 :: "cpu_context \<Rightarrow> 'x operand list \<Rightarrow> bytes" where
  "vec_operand2 c ops = (if 3 \<le> length ops then vec_operand c (ops ! 2) else replicate 16 0)"

text \<open>The operands of a two- or three-operand bitwise instruction.\<close>

definition bitwise_vals :: "'x bad64 \<Rightarrow> 'x operand list \<Rightarrow> cpu_context \<Rightarrow> u64 \<times> u64" where
  "bitwise_vals D ops c =
     (if 3 \<le> length ops then (get_operand_val D (ops ! 1) c, get_operand_val D (ops ! 2) c)
      else (get_operand_val D (ops ! 0) c, get_operand_val D (ops ! 1) c))"

definition exec_ORR :: "'x bad64 \<Rightarrow> logic_op \<Rightarrow> 'x operand list \<Rightarrow> cpu_context \<Rightarrow> cpu_context" where
  "exec_ORR D opc ops c =
     (if length ops < 2 then c
      else case get_op_reg (ops ! 0) of
        None \<Rightarrow> c
      | Some reg \<Rightarrow>
          (case v_reg_idx reg of
             Some idx0 \<Rightarrow>
               set_v_bytes idx0
                 (vec_bytewise (if opc = ORN then (\<lambda>a b. a OR NOT b) else (\<lambda>a b. a OR b))
                    (vec_operand c (ops ! 1)) (vec_operand2 c ops)) c
           | None \<Rightarrow>
               (let (v1, v2) = bitwise_vals D ops c
                in set_reg_val D reg (if opc = ORN then v1 OR NOT v2 else v1 OR v2) c)))"

definition exec_EOR :: "'x bad64 \<Rightarrow> logic_op \<Rightarrow> 'x operand list \<Rightarrow> cpu_context \<Rightarrow> cpu_context" where
  "exec_EOR D opc ops c =
     (if length ops < 2 then c
      else case get_op_reg (ops ! 0) of
        None \<Rightarrow> c
      | Some reg \<Rightarrow>
          (case v_reg_idx reg of
             Some idx0 \<Rightarrow>
               set_v_bytes idx0
                 (vec_bytewise (if opc = EON then (\<lambda>a b. a XOR NOT b) else (\<lambda>a b. a XOR b))
                    (vec_operand c (ops ! 1)) (vec_operand2 c ops)) c
           | None \<Rightarrow>
               (let (v1, v2) = bitwise_vals D ops c
                in set_reg_val D reg (if opc = EON then v1 XOR NOT v2 else v1 XOR v2) c)))"

text \<open>Flags of a logical result: N and Z at the operand size, C and V cleared.\<close>

definition logic_flags_sized :: "bool \<Rightarrow> u64 \<Rightarrow> cpu_context \<Rightarrow> cpu_context" where
  "logic_flags_sized is_32 res c =
     (if is_32 then (let r32 = (ucast res :: u32) in set_nzcv (is_neg r32) (r32 = 0) False False c)
      else set_nzcv (is_neg res) (res = 0) False False c)"

definition exec_AND :: "'x bad64 \<Rightarrow> logic_op \<Rightarrow> 'x operand list \<Rightarrow> cpu_context \<Rightarrow> cpu_context" where
  "exec_AND D opc ops c =
     (if length ops < 2 then c
      else case get_op_reg (ops ! 0) of
        None \<Rightarrow> c
      | Some reg \<Rightarrow>
          (case v_reg_idx reg of
             Some idx0 \<Rightarrow>
               set_v_bytes idx0
                 (vec_bytewise (AND) (vec_operand c (ops ! 1)) (vec_operand2 c ops)) c
           | None \<Rightarrow>
               (let (op1, op2) =
                      (if opc = TST then (ops ! 0, ops ! 1)
                       else if 3 \<le> length ops then (ops ! 1, ops ! 2)
                       else (ops ! 0, ops ! 1));
                    res = get_operand_val D op1 c AND get_operand_val D op2 c;
                    c' = (if opc \<noteq> TST then set_reg_val D reg res c else c)
                in if opc = ANDS \<or> opc = TST then logic_flags_sized (op_is_w op1) res c' else c')))"

definition exec_BIC :: "'x bad64 \<Rightarrow> logic_op \<Rightarrow> 'x operand list \<Rightarrow> cpu_context \<Rightarrow> cpu_context" where
  "exec_BIC D opc ops c =
     (if length ops < 3 then c
      else case plain_reg (ops ! 0) of
        None \<Rightarrow> c
      | Some reg \<Rightarrow>
          (let res = get_operand_val D (ops ! 1) c AND NOT (get_operand_val D (ops ! 2) c);
               c' = set_reg_val D reg res c
           in if opc = BICS then logic_flags_sized (is_w_reg reg) res c' else c'))"

definition exec_MVN :: "'x bad64 \<Rightarrow> 'x operand list \<Rightarrow> cpu_context \<Rightarrow> cpu_context" where
  "exec_MVN D ops c =
     (if length ops < 2 then c
      else case plain_reg (ops ! 0) of
        None \<Rightarrow> c
      | Some reg \<Rightarrow> set_reg_val D reg (NOT (get_operand_val D (ops ! 1) c)) c)"

subsection \<open>Reversals, leading zeros, extensions\<close>

definition exec_REV :: "'x bad64 \<Rightarrow> 'x operand list \<Rightarrow> cpu_context \<Rightarrow> cpu_context" where
  "exec_REV D ops c =
     (if length ops < 2 then c
      else case plain_reg (ops ! 0) of
        None \<Rightarrow> c
      | Some reg \<Rightarrow>
          (let val = get_operand_val D (ops ! 1) c
           in set_reg_val D reg
                (if is_w_reg reg then ucast (swap_bytes (ucast val :: u32)) else swap_bytes val) c))"

definition exec_CLZ :: "'x bad64 \<Rightarrow> 'x operand list \<Rightarrow> cpu_context \<Rightarrow> cpu_context" where
  "exec_CLZ D ops c =
     (if length ops < 2 then c
      else case get_op_reg (ops ! 0) of
        None \<Rightarrow> c
      | Some reg \<Rightarrow>
          (let val = get_operand_val D (ops ! 1) c
           in set_reg_val D reg
                (of_nat (if is_w_reg reg then leading_zeros (ucast val :: u32)
                         else leading_zeros val)) c))"

definition exec_RBIT :: "'x bad64 \<Rightarrow> 'x operand list \<Rightarrow> cpu_context \<Rightarrow> cpu_context" where
  "exec_RBIT D ops c =
     (if length ops < 2 then c
      else case get_op_reg (ops ! 0) of
        None \<Rightarrow> c
      | Some reg \<Rightarrow>
          (case v_reg_idx reg of
             Some idx0 \<Rightarrow>
               (let vec1 = vec_operand c (ops ! 1)
                in set_v_bytes idx0 (map (\<lambda>i. reverse_bits (vec1 ! i)) [0..<16]) c)
           | None \<Rightarrow>
               (let val = get_operand_val D (ops ! 1) c
                in set_reg_val D reg
                     (if is_w_reg reg then ucast (reverse_bits (ucast val :: u32))
                      else reverse_bits val) c)))"

text \<open>The byte order inside every chunk of \<open>sz\<close> bytes is reversed.\<close>

definition rev_chunks :: "nat \<Rightarrow> bytes \<Rightarrow> bytes" where
  "rev_chunks sz v = map (\<lambda>j. v ! (j div sz * sz + (sz - 1 - j mod sz))) [0..<16]"

definition rev_scalar :: "logic_op \<Rightarrow> u64 \<Rightarrow> u64" where
  "rev_scalar opc val =
     (if opc = REV16 then
        drop_bit 8 (val AND 0xff00ff00ff00ff00) OR push_bit 8 (val AND 0x00ff00ff00ff00ff)
      else if opc = REV32 then
        (let hi = (ucast (swap_bytes (ucast (drop_bit 32 val) :: u32)) :: u64);
             lo = (ucast (swap_bytes (ucast val :: u32)) :: u64)
         in push_bit 32 hi OR lo)
      else swap_bytes val)"

definition exec_REVn :: "'x bad64 \<Rightarrow> logic_op \<Rightarrow> 'x operand list \<Rightarrow> cpu_context \<Rightarrow> cpu_context" where
  "exec_REVn D opc ops c =
     (if length ops < 2 then c
      else case plain_reg (ops ! 0) of
        None \<Rightarrow> c
      | Some reg \<Rightarrow>
          (case v_reg_idx reg of
             Some idx0 \<Rightarrow>
               (let vec1 = (case Option.bind (plain_reg (ops ! 1)) v_reg_idx of
                              Some idx1 \<Rightarrow> ctx_v c ! idx1 | None \<Rightarrow> replicate 16 0);
                    sz = (if opc = REV16 then 2 else if opc = REV32 then 4 else 8)
                in set_v_bytes idx0 (rev_chunks sz vec1) c)
           | None \<Rightarrow> set_reg_val D reg (rev_scalar opc (get_operand_val D (ops ! 1) c)) c))"

text \<open>SXTW, SXTH, SXTB, UXTW, UXTH, UXTB: the truncation and extension of the operand.\<close>

fun extend_val :: "logic_op \<Rightarrow> u64 \<Rightarrow> u64" where
  "extend_val SXTW v = scast (ucast v :: u32)"
| "extend_val SXTH v = scast (ucast v :: u16)"
| "extend_val SXTB v = scast (ucast v :: u8)"
| "extend_val UXTW v = ucast (ucast v :: u32)"
| "extend_val UXTH v = ucast (ucast v :: u16)"
| "extend_val UXTB v = ucast (ucast v :: u8)"
| "extend_val _ v = v"

definition exec_XT :: "'x bad64 \<Rightarrow> logic_op \<Rightarrow> 'x operand list \<Rightarrow> cpu_context \<Rightarrow> cpu_context" where
  "exec_XT D opc ops c =
     (if length ops < 2 then c
      else case get_op_reg (ops ! 0) of
        None \<Rightarrow> c
      | Some reg \<Rightarrow> set_reg_val D reg (extend_val opc (get_operand_val D (ops ! 1) c)) c)"

end
