(* ===== verification/Interp_Bitfield.thy ===== *)
theory Interp_Bitfield
  imports Interp_Logic
begin

text \<open>
  Bit-field moves, shifts and rotates of \<open>Interpreter::step\<close>. The value an instruction
  computes is a function of its own, below the handler that fetches the operands.
\<close>

unbundle bit_operations_syntax

text \<open>\<open>if width >= n { !0 } else { (1 << width) - 1 }\<close>.\<close>

definition width_mask :: "nat \<Rightarrow> nat \<Rightarrow> u64" where
  "width_mask n width = (if n \<le> width then NOT 0 else push_bit width 1 - 1)"

definition reg_bits :: "reg \<Rightarrow> nat" where
  "reg_bits reg = (if is_w_reg reg then 32 else 64)"

text \<open>\<open>set_reg_val(reg, (val as u32) as u64, ctx)\<close> for a W register.\<close>

definition set_reg_trunc :: "'x bad64 \<Rightarrow> reg \<Rightarrow> u64 \<Rightarrow> cpu_context \<Rightarrow> cpu_context" where
  "set_reg_trunc D reg val c = set_reg_val D reg (trunc_w (is_w_reg reg) val) c"

text \<open>A handler over four operands whose value needs the three source operands.\<close>

definition exec4 ::
  "'x bad64 \<Rightarrow> 'x operand list \<Rightarrow> (reg \<Rightarrow> u64 \<Rightarrow> u64 \<Rightarrow> u64 \<Rightarrow> u64) \<Rightarrow> cpu_context \<Rightarrow> cpu_context"
  where
  "exec4 D ops f c =
     (if length ops < 4 then c
      else case get_op_reg (ops ! 0) of
        None \<Rightarrow> c
      | Some reg \<Rightarrow>
          set_reg_trunc D reg
            (f reg (get_operand_val D (ops ! 1) c) (get_operand_val D (ops ! 2) c)
               (get_operand_val D (ops ! 3) c)) c)"

subsection \<open>UBFIZ, SBFIZ\<close>

definition bfiz_fields :: "bool \<Rightarrow> nat \<Rightarrow> u64 \<Rightarrow> u64 \<Rightarrow> (nat \<times> nat) out" where
  "bfiz_fields oc n_bits arg2 arg3 =
     bindO (ck_add oc arg2 arg3) (\<lambda>s.
       if unat s < n_bits then Val (unat arg2, unat arg3)
       else (let immr = unat arg2 mod n_bits;
                 imms = unat arg3 mod n_bits
             in Val ((n_bits - immr) mod n_bits, imms + 1)))"

definition bfiz_negative :: "bool \<Rightarrow> logic_op \<Rightarrow> u64 \<Rightarrow> nat \<Rightarrow> bool out" where
  "bfiz_negative oc opc truncated width =
     (if opc = SBFIZ \<and> 0 < width
      then bindO (ck_shl oc 1 (width - 1)) (\<lambda>top. Val (truncated AND top \<noteq> 0))
      else Val False)"

definition bfiz_val :: "bool \<Rightarrow> logic_op \<Rightarrow> u64 \<Rightarrow> nat \<Rightarrow> nat \<Rightarrow> u64 out" where
  "bfiz_val oc opc val lsb width =
     (let mask = width_mask 64 width;
          truncated = val AND mask
      in bindO (bfiz_negative oc opc truncated width) (\<lambda>negative.
           if negative
           then bindO (ck_shl oc (NOT 0) width) (\<lambda>sign_ext. ck_shl oc (truncated OR sign_ext) lsb)
           else ck_shl oc truncated lsb))"

definition exec_BFIZ ::
  "bool \<Rightarrow> 'x bad64 \<Rightarrow> logic_op \<Rightarrow> 'x operand list \<Rightarrow> cpu_context \<Rightarrow> cpu_context out" where
  "exec_BFIZ oc D opc ops c =
     (if length ops < 4 then Val c
      else case plain_reg (ops ! 0) of
        None \<Rightarrow> Val c
      | Some reg \<Rightarrow>
          bindO (bfiz_fields oc (reg_bits reg) (get_operand_val D (ops ! 2) c)
                   (get_operand_val D (ops ! 3) c)) (\<lambda>(lsb, width).
          bindO (bfiz_val oc opc (get_operand_val D (ops ! 1) c) lsb width)
            (\<lambda>res. Val (set_reg_val D reg res c))))"

subsection \<open>UBFX, SBFX, UBFM, SBFM\<close>

definition ubfx_val :: "reg \<Rightarrow> u64 \<Rightarrow> u64 \<Rightarrow> u64 \<Rightarrow> u64" where
  "ubfx_val reg v1 a b =
     (let lsb = unat (a AND 63) mod reg_bits reg;
          width = unat (b AND 63)
      in drop_bit lsb v1 AND width_mask (reg_bits reg) width)"

definition sbfx_val :: "reg \<Rightarrow> u64 \<Rightarrow> u64 \<Rightarrow> u64 \<Rightarrow> u64" where
  "sbfx_val reg v1 a b =
     (let lsb = unat (a AND 63) mod reg_bits reg;
          width = unat (b AND 63);
          mask = width_mask (reg_bits reg) width;
          raw = drop_bit lsb v1 AND mask
      in if 0 < width \<and> raw AND push_bit (width - 1) 1 \<noteq> 0 then raw OR NOT mask else raw)"

definition ubfm_val :: "reg \<Rightarrow> u64 \<Rightarrow> u64 \<Rightarrow> u64 \<Rightarrow> u64" where
  "ubfm_val reg v1 a b =
     (let n_bits = reg_bits reg;
          immr = unat a mod n_bits;
          imms = unat b mod n_bits
      in if immr \<le> imms
         then drop_bit immr v1 AND width_mask n_bits (imms - immr + 1)
         else push_bit (n_bits - immr) (v1 AND width_mask n_bits (imms + 1)))"

definition sbfm_val :: "reg \<Rightarrow> u64 \<Rightarrow> u64 \<Rightarrow> u64 \<Rightarrow> u64" where
  "sbfm_val reg v1 a b =
     (let n_bits = reg_bits reg;
          immr = unat a mod n_bits;
          imms = unat b mod n_bits
      in if immr \<le> imms
         then (let width = imms - immr + 1;
                   mask = width_mask n_bits width;
                   raw = drop_bit immr v1 AND mask
               in if raw AND push_bit (width - 1) 1 \<noteq> 0 then raw OR NOT mask else raw)
         else push_bit (n_bits - immr) (v1 AND width_mask n_bits (imms + 1)))"

subsection \<open>BFM, BFI, BFXIL, LSL with four operands\<close>

definition rotated :: "reg \<Rightarrow> u64 \<Rightarrow> u64 \<Rightarrow> u64" where
  "rotated reg v1 a =
     (if is_w_reg reg then ucast (rotate_right (ucast v1 :: u32) (ucast (a AND 31)))
      else rotate_right v1 (ucast (a AND 63)))"

definition bfm_mask :: "reg \<Rightarrow> u64 \<Rightarrow> u64" where
  "bfm_mask reg b =
     (let imms = unat (b AND (if is_w_reg reg then 31 else 63))
      in if 63 \<le> imms then NOT 0 else push_bit (imms + 1) 1 - 1)"

definition bfm_val :: "u64 \<Rightarrow> reg \<Rightarrow> u64 \<Rightarrow> u64 \<Rightarrow> u64 \<Rightarrow> u64" where
  "bfm_val orig_dst reg v1 a b =
     (orig_dst AND NOT (bfm_mask reg b)) OR (rotated reg v1 a AND bfm_mask reg b)"

definition exec_BFM :: "'x bad64 \<Rightarrow> 'x operand list \<Rightarrow> cpu_context \<Rightarrow> cpu_context" where
  "exec_BFM D ops c = exec4 D ops (\<lambda>reg. bfm_val (get_reg_val D reg c) reg) c"

subsection \<open>Shifts, rotates, EXTR\<close>

text \<open>The shift amount is masked to the register size before the shift.\<close>

definition shift_amount :: "reg \<Rightarrow> u64 \<Rightarrow> u32" where
  "shift_amount reg a = ucast a AND (if is_w_reg reg then 31 else 63)"

text \<open>\<open>op\<close> on the value as \<open>u32\<close> for a W register, on the whole value otherwise.\<close>

definition sized_shift ::
  "(u32 \<Rightarrow> u32 \<Rightarrow> u32) \<Rightarrow> (u64 \<Rightarrow> u32 \<Rightarrow> u64) \<Rightarrow> reg \<Rightarrow> u64 \<Rightarrow> u64 \<Rightarrow> u64" where
  "sized_shift op32 op64 reg v1 a =
     (if is_w_reg reg then ucast (op32 (ucast v1) (shift_amount reg a))
      else op64 v1 (shift_amount reg a))"

definition exec3 ::
  "'x bad64 \<Rightarrow> 'x operand list \<Rightarrow> (reg \<Rightarrow> u64 \<Rightarrow> u64 \<Rightarrow> u64) \<Rightarrow> cpu_context \<Rightarrow> cpu_context" where
  "exec3 D ops f c =
     (if length ops < 3 then c
      else case get_op_reg (ops ! 0) of
        None \<Rightarrow> c
      | Some reg \<Rightarrow>
          set_reg_val D reg
            (f reg (get_operand_val D (ops ! 1) c) (get_operand_val D (ops ! 2) c)) c)"

definition exec_LSL :: "'x bad64 \<Rightarrow> 'x operand list \<Rightarrow> cpu_context \<Rightarrow> cpu_context" where
  "exec_LSL D ops c =
     (if 4 \<le> length ops then exec4 D ops (\<lambda>reg v1 a b. rotated reg v1 a AND bfm_mask reg b) c
      else exec3 D ops (sized_shift wrapping_shl wrapping_shl) c)"

definition exec_LSR :: "'x bad64 \<Rightarrow> 'x operand list \<Rightarrow> cpu_context \<Rightarrow> cpu_context" where
  "exec_LSR D ops c = exec3 D ops (sized_shift wrapping_shr wrapping_shr) c"

definition exec_ASR :: "'x bad64 \<Rightarrow> 'x operand list \<Rightarrow> cpu_context \<Rightarrow> cpu_context" where
  "exec_ASR D ops c = exec3 D ops (sized_shift wrapping_sar wrapping_sar) c"

definition exec_ROR :: "'x bad64 \<Rightarrow> 'x operand list \<Rightarrow> cpu_context \<Rightarrow> cpu_context" where
  "exec_ROR D ops c = exec3 D ops (sized_shift rotate_right rotate_right) c"

text \<open>EXTR shifts the concatenation by the unmasked amount.\<close>

definition extr_val :: "bool \<Rightarrow> reg \<Rightarrow> u64 \<Rightarrow> u64 \<Rightarrow> u32 \<Rightarrow> u64 out" where
  "extr_val oc reg vn vm lsb =
     (if is_w_reg reg then
        (let concat = push_bit 32 (zext32 vn) OR zext32 vm
         in bindO (ck_shr oc concat (unat lsb)) (\<lambda>r. Val (zext32 r)))
      else
        (let concat = (push_bit 64 (ucast vn) OR ucast vm :: u128)
         in bindO (ck_shr oc concat (unat lsb)) (\<lambda>r. Val (ucast r))))"

definition exec_EXTR ::
  "bool \<Rightarrow> 'x bad64 \<Rightarrow> 'x operand list \<Rightarrow> cpu_context \<Rightarrow> cpu_context out" where
  "exec_EXTR oc D ops c =
     (if length ops < 4 then Val c
      else case get_op_reg (ops ! 0) of
        None \<Rightarrow> Val c
      | Some reg \<Rightarrow>
          bindO (extr_val oc reg (get_operand_val D (ops ! 1) c) (get_operand_val D (ops ! 2) c)
                   (ucast (get_operand_val D (ops ! 3) c)))
            (\<lambda>res. Val (set_reg_val D reg res c)))"

subsection \<open>Dispatch of the logic, shift and bit-field operations\<close>

fun exec_logic ::
  "bool \<Rightarrow> 'x bad64 \<Rightarrow> logic_op \<Rightarrow> 'x operand list \<Rightarrow> cpu_context \<Rightarrow> cpu_context out" where
  "exec_logic oc D ORR ops c = Val (exec_ORR D ORR ops c)"
| "exec_logic oc D ORN ops c = Val (exec_ORR D ORN ops c)"
| "exec_logic oc D EOR ops c = Val (exec_EOR D EOR ops c)"
| "exec_logic oc D EON ops c = Val (exec_EOR D EON ops c)"
| "exec_logic oc D AND_op ops c = Val (exec_AND D AND_op ops c)"
| "exec_logic oc D ANDS ops c = Val (exec_AND D ANDS ops c)"
| "exec_logic oc D TST ops c = Val (exec_AND D TST ops c)"
| "exec_logic oc D BIC ops c = Val (exec_BIC D BIC ops c)"
| "exec_logic oc D BICS ops c = Val (exec_BIC D BICS ops c)"
| "exec_logic oc D MVN ops c = Val (exec_MVN D ops c)"
| "exec_logic oc D REV ops c = Val (exec_REV D ops c)"
| "exec_logic oc D CLZ ops c = Val (exec_CLZ D ops c)"
| "exec_logic oc D RBIT ops c = Val (exec_RBIT D ops c)"
| "exec_logic oc D REV16 ops c = Val (exec_REVn D REV16 ops c)"
| "exec_logic oc D REV32 ops c = Val (exec_REVn D REV32 ops c)"
| "exec_logic oc D REV64 ops c = Val (exec_REVn D REV64 ops c)"
| "exec_logic oc D SXTW ops c = Val (exec_XT D SXTW ops c)"
| "exec_logic oc D SXTH ops c = Val (exec_XT D SXTH ops c)"
| "exec_logic oc D SXTB ops c = Val (exec_XT D SXTB ops c)"
| "exec_logic oc D UXTW ops c = Val (exec_XT D UXTW ops c)"
| "exec_logic oc D UXTH ops c = Val (exec_XT D UXTH ops c)"
| "exec_logic oc D UXTB ops c = Val (exec_XT D UXTB ops c)"
| "exec_logic oc D SBFIZ ops c = exec_BFIZ oc D SBFIZ ops c"
| "exec_logic oc D UBFIZ ops c = exec_BFIZ oc D UBFIZ ops c"
| "exec_logic oc D UBFX ops c = Val (exec4 D ops ubfx_val c)"
| "exec_logic oc D SBFX ops c = Val (exec4 D ops sbfx_val c)"
| "exec_logic oc D UBFM ops c = Val (exec4 D ops ubfm_val c)"
| "exec_logic oc D SBFM ops c = Val (exec4 D ops sbfm_val c)"
| "exec_logic oc D BFM ops c = Val (exec_BFM D ops c)"
| "exec_logic oc D BFI ops c = Val (exec_BFM D ops c)"
| "exec_logic oc D BFXIL ops c = Val (exec_BFM D ops c)"
| "exec_logic oc D LSL ops c = Val (exec_LSL D ops c)"
| "exec_logic oc D LSR ops c = Val (exec_LSR D ops c)"
| "exec_logic oc D ASR ops c = Val (exec_ASR D ops c)"
| "exec_logic oc D ROR ops c = Val (exec_ROR D ops c)"
| "exec_logic oc D EXTR ops c = exec_EXTR oc D ops c"

fun exec_cond ::
  "bool \<Rightarrow> 'x bad64 \<Rightarrow> cond_op \<Rightarrow> 'x operand list \<Rightarrow> cpu_context \<Rightarrow> cpu_context out" where
  "exec_cond oc D CSEL ops c = exec_CSEL oc D CSEL ops c"
| "exec_cond oc D CSINC ops c = exec_CSEL oc D CSINC ops c"
| "exec_cond oc D CSINV ops c = exec_CSEL oc D CSINV ops c"
| "exec_cond oc D CSNEG ops c = exec_CSEL oc D CSNEG ops c"
| "exec_cond oc D CINC ops c = exec_CINC oc D CINC ops c"
| "exec_cond oc D CINV ops c = exec_CINC oc D CINV ops c"
| "exec_cond oc D CNEG ops c = exec_CINC oc D CNEG ops c"
| "exec_cond oc D CSET ops c = Val (exec_CSET D CSET ops c)"
| "exec_cond oc D CSETM ops c = Val (exec_CSET D CSETM ops c)"
| "exec_cond oc D CCMP ops c = Val (exec_CCMP D CCMP ops c)"
| "exec_cond oc D CCMN ops c = Val (exec_CCMP D CCMN ops c)"
| "exec_cond oc D MRS ops c = Val (exec_MRS D ops c)"
| "exec_cond oc D MSR ops c = Val (exec_MSR D ops c)"

end
