(* ===== verification/Interp_Vector.thy ===== *)
theory Interp_Vector
  imports Interp_Logic
begin

text \<open>
  The SIMD data-processing arms of \<open>Interpreter::step\<close>. Most of them build a 16-byte
  result \<open>res\<close> lane by lane and write it to the destination register; the arrangement
  comes from the \<open>Debug\<close> text of an operand.
\<close>

unbundle bit_operations_syntax

subsection \<open>Shared shapes\<close>

text \<open>
  \<open>if let Some(reg) = ops.get(0).and_then(get_op_reg) { .. }\<close> at the end of an arm: the
  whole result to a vector register, its low 64 bits to any other register.
\<close>

definition put_result :: "'x bad64 \<Rightarrow> 'x operand list \<Rightarrow> bytes \<Rightarrow> cpu_context \<Rightarrow> cpu_context" where
  "put_result D ops res c =
     (case get_op_reg (ops ! 0) of
        None \<Rightarrow> c
      | Some reg \<Rightarrow>
          (case v_reg_idx reg of
             Some idx \<Rightarrow> set_v_bytes idx res c
           | None \<Rightarrow> set_reg_val D reg (from_le_bytes (take 8 res)) c))"

text \<open>The second source: absent, or not a vector register, stands for the first.\<close>

definition vec_or :: "bytes \<Rightarrow> cpu_context \<Rightarrow> 'x operand list \<Rightarrow> bytes" where
  "vec_or vec1 c ops =
     (if 3 \<le> length ops
      then (case vec_idx (ops ! 2) of Some i \<Rightarrow> ctx_v c ! i | None \<Rightarrow> vec1) else vec1)"

text \<open>\<open>ops.get(2)\<close> as a vector register, if there is one.\<close>

definition vec_opt :: "cpu_context \<Rightarrow> 'x operand list \<Rightarrow> bytes option" where
  "vec_opt c ops =
     (if 3 \<le> length ops then map_option (\<lambda>i. ctx_v c ! i) (vec_idx (ops ! 2)) else None)"

text \<open>Adjacent lanes of a vector combined by \<open>f\<close>, the first \<open>n\<close> pairs.\<close>

definition pairwise :: "('a::len word \<Rightarrow> 'a word \<Rightarrow> 'a word) \<Rightarrow> nat \<Rightarrow> bytes \<Rightarrow> bytes" where
  "pairwise f n v = concat (map (\<lambda>i. to_le_bytes (f (lane v (2 * i)) (lane v (2 * i + 1)))) [0..<n])"

definition zero16 :: bytes where "zero16 = replicate 16 0"

subsection \<open>DUP, shifts, comparisons\<close>

definition exec_DUP :: "'x bad64 \<Rightarrow> 'x operand list \<Rightarrow> cpu_context \<Rightarrow> cpu_context" where
  "exec_DUP D ops c =
     (if length ops < 2 then c
      else let val = get_operand_val D (ops ! 1) c
           in case get_op_reg (ops ! 0) of
                None \<Rightarrow> c
              | Some rd \<Rightarrow>
                  (case v_reg_idx rd of
                     Some idx \<Rightarrow> set_v_bytes idx (vec_dup (get_vec_elem_size D (ops ! 0)) val) c
                   | None \<Rightarrow> set_reg_val D rd val c))"

text \<open>One lane: left by a non-negative amount, logically right by the negated one otherwise.\<close>

definition shift_lane :: "bool \<Rightarrow> 'a::len word \<Rightarrow> u32 \<Rightarrow> 'a word out" where
  "shift_lane oc val shift =
     (if \<not> is_neg shift then Val (wrapping_shl val shift)
      else bindO (ck_neg oc shift) (\<lambda>s. Val (wrapping_shr val s)))"

primrec collect_out :: "'a out list \<Rightarrow> 'a list out" where
  "collect_out [] = Val []"
| "collect_out (r # rs) = bindO r (\<lambda>a. bindO (collect_out rs) (\<lambda>as. Val (a # as)))"

definition lane_shift_amount :: "nat \<Rightarrow> bytes option \<Rightarrow> u32 \<Rightarrow> nat \<Rightarrow> u32" where
  "lane_shift_amount elem_sz svec imm_shift i =
     (case svec of
        None \<Rightarrow> imm_shift
      | Some v \<Rightarrow> by_elem elem_sz (scast (lane v i :: u8)) (scast (lane v i :: u16)) (lane v i)
                   (ucast (lane v i :: u64)))"

definition shift_lanes :: "bool \<Rightarrow> nat \<Rightarrow> (nat \<Rightarrow> 'a::len word) \<Rightarrow> (nat \<Rightarrow> u32) \<Rightarrow> bytes out" where
  "shift_lanes oc n val shift =
     bindO (collect_out (map (\<lambda>i. shift_lane oc (val i) (shift i)) [0..<n]))
       (\<lambda>ls. Val (build_vec n (\<lambda>i. ls ! i)))"

definition exec_USHL ::
  "bool \<Rightarrow> 'x bad64 \<Rightarrow> 'x operand list \<Rightarrow> cpu_context \<Rightarrow> cpu_context out" where
  "exec_USHL oc D ops c =
     (if length ops < 2 then Val c
      else case vec_idx (ops ! 0) of
        None \<Rightarrow> Val c
      | Some idx0 \<Rightarrow>
          (let elem_sz = get_vec_elem_size D (ops ! 0);
               vn = vec_operand c (ops ! 1);
               svec = vec_opt c ops;
               imm_shift = (if svec = None \<and> 3 \<le> length ops
                            then ucast (get_operand_val D (ops ! 2) c) else 0);
               shift = lane_shift_amount elem_sz svec imm_shift;
               n = 16 div elem_sz
           in bindO (by_elem elem_sz
                (shift_lanes oc n (\<lambda>i. lane vn i :: u8) shift)
                (shift_lanes oc n (\<lambda>i. lane vn i :: u16) shift)
                (shift_lanes oc n (\<lambda>i. lane vn i :: u32) shift)
                (shift_lanes oc n (\<lambda>i. lane vn i :: u64) shift))
              (\<lambda>res. Val (set_v_bytes idx0 res c))))"

definition lane_u64 :: "nat \<Rightarrow> bytes \<Rightarrow> nat \<Rightarrow> u64" where
  "lane_u64 elem_sz v i =
     by_elem elem_sz (ucast (lane v i :: u8)) (ucast (lane v i :: u16)) (ucast (lane v i :: u32))
       (lane v i)"

text \<open>The value read as a signed lane: \<open>v as i8\<close>, \<open>i16\<close>, \<open>i32\<close> or \<open>i64\<close>.\<close>

definition signed_lane :: "nat \<Rightarrow> u64 \<Rightarrow> int" where
  "signed_lane elem_sz v =
     by_elem elem_sz (sint (ucast v :: u8)) (sint (ucast v :: u16)) (sint (ucast v :: u32)) (sint v)"

fun cmp_cond :: "vec_op \<Rightarrow> nat \<Rightarrow> u64 \<Rightarrow> u64 \<Rightarrow> bool" where
  "cmp_cond CMEQ sz v1 v2 \<longleftrightarrow> v1 = v2"
| "cmp_cond CMHI sz v1 v2 \<longleftrightarrow> v1 > v2"
| "cmp_cond CMHS sz v1 v2 \<longleftrightarrow> v1 \<ge> v2"
| "cmp_cond CMGT sz v1 v2 \<longleftrightarrow> signed_lane sz v1 > signed_lane sz v2"
| "cmp_cond CMGE sz v1 v2 \<longleftrightarrow> signed_lane sz v1 \<ge> signed_lane sz v2"
| "cmp_cond CMTST sz v1 v2 \<longleftrightarrow> v1 AND v2 \<noteq> 0"
| "cmp_cond _ sz v1 v2 \<longleftrightarrow> False"

definition exec_CMxx :: "'x bad64 \<Rightarrow> vec_op \<Rightarrow> 'x operand list \<Rightarrow> cpu_context \<Rightarrow> cpu_context" where
  "exec_CMxx D opc ops c =
     (if length ops < 2 then c
      else case vec_idx (ops ! 0) of
        None \<Rightarrow> c
      | Some idx0 \<Rightarrow>
          (let elem_sz = get_vec_elem_size D (ops ! 0);
               vec1 = vec_operand c (ops ! 1);
               vec2 = vec_opt c ops;
               imm_val = (if vec2 = None \<and> 3 \<le> length ops then get_operand_val D (ops ! 2) c else 0);
               v2 = (\<lambda>i. case vec2 of Some v \<Rightarrow> lane_u64 elem_sz v i | None \<Rightarrow> imm_val);
               mask = (\<lambda>i. if cmp_cond opc elem_sz (lane_u64 elem_sz vec1 i) (v2 i)
                           then 0xff else 0x00)
           in set_v_bytes idx0 (map (\<lambda>j. mask (j div elem_sz)) [0..<16]) c))"

subsection \<open>Pairwise operations\<close>

text \<open>
  The result of ADDP: the sums of the first vector from offset 0, those of the second
  from the offset the source uses.
\<close>

definition addp_result :: "nat \<Rightarrow> bool \<Rightarrow> bytes \<Rightarrow> bytes \<Rightarrow> bytes" where
  "addp_result elem_sz is_64 vec1 vec2 =
     by_elem elem_sz
       (let r = copy_at 0 (pairwise ((+) :: u8 \<Rightarrow> _) (if is_64 then 4 else 8) vec1) zero16
        in if is_64 then r else copy_at 4 (pairwise ((+) :: u8 \<Rightarrow> _) 4 vec2) r)
       (let r = copy_at 0 (pairwise ((+) :: u16 \<Rightarrow> _) (if is_64 then 2 else 4) vec1) zero16
        in if is_64 then r else copy_at 4 (pairwise ((+) :: u16 \<Rightarrow> _) 2 vec2) r)
       (let r = copy_at 0 (pairwise ((+) :: u32 \<Rightarrow> _) (if is_64 then 1 else 2) vec1) zero16
        in if is_64 then r else copy_at 8 (pairwise ((+) :: u32 \<Rightarrow> _) 1 vec2) r)
       (let r = copy_at 0 (pairwise ((+) :: u64 \<Rightarrow> _) 1 vec1) zero16
        in if is_64 then r else copy_at 8 (pairwise ((+) :: u64 \<Rightarrow> _) 1 vec2) r)"

definition exec_ADDP :: "'x bad64 \<Rightarrow> 'x operand list \<Rightarrow> cpu_context \<Rightarrow> cpu_context" where
  "exec_ADDP D ops c =
     (if length ops < 2 then c
      else let vec1 = vec_operand c (ops ! 1)
           in put_result D ops
                (addp_result (get_vec_elem_size D (ops ! 0)) (is_64bit_vector D (ops ! 0))
                   vec1 (vec_or vec1 c ops)) c)"

text \<open>\<open>max\<close> and \<open>min\<close> on the unsigned or on the signed reading of a lane.\<close>

fun minmax :: "vec_op \<Rightarrow> 'a::len word \<Rightarrow> 'a word \<Rightarrow> 'a word" where
  "minmax UMAXP a b = max a b"
| "minmax UMINP a b = min a b"
| "minmax SMAXP a b = (if sint a \<le> sint b then b else a)"
| "minmax SMINP a b = (if sint b < sint a then b else a)"
| "minmax _ a b = 0"

definition minmaxp_result :: "vec_op \<Rightarrow> nat \<Rightarrow> bool \<Rightarrow> bytes \<Rightarrow> bytes \<Rightarrow> bytes" where
  "minmaxp_result opc elem_sz is_64 vec1 vec2 =
     by_elem elem_sz
       (let r = copy_at 0 (pairwise (minmax opc :: u8 \<Rightarrow> _) (if is_64 then 4 else 8) vec1) zero16
        in if is_64 then r else copy_at 8 (pairwise (minmax opc :: u8 \<Rightarrow> _) 8 vec2) r)
       (let r = copy_at 0 (pairwise (minmax opc :: u16 \<Rightarrow> _) (if is_64 then 2 else 4) vec1) zero16
        in if is_64 then r else copy_at 8 (pairwise (minmax opc :: u16 \<Rightarrow> _) 4 vec2) r)
       (let r = copy_at 0 (pairwise (minmax opc :: u32 \<Rightarrow> _) (if is_64 then 1 else 2) vec1) zero16
        in if is_64 then r else copy_at 8 (pairwise (minmax opc :: u32 \<Rightarrow> _) 2 vec2) r)
       zero16"

definition exec_MINMAXP :: "'x bad64 \<Rightarrow> vec_op \<Rightarrow> 'x operand list \<Rightarrow> cpu_context \<Rightarrow> cpu_context" where
  "exec_MINMAXP D opc ops c =
     (if length ops < 2 then c
      else let vec1 = vec_operand c (ops ! 1)
           in put_result D ops
                (minmaxp_result opc (get_vec_elem_size D (ops ! 0)) (is_64bit_vector D (ops ! 0))
                   vec1 (vec_or vec1 c ops)) c)"

subsection \<open>EXT, bit selection, MVNI\<close>

definition exec_EXT :: "'x bad64 \<Rightarrow> 'x operand list \<Rightarrow> cpu_context \<Rightarrow> cpu_context" where
  "exec_EXT D ops c =
     (if length ops < 3 then c
      else let vec1 = vec_operand c (ops ! 1);
               vec2 = vec_operand c (ops ! 2);
               shift_op = (if 4 \<le> length ops then ops ! 3 else ops ! 2);
               shift = unat (get_operand_val D shift_op c AND 0xf)
           in put_result D ops (slice_at shift 16 (vec1 @ vec2)) c)"

fun bit_select :: "vec_op \<Rightarrow> u8 \<Rightarrow> u8 \<Rightarrow> u8 \<Rightarrow> u8" where
  "bit_select BIT d n m = (d AND NOT m) OR (n AND m)"
| "bit_select BIF d n m = (d AND m) OR (n AND NOT m)"
| "bit_select BSL d n m = (n AND d) OR (m AND NOT d)"
| "bit_select _ d n m = 0"

definition exec_BIT :: "'x bad64 \<Rightarrow> vec_op \<Rightarrow> 'x operand list \<Rightarrow> cpu_context \<Rightarrow> cpu_context" where
  "exec_BIT D opc ops c =
     (if length ops < 3 then c
      else let d = vec_operand c (ops ! 0);
               n = vec_operand c (ops ! 1);
               m = vec_operand c (ops ! 2)
           in put_result D ops (map (\<lambda>i. bit_select opc (d ! i) (n ! i) (m ! i)) [0..<16]) c)"

definition exec_MVNI :: "'x bad64 \<Rightarrow> 'x operand list \<Rightarrow> cpu_context \<Rightarrow> cpu_context" where
  "exec_MVNI D ops c =
     (if length ops < 2 then c
      else case get_op_reg (ops ! 0) of
        None \<Rightarrow> c
      | Some reg \<Rightarrow>
          (let not_imm = NOT (get_operand_val D (ops ! 1) c)
           in case v_reg_idx reg of
                Some idx0 \<Rightarrow> set_v_bytes idx0 (vec_dup (get_vec_elem_size D (ops ! 0)) not_imm) c
              | None \<Rightarrow> set_reg_val D reg not_imm c))"

end
