(* ===== verification/Interp_Vector_Lanes.thy ===== *)
theory Interp_Vector_Lanes
  imports Interp_Vector
begin

text \<open>
  The narrowing, widening, counting and across-lanes arms of \<open>Interpreter::step\<close>, the
  element moves, and the dispatch of the vector operations.
\<close>

unbundle bit_operations_syntax

subsection \<open>SHRN, SHRN2\<close>

text \<open>
  The shift amount is masked to 63 whatever the lane size, so the shift of a 16- or
  32-bit lane may overflow.
\<close>

definition narrow_lanes ::
  "bool \<Rightarrow> nat \<Rightarrow> nat \<Rightarrow> bytes \<Rightarrow> ('a::len word \<Rightarrow> 'b::len word) \<Rightarrow> bytes out" where
  "narrow_lanes oc n shift vec1 trunc =
     bindO (collect_out (map (\<lambda>i. ck_shr oc (lane vec1 i :: 'a word) shift) [0..<n]))
       (\<lambda>ls. Val (concat (map (\<lambda>w. to_le_bytes (trunc w)) ls)))"

definition shrn_lanes :: "bool \<Rightarrow> nat \<Rightarrow> nat \<Rightarrow> bytes \<Rightarrow> bytes out" where
  "shrn_lanes oc elem_sz shift vec1 =
     (if elem_sz = 4
      then narrow_lanes oc 4 shift vec1 (\<lambda>w :: u32. ucast (w AND 0xffff) :: u16)
      else if elem_sz = 8
      then narrow_lanes oc 2 shift vec1 (\<lambda>d :: u64. ucast (d AND 0xffffffff) :: u32)
      else narrow_lanes oc 8 shift vec1 (\<lambda>h :: u16. ucast (h AND 0xff) :: u8))"

definition exec_SHRN ::
  "bool \<Rightarrow> 'x bad64 \<Rightarrow> vec_op \<Rightarrow> 'x operand list \<Rightarrow> cpu_context \<Rightarrow> cpu_context out" where
  "exec_SHRN oc D opc ops c =
     (if length ops < 3 then Val c
      else let vec1 = vec_operand c (ops ! 1);
               shift = unat ((ucast (get_operand_val D (ops ! 2) c) :: u32) AND 0x3f);
               is_high = (opc = SHRN2);
               res0 = (if is_high then vec_operand c (ops ! 0) else zero16)
           in bindO (shrn_lanes oc (get_vec_elem_size D (ops ! 1)) shift vec1)
                (\<lambda>low. Val (put_result D ops (copy_at (if is_high then 8 else 0) low res0) c)))"

subsection \<open>CNT and the across-lanes operations\<close>

definition v_reg_idx_or_0 :: "reg \<Rightarrow> nat" where
  "v_reg_idx_or_0 r = (case v_reg_idx r of Some i \<Rightarrow> i | None \<Rightarrow> 0)"

definition exec_CNT :: "'x operand list \<Rightarrow> cpu_context \<Rightarrow> cpu_context" where
  "exec_CNT ops c =
     (if length ops < 2 then c
      else case (get_op_reg (ops ! 0), get_op_reg (ops ! 1)) of
        (Some r1, Some r2) \<Rightarrow>
          set_v_bytes (v_reg_idx_or_0 r1)
            (map (\<lambda>i. of_nat (count_ones (ctx_v c ! v_reg_idx_or_0 r2 ! i))) [0..<16]) c
      | _ \<Rightarrow> c)"

definition lanes :: "nat \<Rightarrow> bytes \<Rightarrow> 'a::len word list" where
  "lanes n v = map (lane v) [0..<n]"

text \<open>\<open>iter().max()\<close> and \<open>min()\<close> of a non-empty list, by the signed or unsigned order.\<close>

fun across_minmax :: "vec_op \<Rightarrow> 'a::len word list \<Rightarrow> 'a word" where
  "across_minmax opc [] = 0"
| "across_minmax UMAXV (w # ws) = fold max ws w"
| "across_minmax UMINV (w # ws) = fold min ws w"
| "across_minmax SMAXV (w # ws) = fold (\<lambda>a m. if sint m \<le> sint a then a else m) ws w"
| "across_minmax SMINV (w # ws) = fold (\<lambda>a m. if sint a < sint m then a else m) ws w"
| "across_minmax _ ws = 0"

definition ck_sum :: "bool \<Rightarrow> u64 list \<Rightarrow> u64 out" where
  "ck_sum oc ws = fold (\<lambda>w s. bindO s (\<lambda>a. ck_add oc a w)) ws (Val 0)"

text \<open>
  The bytes stored at the start of the result: sums as 64-bit words, extrema at the lane
  size. A \<open>Val []\<close> leaves the result zero.
\<close>

definition across_narrow :: "bool \<Rightarrow> vec_op \<Rightarrow> 'a::len word list \<Rightarrow> bytes out" where
  "across_narrow oc opc ws =
     (if opc = ADDV \<or> opc = UADDLV
      then bindO (ck_sum oc (map (\<lambda>w. ucast w) ws)) (\<lambda>s. Val (to_le_bytes s))
      else if opc = SADDLV then Val (to_le_bytes (sum_list (map (\<lambda>w. scast w :: u64) ws)))
      else Val (to_le_bytes (across_minmax opc ws)))"

definition across_wide :: "bool \<Rightarrow> vec_op \<Rightarrow> u64 list \<Rightarrow> bytes out" where
  "across_wide oc opc ws =
     (if opc = ADDV then bindO (ck_sum oc ws) (\<lambda>s. Val (to_le_bytes s))
      else if opc = UADDLV \<or> opc = SADDLV then Val []
      else Val (to_le_bytes (across_minmax opc ws)))"

definition exec_ADDV ::
  "bool \<Rightarrow> 'x bad64 \<Rightarrow> vec_op \<Rightarrow> 'x operand list \<Rightarrow> cpu_context \<Rightarrow> cpu_context out" where
  "exec_ADDV oc D opc ops c =
     (if length ops < 2 then Val c
      else case (get_op_reg (ops ! 0), get_op_reg (ops ! 1)) of
        (Some r1, Some r2) \<Rightarrow>
          (let v = ctx_v c ! v_reg_idx_or_0 r2;
               is_64 = is_64bit_vector D (ops ! 1)
           in bindO (by_elem (get_vec_elem_size D (ops ! 1))
                (across_narrow oc opc (lanes (if is_64 then 8 else 16) v :: u8 list))
                (across_narrow oc opc (lanes (if is_64 then 4 else 8) v :: u16 list))
                (across_narrow oc opc (lanes (if is_64 then 2 else 4) v :: u32 list))
                (across_wide oc opc (lanes 2 v)))
              (\<lambda>b. Val (set_v_bytes (v_reg_idx_or_0 r1) (copy_at 0 b zero16) c)))
      | _ \<Rightarrow> Val c)"

subsection \<open>Fixed-arrangement operations\<close>

definition exec_USHR :: "'x bad64 \<Rightarrow> vec_op \<Rightarrow> 'x operand list \<Rightarrow> cpu_context \<Rightarrow> cpu_context" where
  "exec_USHR D opc ops c =
     (if length ops < 3 then c
      else case vec_pair ops of
        None \<Rightarrow> c
      | Some (idxd, idxn) \<Rightarrow>
          (let shift = (ucast (get_operand_val D (ops ! 2) c) :: u32) AND 31;
               vn = ctx_v c ! idxn
           in set_v_bytes idxd
                (build_vec 4 (\<lambda>i. (if opc = SSHR then wrapping_sar else wrapping_shr)
                   (lane vn i :: u32) shift)) c))"

definition exec_ZIP :: "vec_op \<Rightarrow> 'x operand list \<Rightarrow> cpu_context \<Rightarrow> cpu_context" where
  "exec_ZIP opc ops c =
     (if length ops < 3 then c
      else case (vec_pair ops, vec_idx (ops ! 2)) of
        (Some (idxd, idxn), Some idxm) \<Rightarrow>
          (let vn = ctx_v c ! idxn;
               vm = ctx_v c ! idxm;
               base = (if opc = ZIP2 then 2 else 0)
           in set_v_bytes idxd
                (slice_at (base * 4) 4 vn @ slice_at (base * 4) 4 vm @
                 slice_at ((base + 1) * 4) 4 vn @ slice_at ((base + 1) * 4) 4 vm) c)
      | _ \<Rightarrow> c)"

definition exec_XTN :: "'x operand list \<Rightarrow> cpu_context \<Rightarrow> cpu_context" where
  "exec_XTN ops c =
     (if length ops < 2 then c
      else case vec_pair ops of
        None \<Rightarrow> c
      | Some (idxd, idxn) \<Rightarrow>
          set_v_bytes idxd
            (build_vec 4 (\<lambda>i. ucast (lane (ctx_v c ! idxn) i :: u32) :: u16)) c)"

definition exec_SXTL :: "vec_op \<Rightarrow> 'x operand list \<Rightarrow> cpu_context \<Rightarrow> cpu_context" where
  "exec_SXTL opc ops c =
     (if length ops < 2 then c
      else case vec_pair ops of
        None \<Rightarrow> c
      | Some (idxd, idxn) \<Rightarrow>
          set_v_bytes idxd
            (build_vec 4 (\<lambda>i. let val = (lane (ctx_v c ! idxn) i :: u16)
                in if opc = SXTL \<or> opc = SXTL2 then scast val else ucast val :: u32)) c)"

subsection \<open>UMOV, SMOV\<close>

text \<open>
  The element index is parsed out of the \<open>Debug\<close> text: what follows the first
  \<open>index:\<close>, up to the next one, up to the first comma, as a \<open>usize\<close>; 0 if that fails.
\<close>

fun after_marker :: "string \<Rightarrow> string \<Rightarrow> string option" where
  "after_marker p [] = (if p = [] then Some [] else None)"
| "after_marker p (ch # s) =
     (if starts_with (ch # s) p then Some (drop (length p) (ch # s)) else after_marker p s)"

fun before_marker :: "string \<Rightarrow> string \<Rightarrow> string" where
  "before_marker p [] = []"
| "before_marker p (ch # s) = (if starts_with (ch # s) p then [] else ch # before_marker p s)"

definition is_space :: "char \<Rightarrow> bool" where
  "is_space ch \<longleftrightarrow> (let n = (of_char ch :: nat) in n = 32 \<or> 9 \<le> n \<and> n \<le> 13)"

definition trim :: "string \<Rightarrow> string" where
  "trim s = rev (dropWhile is_space (rev (dropWhile is_space s)))"

fun parse_digits :: "string \<Rightarrow> nat \<Rightarrow> nat option" where
  "parse_digits [] acc = Some acc"
| "parse_digits (ch # s) acc =
     (let n = (of_char ch :: nat)
      in if 48 \<le> n \<and> n \<le> 57 \<and> acc * 10 + (n - 48) < 2 ^ 64
         then parse_digits s (acc * 10 + (n - 48)) else None)"

definition parse_usize :: "string \<Rightarrow> nat option" where
  "parse_usize s =
     (let t = (case s of ch # r \<Rightarrow> (if ch = CHR ''+'' then r else s) | [] \<Rightarrow> [])
      in if t = [] then None else parse_digits t 0)"

definition element_index :: "string \<Rightarrow> nat" where
  "element_index s =
     (case after_marker ''index:'' s of
        None \<Rightarrow> 0
      | Some r \<Rightarrow>
          (case parse_usize (trim (takeWhile (\<lambda>ch. ch \<noteq> CHR '','') (trim (before_marker ''index:'' r)))) of
             None \<Rightarrow> 0 | Some n \<Rightarrow> n))"

text \<open>\<open>idx_elem * k\<close> is checked; the offset is its remainder modulo 16.\<close>

definition element_offset :: "bool \<Rightarrow> nat \<Rightarrow> nat \<Rightarrow> nat out" where
  "element_offset oc idx_elem k =
     (if oc \<and> 2 ^ 64 \<le> idx_elem * k then Crash Panic
      else Val (idx_elem * k mod 2 ^ 64 mod 16))"

definition exec_UMOV ::
  "bool \<Rightarrow> 'x bad64 \<Rightarrow> 'x operand list \<Rightarrow> cpu_context \<Rightarrow> cpu_context out" where
  "exec_UMOV oc D ops c =
     (if length ops < 2 then Val c
      else case get_op_reg (ops ! 0) of
        None \<Rightarrow> Val c
      | Some rd \<Rightarrow>
          bindO (case vec_idx (ops ! 1) of
              None \<Rightarrow> Val (get_operand_val D (ops ! 1) c)
            | Some v_idx \<Rightarrow>
                (let idx_elem = element_index (fmt_operand D (ops ! 1));
                     v = ctx_v c ! v_idx
                 in if is_w_reg rd
                    then bindO (element_offset oc idx_elem 4)
                           (\<lambda>off. Val (ucast (from_le_bytes (slice_at off 4 v) :: u32)))
                    else bindO (element_offset oc idx_elem 8)
                           (\<lambda>off. Val (from_le_bytes (slice_at off 8 v)))))
            (\<lambda>val. Val (set_reg_val D rd val c)))"

subsection \<open>Dispatch\<close>

fun exec_vec ::
  "bool \<Rightarrow> 'x bad64 \<Rightarrow> vec_op \<Rightarrow> 'x operand list \<Rightarrow> cpu_context \<Rightarrow> cpu_context out" where
  "exec_vec oc D DUP ops c = Val (exec_DUP D ops c)"
| "exec_vec oc D USHL ops c = exec_USHL oc D ops c"
| "exec_vec oc D SHL ops c = exec_USHL oc D ops c"
| "exec_vec oc D SSHL ops c = exec_USHL oc D ops c"
| "exec_vec oc D CMEQ ops c = Val (exec_CMxx D CMEQ ops c)"
| "exec_vec oc D CMHI ops c = Val (exec_CMxx D CMHI ops c)"
| "exec_vec oc D CMHS ops c = Val (exec_CMxx D CMHS ops c)"
| "exec_vec oc D CMGT ops c = Val (exec_CMxx D CMGT ops c)"
| "exec_vec oc D CMGE ops c = Val (exec_CMxx D CMGE ops c)"
| "exec_vec oc D CMTST ops c = Val (exec_CMxx D CMTST ops c)"
| "exec_vec oc D ADDP ops c = Val (exec_ADDP D ops c)"
| "exec_vec oc D EXT ops c = Val (exec_EXT D ops c)"
| "exec_vec oc D BIT ops c = Val (exec_BIT D BIT ops c)"
| "exec_vec oc D BIF ops c = Val (exec_BIT D BIF ops c)"
| "exec_vec oc D BSL ops c = Val (exec_BIT D BSL ops c)"
| "exec_vec oc D MVNI ops c = Val (exec_MVNI D ops c)"
| "exec_vec oc D SHRN ops c = exec_SHRN oc D SHRN ops c"
| "exec_vec oc D SHRN2 ops c = exec_SHRN oc D SHRN2 ops c"
| "exec_vec oc D UMINP ops c = Val (exec_MINMAXP D UMINP ops c)"
| "exec_vec oc D UMAXP ops c = Val (exec_MINMAXP D UMAXP ops c)"
| "exec_vec oc D SMINP ops c = Val (exec_MINMAXP D SMINP ops c)"
| "exec_vec oc D SMAXP ops c = Val (exec_MINMAXP D SMAXP ops c)"
| "exec_vec oc D CNT ops c = Val (exec_CNT ops c)"
| "exec_vec oc D USHR ops c = Val (exec_USHR D USHR ops c)"
| "exec_vec oc D SSHR ops c = Val (exec_USHR D SSHR ops c)"
| "exec_vec oc D ZIP1 ops c = Val (exec_ZIP ZIP1 ops c)"
| "exec_vec oc D ZIP2 ops c = Val (exec_ZIP ZIP2 ops c)"
| "exec_vec oc D XTN ops c = Val (exec_XTN ops c)"
| "exec_vec oc D XTN2 ops c = Val (exec_XTN ops c)"
| "exec_vec oc D UMOV ops c = exec_UMOV oc D ops c"
| "exec_vec oc D SMOV ops c = exec_UMOV oc D ops c"
| "exec_vec oc D SXTL ops c = Val (exec_SXTL SXTL ops c)"
| "exec_vec oc D UXTL ops c = Val (exec_SXTL UXTL ops c)"
| "exec_vec oc D SXTL2 ops c = Val (exec_SXTL SXTL2 ops c)"
| "exec_vec oc D UXTL2 ops c = Val (exec_SXTL UXTL2 ops c)"
| "exec_vec oc D opc ops c = exec_ADDV oc D opc ops c"

end
