(* ===== verification/Operand_Props.thy ===== *)
theory Operand_Props
  imports Vec_Lanes
begin

text \<open>
  Laws of the register views of \<open>interp/mod.rs\<close>: what a register reads after a write to
  it or to another one, at every size, and that no accessor breaks the register file.
\<close>

unbundle bit_operations_syntax

subsection \<open>General-purpose registers\<close>

lemma set_reg_RX [simp]: "n < 31 \<Longrightarrow> set_reg_val D (RX n) v c = set_x n v c"
  by (simp add: set_reg_val_def)

lemma set_reg_RW [simp]: "n < 31 \<Longrightarrow> set_reg_val D (RW n) v c = set_x n (v AND 0xFFFFFFFF) c"
  by (simp add: set_reg_val_def)

lemma get_reg_RX [simp]: "n < 31 \<Longrightarrow> get_reg_val D (RX n) c = get_x c n"
  by (simp add: get_reg_val_def)

lemma get_reg_RW [simp]: "n < 31 \<Longrightarrow> get_reg_val D (RW n) c = get_x c n AND 0xFFFFFFFF"
  by (simp add: get_reg_val_def)

lemma reg_XZR [simp]: "get_reg_val D XZR c = 0" "set_reg_val D XZR v c = c"
  by (simp_all add: get_reg_val_def set_reg_val_def)

lemma reg_WZR [simp]: "get_reg_val D WZR c = 0" "set_reg_val D WZR v c = c"
  by (simp_all add: get_reg_val_def set_reg_val_def)

lemma reg_SP [simp]: "get_reg_val D SP c = ctx_sp c" "set_reg_val D SP v c = c\<lparr>ctx_sp := v\<rparr>"
  by (simp_all add: get_reg_val_def set_reg_val_def)

lemma get_x_set_same: "wf_cpu c \<Longrightarrow> n < 31 \<Longrightarrow> get_x (set_x n v c) n = v"
  by (simp add: get_set_x)

lemma low32_mask: "(0xFFFFFFFF :: u64) = mask 32"
  by (simp add: mask_eq_exp_minus_1)

lemma and_low32: "(v :: u64) AND 0xFFFFFFFF = ucast (ucast v :: u32)"
  by (rule bit_word_eqI) (auto simp: low32_mask bit_and_iff bit_mask_iff bit_ucast_iff)

lemma ucast_and_low32: "(ucast ((v :: u64) AND 0xFFFFFFFF) :: u32) = ucast v"
  by (rule bit_word_eqI) (auto simp: low32_mask bit_and_iff bit_mask_iff bit_ucast_iff)

lemma zext_value:
  "(ucast (ucast (v :: u64) :: u32) :: u64) = take_bit 32 v"
  "(ucast (ucast (v :: u64) :: u16) :: u64) = take_bit 16 v"
  "(ucast (ucast (v :: u64) :: u8) :: u64) = take_bit 8 v"
  by (rule bit_word_eqI, auto simp: bit_take_bit_iff bit_ucast_iff)+

subsection \<open>Well-formedness\<close>

lemma length_take_le_bytes:
  "length (copy_at 0 (take k (to_le_bytes (v :: u64))) (replicate 16 0)) = 16"
  by (subst length_copy_at) simp_all

lemma wf_set_reg_val [simp, intro]:
  assumes "wf_cpu c"
  shows "wf_cpu (set_reg_val D r v c)"
  using assms length_take_le_bytes [of "min (reg_size D r) 8" v]
  by (auto simp: set_reg_val_def Let_def split: option.splits)

text \<open>A write to a register leaves the pc, the exit state and the host-visible rest alone.\<close>

lemma set_reg_val_fields [simp]:
  "ctx_pc (set_reg_val D r v c) = ctx_pc c" "ctx_exited (set_reg_val D r v c) = ctx_exited c"
  "ctx_exit_code (set_reg_val D r v c) = ctx_exit_code c"
  "ctx_target_os (set_reg_val D r v c) = ctx_target_os c"
  "ctx_pstate (set_reg_val D r v c) = ctx_pstate c"
  "ctx_tpidr_el0 (set_reg_val D r v c) = ctx_tpidr_el0 c"
  by (simp_all add: set_reg_val_def Let_def split: option.split)

subsection \<open>The SIMD views\<close>

lemma reg_size_std:
  assumes "fmt_reg_std D"
  shows "reg_size D (RB n) = 1" "reg_size D (RH n) = 2" "reg_size D (RS n) = 4"
    "reg_size D (RD n) = 8" "reg_size D (RQ n) = 16" "reg_size D (RV n) = 16"
  using assms unfolding fmt_reg_std_def reg_size_def Let_def starts_with_def
  by (auto dest!: spec [of _ n])

definition view_bytes :: "'x bad64 \<Rightarrow> reg \<Rightarrow> nat" where
  "view_bytes D r = min (reg_size D r) 8"

text \<open>The value a register view of \<open>k\<close> bytes keeps of a 64-bit value.\<close>

lemma le_bytes_prefix:
  assumes "k \<le> 8"
  shows "(from_le_bytes (copy_at 0 (take k (to_le_bytes (v :: u64))) (replicate 8 0)) :: u64) =
    take_bit (8 * k) v"
proof (rule bit_word_eqI)
  fix n assume n: "n < LENGTH(64)"
  have d: "n div 8 < 8" using n by (simp add: less_mult_imp_div_less)
  have m: "n = 8 * (n div 8) + n mod 8" by simp
  have "bit (from_le_bytes (copy_at 0 (take k (to_le_bytes v)) (replicate 8 0)) :: u64) n \<longleftrightarrow>
      bit (copy_at 0 (take k (to_le_bytes v)) (replicate 8 0) ! (n div 8)) (n mod 8)"
    using n d assms by (simp add: bit_from_le_bytes)
  also have "\<dots> \<longleftrightarrow> n div 8 < k \<and> bit v n"
  proof (cases "n div 8 < k")
    case True
    then have "copy_at 0 (take k (to_le_bytes v)) (replicate 8 0) ! (n div 8) =
        to_le_bytes v ! (n div 8)"
      using assms d by (simp add: copy_at_def nth_append min_def)
    also have "bit \<dots> (n mod 8) \<longleftrightarrow> bit v n"
      using d m by (simp add: nth_to_le_bytes bit_ucast_iff bit_drop_bit_eq)
    finally show ?thesis using True by simp
  next
    case False
    then have "copy_at 0 (take k (to_le_bytes v)) (replicate 8 0) ! (n div 8) = 0"
      using assms d by (simp add: copy_at_def nth_append min_def)
    then show ?thesis using False by simp
  qed
  also have "\<dots> \<longleftrightarrow> bit (take_bit (8 * k) v) n"
    by (auto simp: bit_take_bit_iff less_mult_imp_div_less div_less_iff_less_mult ac_simps)
  finally show "bit (from_le_bytes (copy_at 0 (take k (to_le_bytes v)) (replicate 8 0)) :: u64) n =
      bit (take_bit (8 * k) v) n" .
qed

lemma get_set_vreg:
  assumes wf: "wf_cpu c" and r: "v_reg_idx r = Some i"
  shows "get_reg_val D r (set_reg_val D r v c) = take_bit (8 * view_bytes D r) v"
proof -
  have i: "i < 32" using r by (rule v_reg_idx_bound)
  have nog: "reg_idx r = None" "\<not> is_w_reg r"
    using r by (cases r; simp)+
  have k: "min (reg_size D r) 8 \<le> 8" by simp
  have "take (min (reg_size D r) 8)
      (copy_at 0 (take (min (reg_size D r) 8) (to_le_bytes v)) (replicate 16 0)) =
      take (min (reg_size D r) 8) (to_le_bytes v)"
    by (simp add: copy_at_def)
  then show ?thesis
    using le_bytes_prefix [OF k, of v] wf i r nog
    by (simp add: get_reg_val_def set_reg_val_def Let_def v_set_v_bytes view_bytes_def)
qed

end
