(* ===== verification/Handlers_Wf.thy ===== *)
theory Handlers_Wf
  imports Interp_Float Interp_Bitfield Interp_Vector_Lanes Operand_Props
begin

text \<open>
  The type invariant of the register file: no data-processing handler of the interpreter
  changes the number of registers or the size of a vector register, on any operands and
  on every branch.
\<close>

named_theorems wf_intros \<open>well-formedness of the register file after a handler\<close>

definition wf_out :: "cpu_context out \<Rightarrow> bool" where
  "wf_out r \<longleftrightarrow> (\<forall>c. r = Val c \<longrightarrow> wf_cpu c)"

lemma wf_out_simps [simp]:
  "wf_out (Val c) = wf_cpu c" "wf_out (Fail e)" "wf_out (Crash a)"
  by (simp_all add: wf_out_def)

lemma wf_out_bindO: "(\<And>a. r = Val a \<Longrightarrow> wf_out (f a)) \<Longrightarrow> wf_out (bindO r f)"
  by (cases r) simp_all

subsection \<open>Sizes of vector results\<close>

lemma build_vec_lengths [simp]:
  "length (build_vec 16 (f1 :: nat \<Rightarrow> u8)) = 16" "length (build_vec 8 (f2 :: nat \<Rightarrow> u16)) = 16"
  "length (build_vec 4 (f4 :: nat \<Rightarrow> u32)) = 16" "length (build_vec 2 (f8 :: nat \<Rightarrow> u64)) = 16"
  "length (build_vec 4 (g :: nat \<Rightarrow> u16)) = 16"
  by simp_all

lemma by_elem_cases:
  assumes "sz \<in> {1, 2, 4, 8}" and "sz = 1 \<Longrightarrow> P r1" and "sz = 2 \<Longrightarrow> P r2" and "sz = 4 \<Longrightarrow> P r4"
    and "sz = 8 \<Longrightarrow> P r8"
  shows "P (by_elem sz r1 r2 r4 r8)"
  using assms by (auto simp: by_elem_def)

lemma length_vec_add [simp]: "length (vec_add (get_vec_elem_size D op) a b) = 16"
  unfolding vec_add_def by (rule by_elem_cases [OF get_vec_elem_size_cases]) simp_all

lemma length_vec_dup [simp]: "length (vec_dup (get_vec_elem_size D op) v) = 16"
  unfolding vec_dup_def by (rule by_elem_cases [OF get_vec_elem_size_cases]) simp_all

lemma length_vec_bytewise [simp]: "length (vec_bytewise f a b) = 16"
  by (simp add: vec_bytewise_def)

lemma length_pairwise [simp]:
  "length (pairwise (f :: 'a::len word \<Rightarrow> _) n v) = LENGTH('a) div 8 * n"
  by (simp add: pairwise_def length_concat_const)

lemma length_zero16 [simp]: "length zero16 = 16"
  by (simp add: zero16_def)

lemma length_addp_result [simp]: "length (addp_result sz is_64 a b) = 16"
  by (simp add: addp_result_def by_elem_def Let_def)

lemma length_minmaxp_result [simp]: "length (minmaxp_result opc sz is_64 a b) = 16"
  by (simp add: minmaxp_result_def by_elem_def Let_def)

lemma length_rev_chunks [simp]: "length (rev_chunks sz v) = 16"
  by (simp add: rev_chunks_def)

lemma collect_out_length: "collect_out rs = Val as \<Longrightarrow> length as = length rs"
  by (induction rs arbitrary: as) (auto simp: bindO_Val_iff)

lemma shift_lanes_length:
  "shift_lanes oc n (val :: nat \<Rightarrow> 'a::len word) s = Val res \<Longrightarrow>
     n * (LENGTH('a) div 8) \<le> 16 \<Longrightarrow> length res = 16"
  by (auto simp: shift_lanes_def bindO_Val_iff)

lemma narrow_lanes_length:
  "narrow_lanes oc n s v (f :: 'a::len word \<Rightarrow> 'b::len word) = Val bs \<Longrightarrow>
     length bs = LENGTH('b) div 8 * n"
  by (auto simp: narrow_lanes_def bindO_Val_iff length_concat_const dest!: collect_out_length)

lemma shrn_lanes_length: "shrn_lanes oc sz s v = Val bs \<Longrightarrow> length bs = 8"
  by (auto simp: shrn_lanes_def dest!: narrow_lanes_length split: if_splits)

lemma across_narrow_length:
  "across_narrow oc opc (ws :: 'a::len word list) = Val bs \<Longrightarrow> LENGTH('a) \<le> 64 \<Longrightarrow> length bs \<le> 8"
  by (auto simp: across_narrow_def bindO_Val_iff split: if_splits)

lemma across_wide_length: "across_wide oc opc ws = Val bs \<Longrightarrow> length bs \<le> 8"
  by (auto simp: across_wide_def bindO_Val_iff split: if_splits)

lemma wf_put_result [simp, intro]: "wf_cpu c \<Longrightarrow> length res = 16 \<Longrightarrow> wf_cpu (put_result D ops res c)"
  by (auto simp: put_result_def split: option.splits)

lemma wf_flags_sized [simp, intro]:
  "wf_cpu c \<Longrightarrow> wf_cpu (add_flags_sized b v1 v2 c)" "wf_cpu c \<Longrightarrow> wf_cpu (sub_flags_sized b v1 v2 c)"
  "wf_cpu c \<Longrightarrow> wf_cpu (logic_flags_sized b v1 c)"
  by (simp_all add: add_flags_sized_def sub_flags_sized_def logic_flags_sized_def add_flags_def
      sub_flags_def overflowing_add_def overflowing_sub_def Let_def)

lemma wf_set_reg_trunc [simp, intro]: "wf_cpu c \<Longrightarrow> wf_cpu (set_reg_trunc D r v c)"
  by (simp add: set_reg_trunc_def)

subsection \<open>Arithmetic\<close>

lemma wf_exec_arith: "wf_cpu c \<Longrightarrow> wf_out (exec_arith oc D opc ops c)"
  by (cases opc)
    (auto simp: exec_ADD_def exec_SUB_def exec_NEG_def exec_MOV_def exec_MOVK_def exec_MOVN_def
      exec_MOVZ_def exec_UDIV_def exec_SDIV_def exec_MUL_def exec_UMULH_def exec_SMULH_def
      exec_MADD_def exec_MSUB_def exec_MNEG_def exec_MULL_def exec_MADDL_def exec_ADRP_def
      exec_ADR_def mov_imm_def Let_def split: option.splits intro!: wf_out_bindO)

subsection \<open>Conditions, logic, bit fields\<close>

lemma wf_exec_cond: "wf_cpu c \<Longrightarrow> wf_out (exec_cond oc D opc ops c)"
  by (cases opc)
    (auto simp: exec_CSEL_def exec_CINC_def exec_CSET_def exec_CCMP_def exec_MRS_def exec_MSR_def
      Let_def split: option.splits intro!: wf_out_bindO)

lemma wf_exec4 [simp, intro]: "wf_cpu c \<Longrightarrow> wf_cpu (exec4 D ops f c)"
  by (simp add: exec4_def split: option.splits)

lemma wf_exec3 [simp, intro]: "wf_cpu c \<Longrightarrow> wf_cpu (exec3 D ops f c)"
  by (simp add: exec3_def split: option.splits)

lemma wf_exec_bitwise [simp]:
  assumes "wf_cpu c"
  shows "wf_cpu (exec_ORR D opc ops c)" "wf_cpu (exec_EOR D opc ops c)"
    "wf_cpu (exec_AND D opc ops c)" "wf_cpu (exec_BIC D opc ops c)" "wf_cpu (exec_MVN D ops c)"
  using assms
  by (simp_all add: exec_ORR_def exec_EOR_def exec_AND_def exec_BIC_def exec_MVN_def Let_def
      bitwise_vals_def split: option.splits)

lemma wf_exec_reversal [simp]:
  assumes "wf_cpu c"
  shows "wf_cpu (exec_REV D ops c)" "wf_cpu (exec_CLZ D ops c)" "wf_cpu (exec_RBIT D ops c)"
    "wf_cpu (exec_REVn D opc ops c)" "wf_cpu (exec_XT D opc ops c)"
  using assms
  by (simp_all add: exec_REV_def exec_CLZ_def exec_RBIT_def exec_REVn_def exec_XT_def Let_def
      split: option.splits)

lemma wf_exec_logic: "wf_cpu c \<Longrightarrow> wf_out (exec_logic oc D opc ops c)"
  by (cases opc)
    (auto simp: exec_BFIZ_def exec_BFM_def exec_LSL_def exec_LSR_def exec_ASR_def exec_ROR_def
      exec_EXTR_def split: option.splits intro!: wf_out_bindO)

subsection \<open>Vectors\<close>

lemma unat_and_15: "unat ((w :: u64) AND 0xf) \<le> 15"
proof -
  have "w AND 0xf \<le> 0xf" by (rule word_and_le1)
  then show ?thesis by (simp add: word_le_nat_alt)
qed

lemma length_ext_result [simp]:
  assumes "length a = 16" and "length b = 16"
  shows "length (slice_at (unat ((w :: u64) AND 0xf)) 16 (a @ b)) = 16"
  using unat_and_15 [of w] assms by (subst length_slice_at) simp_all

lemma wf_exec_vec_total [simp]:
  assumes "wf_cpu c"
  shows "wf_cpu (exec_DUP D ops c)" "wf_cpu (exec_CMxx D opc ops c)" "wf_cpu (exec_ADDP D ops c)"
    "wf_cpu (exec_EXT D ops c)" "wf_cpu (exec_BIT D opc ops c)" "wf_cpu (exec_MVNI D ops c)"
    "wf_cpu (exec_MINMAXP D opc ops c)" "wf_cpu (exec_CNT ops c)"
  using assms
  by (auto simp: exec_DUP_def exec_CMxx_def exec_ADDP_def exec_EXT_def exec_BIT_def exec_MVNI_def
      exec_MINMAXP_def exec_CNT_def Let_def split: option.splits)

lemma wf_exec_vec_lanes [simp]:
  assumes "wf_cpu c"
  shows "wf_cpu (exec_USHR D opc ops c)" "wf_cpu (exec_XTN ops c)" "wf_cpu (exec_SXTL opc ops c)"
  using assms
  by (auto simp: exec_USHR_def exec_XTN_def exec_SXTL_def Let_def split: option.splits)

lemma vec_pair_bound: "vec_pair ops = Some (d, n) \<Longrightarrow> d < 32 \<and> n < 32"
  by (auto simp: vec_pair_def vec_idx_bound split: option.splits)

lemma wf_exec_ZIP [simp]: "wf_cpu c \<Longrightarrow> wf_cpu (exec_ZIP opc ops c)"
  by (auto simp: exec_ZIP_def Let_def slice_at_def wf_cpu_v vec_idx_bound dest: vec_pair_bound
      split: option.splits)

lemma wf_exec_USHL:
  assumes "wf_cpu c"
  shows "wf_out (exec_USHL oc D ops c)"
proof -
  have len: "length res = 16"
    if "by_elem sz (shift_lanes oc (16 div sz) f1 s) (shift_lanes oc (16 div sz) f2 s)
          (shift_lanes oc (16 div sz) f4 s) (shift_lanes oc (16 div sz) f8 s) = Val res"
      and "sz \<in> {1, 2, 4, 8}"
    for sz res s and f1 :: "nat \<Rightarrow> u8" and f2 :: "nat \<Rightarrow> u16" and f4 :: "nat \<Rightarrow> u32"
      and f8 :: "nat \<Rightarrow> u64"
    using that by (auto simp: by_elem_def dest!: shift_lanes_length)
  show ?thesis
    using assms
    by (auto simp: exec_USHL_def Let_def split: option.splits
        intro!: wf_out_bindO dest!: len [OF _ get_vec_elem_size_cases])
qed

lemma wf_exec_SHRN:
  assumes "wf_cpu c"
  shows "wf_out (exec_SHRN oc D opc ops c)"
  using assms
  by (auto simp: exec_SHRN_def Let_def intro!: wf_out_bindO dest!: shrn_lanes_length)

lemma wf_exec_ADDV:
  assumes "wf_cpu c"
  shows "wf_out (exec_ADDV oc D opc ops c)"
proof -
  have len: "length b \<le> 8"
    if "by_elem sz (across_narrow oc opc (w1 :: u8 list)) (across_narrow oc opc (w2 :: u16 list))
          (across_narrow oc opc (w4 :: u32 list)) (across_wide oc opc w8) = Val b"
    for sz w1 w2 w4 w8 b
    using that by (auto simp: by_elem_def dest!: across_narrow_length across_wide_length split: if_splits)
  show ?thesis
    using assms
    by (auto simp: exec_ADDV_def Let_def split: option.splits intro!: wf_out_bindO dest!: len)
qed

lemma wf_exec_UMOV: "wf_cpu c \<Longrightarrow> wf_out (exec_UMOV oc D ops c)"
  by (auto simp: exec_UMOV_def split: option.splits intro!: wf_out_bindO)

lemma wf_exec_vec: "wf_cpu c \<Longrightarrow> wf_out (exec_vec oc D opc ops c)"
  by (cases opc) (simp_all add: wf_exec_USHL wf_exec_SHRN wf_exec_ADDV wf_exec_UMOV)

subsection \<open>Floating point\<close>

lemma wf_put_low [simp, intro]:
  "wf_cpu c \<Longrightarrow> i < 32 \<Longrightarrow> length b \<le> 16 \<Longrightarrow> wf_cpu (put_low i b c)"
  by (simp add: put_low_def wf_cpu_v)

lemma wf_exec_fp: "wf_cpu c \<Longrightarrow> wf_cpu (exec_fp F D opc ops c)"
  by (cases opc)
    (auto simp: exec_FMOV_def exec_FCMP_def exec_FCVTZ_def exec_SCVTF_def exec_FNEG_def
      exec_FCVT_def exec_FADD_def Let_def vec_idx_bound v_reg_idx_bound dest: vec_pair_bound
      split: option.splits prod.splits)

end
