(* ===== verification/Interp_Branch.thy ===== *)
theory Interp_Branch
  imports Vec_Lanes
begin

text \<open>
  The branches of \<open>Interpreter::step\<close>. A handler gets the \<open>next_pc\<close> the step has
  computed and returns the one the arm leaves; an arm whose operand guard fails leaves it
  unchanged.
\<close>

unbundle bit_operations_syntax

subsection \<open>Conditions\<close>

fun cond_holds :: "branch_op \<Rightarrow> cpu_context \<Rightarrow> bool" where
  "cond_holds B_EQ c \<longleftrightarrow> get_z c"
| "cond_holds B_NE c \<longleftrightarrow> \<not> get_z c"
| "cond_holds B_CS c \<longleftrightarrow> get_c c"
| "cond_holds B_CC c \<longleftrightarrow> \<not> get_c c"
| "cond_holds B_MI c \<longleftrightarrow> get_n c"
| "cond_holds B_PL c \<longleftrightarrow> \<not> get_n c"
| "cond_holds B_VS c \<longleftrightarrow> get_v c"
| "cond_holds B_VC c \<longleftrightarrow> \<not> get_v c"
| "cond_holds B_HI c \<longleftrightarrow> get_c c \<and> \<not> get_z c"
| "cond_holds B_LS c \<longleftrightarrow> \<not> get_c c \<or> get_z c"
| "cond_holds B_GE c \<longleftrightarrow> get_n c = get_v c"
| "cond_holds B_LT c \<longleftrightarrow> get_n c \<noteq> get_v c"
| "cond_holds B_GT c \<longleftrightarrow> \<not> get_z c \<and> get_n c = get_v c"
| "cond_holds B_LE c \<longleftrightarrow> get_z c \<or> get_n c \<noteq> get_v c"
| "cond_holds _ c \<longleftrightarrow> False"

subsection \<open>Handlers that only compute the target\<close>

definition exec_B :: "'x bad64 \<Rightarrow> 'x operand list \<Rightarrow> u64 \<Rightarrow> cpu_context \<Rightarrow> u64" where
  "exec_B D ops next_pc c = (if ops \<noteq> [] then get_operand_val D (ops ! 0) c else next_pc)"

definition exec_B_cond ::
  "'x bad64 \<Rightarrow> branch_op \<Rightarrow> 'x operand list \<Rightarrow> u64 \<Rightarrow> cpu_context \<Rightarrow> u64" where
  "exec_B_cond D opc ops next_pc c =
     (if ops \<noteq> [] \<and> cond_holds opc c then get_operand_val D (ops ! 0) c else next_pc)"

definition exec_CBZ ::
  "'x bad64 \<Rightarrow> branch_op \<Rightarrow> 'x operand list \<Rightarrow> u64 \<Rightarrow> cpu_context \<Rightarrow> u64" where
  "exec_CBZ D opc ops next_pc c =
     (if length ops < 2 then next_pc
      else let is_zero = (get_operand_val D (ops ! 0) c = 0);
               should_branch = (if opc = CBZ then is_zero else \<not> is_zero)
           in if should_branch then get_operand_val D (ops ! 1) c else next_pc)"

definition exec_TBZ ::
  "bool \<Rightarrow> 'x bad64 \<Rightarrow> branch_op \<Rightarrow> 'x operand list \<Rightarrow> u64 \<Rightarrow> cpu_context \<Rightarrow> u64 out" where
  "exec_TBZ oc D opc ops next_pc c =
     (if length ops < 3 then Val next_pc
      else let val = get_operand_val D (ops ! 0) c;
               bt = get_operand_val D (ops ! 1) c;
               target = get_operand_val D (ops ! 2) c
           in bindO (ck_shl oc (1 :: u64) (unat bt)) (\<lambda>m.
              let bit_set = (val AND m \<noteq> 0);
                  should_branch = (if opc = TBNZ then bit_set else \<not> bit_set)
              in Val (if should_branch then target else next_pc)))"

text \<open>
  BL and BLR write the link register first and read the target operand after it.
\<close>

definition exec_BL ::
  "bool \<Rightarrow> 'x bad64 \<Rightarrow> u64 \<Rightarrow> 'x operand list \<Rightarrow> u64 \<Rightarrow> (cpu_context, u64) comp" where
  "exec_BL oc D pc ops next_pc =
     (if ops = [] then ret next_pc
      else bind (lift (ck_add oc pc 4)) (\<lambda>link.
           bind (modify (set_x 30 link)) (\<lambda>_.
           gets (get_operand_val D (ops ! 0)))))"

definition exec_RET :: "cpu_context \<Rightarrow> u64" where
  "exec_RET c = get_x c 30"

subsection \<open>BR and its trace output\<close>

text \<open>
  A branch to the address \<open>0x5671f0\<close> logs six pointers from \<open>X1\<close> and the strings they
  point to. Failed reads are skipped; a crash of a read is not.
\<close>

primrec br_trace :: "bool \<Rightarrow> 'h sys \<Rightarrow> u64 \<Rightarrow> nat list \<Rightarrow> unit out" where
  "br_trace oc m x1 [] = Val ()"
| "br_trace oc m x1 (i # is) =
     bindO (ck_add oc x1 (of_nat (i * 8))) (\<lambda>a.
       case mem_read oc m a 8 of
         Crash k \<Rightarrow> Crash k
       | Fail e \<Rightarrow> br_trace oc m x1 is
       | Val ptr_bytes \<Rightarrow>
           (let ptr = (from_le_bytes ptr_bytes :: u64)
            in if ptr \<noteq> 0
               then (case read_string oc m ptr of
                       Crash k \<Rightarrow> Crash k
                     | _ \<Rightarrow> br_trace oc m x1 is)
               else br_trace oc m x1 is))"

definition exec_BR ::
  "bool \<Rightarrow> 'x bad64 \<Rightarrow> 'x operand list \<Rightarrow> u64 \<Rightarrow> 'h machine \<Rightarrow> u64 out" where
  "exec_BR oc D ops next_pc m =
     (if ops = [] then Val next_pc
      else let target_addr = get_operand_val D (ops ! 0) (ctx m)
           in bindO (if target_addr = 0x5671f0
                     then br_trace oc (mem m) (get_x (ctx m) 1) [0..<6] else Val ())
                (\<lambda>_. Val target_addr))"

subsection \<open>Dispatch\<close>

fun exec_branch ::
  "bool \<Rightarrow> 'x bad64 \<Rightarrow> branch_op \<Rightarrow> u64 \<Rightarrow> 'x operand list \<Rightarrow> u64 \<Rightarrow> ('h machine, u64) comp" where
  "exec_branch oc D B pc ops next_pc m = (Val (exec_B D ops next_pc (ctx m)), m)"
| "exec_branch oc D CBZ pc ops next_pc m = (Val (exec_CBZ D CBZ ops next_pc (ctx m)), m)"
| "exec_branch oc D CBNZ pc ops next_pc m = (Val (exec_CBZ D CBNZ ops next_pc (ctx m)), m)"
| "exec_branch oc D TBZ pc ops next_pc m = (exec_TBZ oc D TBZ ops next_pc (ctx m), m)"
| "exec_branch oc D TBNZ pc ops next_pc m = (exec_TBZ oc D TBNZ ops next_pc (ctx m), m)"
| "exec_branch oc D BL pc ops next_pc m = ctx_comp (exec_BL oc D pc ops next_pc) m"
| "exec_branch oc D BLR pc ops next_pc m = ctx_comp (exec_BL oc D pc ops next_pc) m"
| "exec_branch oc D BR pc ops next_pc m = (exec_BR oc D ops next_pc m, m)"
| "exec_branch oc D RET pc ops next_pc m = (Val (exec_RET (ctx m)), m)"
| "exec_branch oc D opc pc ops next_pc m = (Val (exec_B_cond D opc ops next_pc (ctx m)), m)"

end
