(* ===== verification/Interp_LoadStore.thy ===== *)
theory Interp_LoadStore
  imports Vec_Lanes
begin

text \<open>
  The loads and stores of \<open>Interpreter::step\<close>. The address comes first and already
  carries the write-back of the base register; a memory error is returned as an
  interpreter error at the instruction, and leaves what was changed before it.
\<close>

unbundle bit_operations_syntax

subsection \<open>Shared steps\<close>

text \<open>\<open>if let Some(addr) = eval_mem_addr(op, ctx) { .. }\<close>.\<close>

definition with_addr ::
  "bool \<Rightarrow> 'x bad64 \<Rightarrow> 'x operand \<Rightarrow> (u64 \<Rightarrow> ('h machine, unit) comp) \<Rightarrow> ('h machine, unit) comp"
  where
  "with_addr oc D op f =
     bind (ctx_comp (eval_mem_addr oc D op)) (\<lambda>a. case a of Some addr \<Rightarrow> f addr | None \<Rightarrow> ret ())"

text \<open>\<open>mem.read(addr, n).map_err(|e| m_err(pc, e))?\<close> and the same for \<open>mem.write\<close>.\<close>

definition load_m :: "bool \<Rightarrow> u64 \<Rightarrow> u64 \<Rightarrow> u64 \<Rightarrow> ('h machine, bytes) comp" where
  "load_m oc pc addr n = map_err (m_err pc) (load oc addr n)"

definition store_m :: "bool \<Rightarrow> u64 \<Rightarrow> u64 \<Rightarrow> bytes \<Rightarrow> ('h machine, unit) comp" where
  "store_m oc pc addr bs = map_err (m_err pc) (store oc addr bs)"

definition set_reg :: "'x bad64 \<Rightarrow> reg \<Rightarrow> u64 \<Rightarrow> ('h machine, unit) comp" where
  "set_reg D reg val = on_ctx (set_reg_val D reg val)"

text \<open>\<open>ctx.v[idx] = [0u8; 16]; ctx.v[idx][..sz].copy_from_slice(&b)\<close>.\<close>

definition set_vec_low :: "nat \<Rightarrow> bytes \<Rightarrow> ('h machine, unit) comp" where
  "set_vec_low idx b = on_ctx (set_v_bytes idx (copy_at 0 b (replicate 16 0)))"

text \<open>The guard \<open>ops.len() >= n\<close> and \<open>if let Some(reg) = get_op_reg(&ops[0])\<close>.\<close>

definition with_reg ::
  "'x operand list \<Rightarrow> (reg \<Rightarrow> ('h machine, unit) comp) \<Rightarrow> ('h machine, unit) comp" where
  "with_reg ops f =
     (if length ops < 2 then ret ()
      else case get_op_reg (ops ! 0) of None \<Rightarrow> ret () | Some reg \<Rightarrow> f reg)"

subsection \<open>Loads\<close>

definition exec_LDR ::
  "bool \<Rightarrow> 'x bad64 \<Rightarrow> u64 \<Rightarrow> 'x operand list \<Rightarrow> ('h machine, unit) comp" where
  "exec_LDR oc D pc ops = with_reg ops (\<lambda>reg. with_addr oc D (ops ! 1) (\<lambda>addr.
     if is_w_reg reg then
       bind (load_m oc pc addr 4) (\<lambda>b. set_reg D reg (ucast (from_le_bytes b :: u32)))
     else case v_reg_idx reg of
       Some idx \<Rightarrow> bind (load_m oc pc addr (of_nat (reg_size D reg))) (set_vec_low idx)
     | None \<Rightarrow> bind (load_m oc pc addr 8) (\<lambda>b. set_reg D reg (from_le_bytes b))))"

definition exec_LDRSW ::
  "bool \<Rightarrow> 'x bad64 \<Rightarrow> u64 \<Rightarrow> 'x operand list \<Rightarrow> ('h machine, unit) comp" where
  "exec_LDRSW oc D pc ops = with_reg ops (\<lambda>reg. with_addr oc D (ops ! 1) (\<lambda>addr.
     bind (load_m oc pc addr 4) (\<lambda>b. set_reg D reg (scast (from_le_bytes b :: u32)))))"

definition exec_LDRH ::
  "bool \<Rightarrow> 'x bad64 \<Rightarrow> u64 \<Rightarrow> 'x operand list \<Rightarrow> ('h machine, unit) comp" where
  "exec_LDRH oc D pc ops = with_reg ops (\<lambda>reg. with_addr oc D (ops ! 1) (\<lambda>addr.
     bind (load_m oc pc addr 2) (\<lambda>b. set_reg D reg (ucast (from_le_bytes b :: u16)))))"

text \<open>A sign extension to 32 bits for a W register, to 64 bits for an X register.\<close>

definition sign_ext_to :: "reg \<Rightarrow> 'a::len word \<Rightarrow> u64" where
  "sign_ext_to reg h = (if is_w_reg reg then ucast (scast h :: u32) else scast h)"

definition exec_LDRSH ::
  "bool \<Rightarrow> 'x bad64 \<Rightarrow> u64 \<Rightarrow> 'x operand list \<Rightarrow> ('h machine, unit) comp" where
  "exec_LDRSH oc D pc ops = with_reg ops (\<lambda>reg. with_addr oc D (ops ! 1) (\<lambda>addr.
     bind (load_m oc pc addr 2) (\<lambda>b. set_reg D reg (sign_ext_to reg (from_le_bytes b :: u16)))))"

definition exec_LDRB ::
  "bool \<Rightarrow> 'x bad64 \<Rightarrow> u64 \<Rightarrow> 'x operand list \<Rightarrow> ('h machine, unit) comp" where
  "exec_LDRB oc D pc ops = with_reg ops (\<lambda>reg. with_addr oc D (ops ! 1) (\<lambda>addr.
     bind (load_m oc pc addr 1) (\<lambda>b. set_reg D reg (ucast (b ! 0)))))"

definition exec_LDRSB ::
  "bool \<Rightarrow> 'x bad64 \<Rightarrow> u64 \<Rightarrow> 'x operand list \<Rightarrow> ('h machine, unit) comp" where
  "exec_LDRSB oc D pc ops = with_reg ops (\<lambda>reg. with_addr oc D (ops ! 1) (\<lambda>addr.
     bind (load_m oc pc addr 1) (\<lambda>b. set_reg D reg (sign_ext_to reg (b ! 0)))))"

text \<open>LDP loads both halves before it writes a register.\<close>

definition exec_LDP ::
  "bool \<Rightarrow> 'x bad64 \<Rightarrow> u64 \<Rightarrow> 'x operand list \<Rightarrow> ('h machine, unit) comp" where
  "exec_LDP oc D pc ops =
     (if length ops < 3 then ret ()
      else case (get_op_reg (ops ! 0), get_op_reg (ops ! 1)) of
        (Some r1, Some r2) \<Rightarrow> with_addr oc D (ops ! 2) (\<lambda>addr.
          case (v_reg_idx r1, v_reg_idx r2) of
            (Some vidx1, Some vidx2) \<Rightarrow>
              (let sz = of_nat (reg_size D r1)
               in bind (load_m oc pc addr sz) (\<lambda>b1.
                  bind (lift (ck_add oc addr sz)) (\<lambda>addr2.
                  bind (load_m oc pc addr2 sz) (\<lambda>b2.
                  bind (set_vec_low vidx1 b1) (\<lambda>_. set_vec_low vidx2 b2)))))
          | _ \<Rightarrow>
              if is_w_reg r1 then
                bind (load_m oc pc addr 4) (\<lambda>b1.
                bind (lift (ck_add oc addr 4)) (\<lambda>addr2.
                bind (load_m oc pc addr2 4) (\<lambda>b2.
                bind (set_reg D r1 (ucast (from_le_bytes b1 :: u32)))
                  (\<lambda>_. set_reg D r2 (ucast (from_le_bytes b2 :: u32))))))
              else
                bind (load_m oc pc addr 8) (\<lambda>b1.
                bind (lift (ck_add oc addr 8)) (\<lambda>addr2.
                bind (load_m oc pc addr2 8) (\<lambda>b2.
                bind (set_reg D r1 (from_le_bytes b1)) (\<lambda>_. set_reg D r2 (from_le_bytes b2))))))
      | _ \<Rightarrow> ret ())"

subsection \<open>Stores\<close>

text \<open>\<open>get_operand_val(op, ctx)\<close> before the address is evaluated.\<close>

definition operand_val :: "'x bad64 \<Rightarrow> 'x operand \<Rightarrow> ('h machine, u64) comp" where
  "operand_val D op = gets (\<lambda>m. get_operand_val D op (ctx m))"

definition exec_STR ::
  "bool \<Rightarrow> 'x bad64 \<Rightarrow> u64 \<Rightarrow> 'x operand list \<Rightarrow> ('h machine, unit) comp" where
  "exec_STR oc D pc ops = with_reg ops (\<lambda>reg.
     bind (operand_val D (ops ! 0)) (\<lambda>val. with_addr oc D (ops ! 1) (\<lambda>addr.
       if is_w_reg reg then store_m oc pc addr (to_le_bytes (ucast val :: u32))
       else case v_reg_idx reg of
         Some idx \<Rightarrow>
           bind (gets (\<lambda>m. ctx_v (ctx m) ! idx)) (\<lambda>v.
             store_m oc pc addr (take (reg_size D reg) v))
       | None \<Rightarrow> store_m oc pc addr (to_le_bytes val))))"

definition exec_STXR ::
  "bool \<Rightarrow> 'x bad64 \<Rightarrow> u64 \<Rightarrow> 'x operand list \<Rightarrow> ('h machine, unit) comp" where
  "exec_STXR oc D pc ops =
     (if length ops < 3 then ret ()
      else case plain_reg (ops ! 0) of
        None \<Rightarrow> ret ()
      | Some status_reg \<Rightarrow>
          bind (operand_val D (ops ! 1)) (\<lambda>val. with_addr oc D (ops ! 2) (\<lambda>addr.
            bind (store_m oc pc addr (to_le_bytes val)) (\<lambda>_. set_reg D status_reg 0))))"

definition exec_STXRB ::
  "bool \<Rightarrow> 'x bad64 \<Rightarrow> u64 \<Rightarrow> 'x operand list \<Rightarrow> ('h machine, unit) comp" where
  "exec_STXRB oc D pc ops =
     (if length ops < 3 then ret ()
      else case plain_reg (ops ! 0) of
        None \<Rightarrow> ret ()
      | Some status_reg \<Rightarrow>
          bind (operand_val D (ops ! 1)) (\<lambda>val. with_addr oc D (ops ! 2) (\<lambda>addr.
            bind (store_m oc pc addr [ucast val]) (\<lambda>_. set_reg D status_reg 0))))"

definition exec_STRH ::
  "bool \<Rightarrow> 'x bad64 \<Rightarrow> u64 \<Rightarrow> 'x operand list \<Rightarrow> ('h machine, unit) comp" where
  "exec_STRH oc D pc ops =
     (if length ops < 2 then ret ()
      else bind (operand_val D (ops ! 0)) (\<lambda>val. with_addr oc D (ops ! 1) (\<lambda>addr.
             store_m oc pc addr (to_le_bytes (ucast val :: u16)))))"

definition exec_STRB ::
  "bool \<Rightarrow> 'x bad64 \<Rightarrow> u64 \<Rightarrow> 'x operand list \<Rightarrow> ('h machine, unit) comp" where
  "exec_STRB oc D pc ops =
     (if length ops < 2 then ret ()
      else bind (operand_val D (ops ! 0)) (\<lambda>val. with_addr oc D (ops ! 1) (\<lambda>addr.
             store_m oc pc addr [ucast val])))"

text \<open>STP reads the two values after the write-back of the base register.\<close>

definition exec_STP ::
  "bool \<Rightarrow> 'x bad64 \<Rightarrow> u64 \<Rightarrow> 'x operand list \<Rightarrow> ('h machine, unit) comp" where
  "exec_STP oc D pc ops =
     (if length ops < 3 then ret ()
      else let r1 = (case get_op_reg (ops ! 0) of Some r \<Rightarrow> r | None \<Rightarrow> XZR);
               r2 = (case get_op_reg (ops ! 1) of Some r \<Rightarrow> r | None \<Rightarrow> XZR)
           in with_addr oc D (ops ! 2) (\<lambda>addr.
                case (v_reg_idx r1, v_reg_idx r2) of
                  (Some vidx1, Some vidx2) \<Rightarrow>
                    (let sz = reg_size D r1
                     in bind (gets (\<lambda>m. (ctx_v (ctx m) ! vidx1, ctx_v (ctx m) ! vidx2))) (\<lambda>(b1, b2).
                        bind (store_m oc pc addr (take sz b1)) (\<lambda>_.
                        bind (lift (ck_add oc addr (of_nat sz))) (\<lambda>addr2.
                        store_m oc pc addr2 (take sz b2)))))
                | _ \<Rightarrow>
                    bind (operand_val D (ops ! 0)) (\<lambda>v1.
                    bind (operand_val D (ops ! 1)) (\<lambda>v2.
                      if is_w_reg r1 then
                        bind (store_m oc pc addr (to_le_bytes (ucast v1 :: u32))) (\<lambda>_.
                        bind (lift (ck_add oc addr 4)) (\<lambda>addr2.
                        store_m oc pc addr2 (to_le_bytes (ucast v2 :: u32))))
                      else
                        bind (store_m oc pc addr (to_le_bytes v1)) (\<lambda>_.
                        bind (lift (ck_add oc addr 8)) (\<lambda>addr2.
                        store_m oc pc addr2 (to_le_bytes v2)))))))"

end
