(* ===== verification/Interp_VecMem.thy ===== *)
theory Interp_VecMem
  imports Interp_LoadStore
begin

text \<open>
  The structure loads and stores LD1, LD1R, ST1, LD2, LD3, LD4 of \<open>Interpreter::step\<close>,
  with their post-index forms, and the dispatch of the memory operations.
\<close>

unbundle bit_operations_syntax

subsection \<open>Post-index write-back\<close>

text \<open>\<open>match &ops[2] { Imm => .., op => get_op_reg(op).map(..).unwrap_or(d) }\<close>.\<close>

definition post_offset :: "'x bad64 \<Rightarrow> 'x operand \<Rightarrow> u64 \<Rightarrow> cpu_context \<Rightarrow> u64" where
  "post_offset D op d c =
     (case operand_imm op of
        Some (imm, sh) \<Rightarrow> imm_to_i64 imm
      | None \<Rightarrow> (case get_op_reg op of Some r \<Rightarrow> get_reg_val D r c | None \<Rightarrow> d))"

fun offset_base :: "'x operand \<Rightarrow> reg option" where
  "offset_base (O_MemOffset reg offset x) = Some reg"
| "offset_base _ = None"

definition post_index ::
  "bool \<Rightarrow> 'x bad64 \<Rightarrow> 'x operand list \<Rightarrow> u64 \<Rightarrow> bool \<Rightarrow> ('h machine, unit) comp" where
  "post_index oc D ops d skip_zero =
     (if length ops < 3 then ret ()
      else bind (gets (\<lambda>m. post_offset D (ops ! 2) d (ctx m))) (\<lambda>post_off.
        if skip_zero \<and> post_off = 0 then ret ()
        else case offset_base (ops ! 1) of
          None \<Rightarrow> ret ()
        | Some base_reg \<Rightarrow>
            bind (gets (\<lambda>m. get_reg_val D base_reg (ctx m))) (\<lambda>cur.
            bind (lift (ck_sadd oc cur post_off)) (\<lambda>new.
            set_reg D base_reg new))))"

subsection \<open>LD1, LD1R, ST1\<close>

text \<open>
  The loop over the registers. LD1R replicates one element and does not advance the
  address, LD1 advances it by the register size.
\<close>

fun ld1_regs ::
  "bool \<Rightarrow> u64 \<Rightarrow> bool \<Rightarrow> nat \<Rightarrow> nat \<Rightarrow> reg list \<Rightarrow> u64 \<Rightarrow> ('h machine, unit) comp" where
  "ld1_regs oc pc repl elem_sz sz [] addr = ret ()"
| "ld1_regs oc pc repl elem_sz sz (reg # regs) addr =
     (if repl then
        bind (load_m oc pc addr (of_nat elem_sz)) (\<lambda>b.
        bind (case v_reg_idx reg of
                Some idx \<Rightarrow> on_ctx (set_v_bytes idx (concat (replicate (16 div elem_sz) b)))
              | None \<Rightarrow> ret ()) (\<lambda>_.
        ld1_regs oc pc repl elem_sz sz regs addr))
      else
        bind (load_m oc pc addr (of_nat sz)) (\<lambda>b.
        bind (case v_reg_idx reg of Some idx \<Rightarrow> set_vec_low idx b | None \<Rightarrow> ret ()) (\<lambda>_.
        bind (lift (ck_add oc addr (of_nat sz))) (\<lambda>addr'.
        ld1_regs oc pc repl elem_sz sz regs addr'))))"

definition exec_LD1 ::
  "bool \<Rightarrow> 'x bad64 \<Rightarrow> u64 \<Rightarrow> bool \<Rightarrow> 'x operand list \<Rightarrow> ('h machine, unit) comp" where
  "exec_LD1 oc D pc repl ops =
     (if length ops < 2 then ret ()
      else with_addr oc D (ops ! 1) (\<lambda>addr.
        bind (ld1_regs oc pc repl (get_vec_elem_size D (ops ! 0))
                (if is_64bit_vector D (ops ! 0) then 8 else 16) (get_multi_regs (ops ! 0)) addr)
          (\<lambda>_. post_index oc D ops 0 True)))"

fun st1_regs :: "bool \<Rightarrow> u64 \<Rightarrow> nat \<Rightarrow> reg list \<Rightarrow> u64 \<Rightarrow> ('h machine, unit) comp" where
  "st1_regs oc pc sz [] addr = ret ()"
| "st1_regs oc pc sz (reg # regs) addr =
     bind (case v_reg_idx reg of
             Some idx \<Rightarrow> bind (gets (\<lambda>m. ctx_v (ctx m) ! idx))
                           (\<lambda>v. store_m oc pc addr (take sz v))
           | None \<Rightarrow> ret ()) (\<lambda>_.
     bind (lift (ck_add oc addr (of_nat sz))) (\<lambda>addr'.
     st1_regs oc pc sz regs addr'))"

definition exec_ST1 ::
  "bool \<Rightarrow> 'x bad64 \<Rightarrow> u64 \<Rightarrow> 'x operand list \<Rightarrow> ('h machine, unit) comp" where
  "exec_ST1 oc D pc ops =
     (if length ops < 2 then ret ()
      else with_addr oc D (ops ! 1) (\<lambda>addr.
        bind (st1_regs oc pc (if is_64bit_vector D (ops ! 0) then 8 else 16)
                (get_multi_regs (ops ! 0)) addr)
          (\<lambda>_. post_index oc D ops 0 True)))"

subsection \<open>LD2, LD3, LD4\<close>

text \<open>
  The structures are always of 32-bit elements; a failed read is ignored, and the
  write-back is made all the same.
\<close>

definition deinterleave :: "nat \<Rightarrow> nat \<Rightarrow> bytes \<Rightarrow> bytes \<Rightarrow> bytes" where
  "deinterleave n_regs r_idx data v =
     fold (\<lambda>elem v.
         let src_off = (elem * n_regs + r_idx) * 4
         in if src_off + 4 \<le> length data
            then copy_at (elem * 4) (slice_at src_off 4 data) v else v) [0..<4] v"

definition ldn_regs :: "reg list \<Rightarrow> bytes \<Rightarrow> cpu_context \<Rightarrow> cpu_context" where
  "ldn_regs regs data =
     fold (\<lambda>r_idx c. case v_reg_idx (regs ! r_idx) of
         None \<Rightarrow> c
       | Some v_idx \<Rightarrow> set_v_bytes v_idx (deinterleave (length regs) r_idx data (ctx_v c ! v_idx)) c)
       [0..<length regs]"

definition exec_LDn ::
  "bool \<Rightarrow> 'x bad64 \<Rightarrow> 'x operand list \<Rightarrow> ('h machine, unit) comp" where
  "exec_LDn oc D ops =
     (if length ops < 2 then ret ()
      else with_addr oc D (ops ! 1) (\<lambda>addr.
        let regs = get_multi_regs (ops ! 0);
            total_bytes = (of_nat (length regs * 16) :: u64)
        in bind (ignore_err (bind (load oc addr total_bytes) (\<lambda>data. on_ctx (ldn_regs regs data))))
             (\<lambda>_. post_index oc D ops total_bytes False)))"

subsection \<open>Dispatch\<close>

fun exec_mem ::
  "bool \<Rightarrow> 'x bad64 \<Rightarrow> u64 \<Rightarrow> mem_op \<Rightarrow> 'x operand list \<Rightarrow> ('h machine, unit) comp" where
  "exec_mem oc D pc LDR ops = exec_LDR oc D pc ops"
| "exec_mem oc D pc LDUR ops = exec_LDR oc D pc ops"
| "exec_mem oc D pc LDAXR ops = exec_LDR oc D pc ops"
| "exec_mem oc D pc LDXR ops = exec_LDR oc D pc ops"
| "exec_mem oc D pc LDAR ops = exec_LDR oc D pc ops"
| "exec_mem oc D pc LDRSW ops = exec_LDRSW oc D pc ops"
| "exec_mem oc D pc LDURSW ops = exec_LDRSW oc D pc ops"
| "exec_mem oc D pc LDRH ops = exec_LDRH oc D pc ops"
| "exec_mem oc D pc LDURH ops = exec_LDRH oc D pc ops"
| "exec_mem oc D pc LDRSH ops = exec_LDRSH oc D pc ops"
| "exec_mem oc D pc LDURSH ops = exec_LDRSH oc D pc ops"
| "exec_mem oc D pc STR_op ops = exec_STR oc D pc ops"
| "exec_mem oc D pc STUR ops = exec_STR oc D pc ops"
| "exec_mem oc D pc STLR ops = exec_STR oc D pc ops"
| "exec_mem oc D pc STLXR ops = exec_STXR oc D pc ops"
| "exec_mem oc D pc STXR ops = exec_STXR oc D pc ops"
| "exec_mem oc D pc STLXRB ops = exec_STXRB oc D pc ops"
| "exec_mem oc D pc STXRB ops = exec_STXRB oc D pc ops"
| "exec_mem oc D pc STRH ops = exec_STRH oc D pc ops"
| "exec_mem oc D pc STURH ops = exec_STRH oc D pc ops"
| "exec_mem oc D pc STP ops = exec_STP oc D pc ops"
| "exec_mem oc D pc LDP ops = exec_LDP oc D pc ops"
| "exec_mem oc D pc LDRB ops = exec_LDRB oc D pc ops"
| "exec_mem oc D pc LDURB ops = exec_LDRB oc D pc ops"
| "exec_mem oc D pc LDXRB ops = exec_LDRB oc D pc ops"
| "exec_mem oc D pc LDAXRB ops = exec_LDRB oc D pc ops"
| "exec_mem oc D pc LDARB ops = exec_LDRB oc D pc ops"
| "exec_mem oc D pc LDRSB ops = exec_LDRSB oc D pc ops"
| "exec_mem oc D pc LDURSB ops = exec_LDRSB oc D pc ops"
| "exec_mem oc D pc STRB ops = exec_STRB oc D pc ops"
| "exec_mem oc D pc STURB ops = exec_STRB oc D pc ops"
| "exec_mem oc D pc STLRB ops = exec_STRB oc D pc ops"
| "exec_mem oc D pc LD1 ops = exec_LD1 oc D pc False ops"
| "exec_mem oc D pc LD1R ops = exec_LD1 oc D pc True ops"
| "exec_mem oc D pc ST1 ops = exec_ST1 oc D pc ops"
| "exec_mem oc D pc LD2 ops = exec_LDn oc D ops"
| "exec_mem oc D pc LD3 ops = exec_LDn oc D ops"
| "exec_mem oc D pc LD4 ops = exec_LDn oc D ops"

end
