(* ===== verification/Syscall.thy ===== *)
theory Syscall
  imports Interp_LoadStore
begin

text \<open>
  The system calls: \<open>LinuxSyscall::handle\<close>, \<open>DarwinSyscall::handle\<close> and the dispatcher of
  \<open>syscall/\<close>. A handler changes the guest registers and memory and the host, and returns
  the value of the call or an error that stops the interpreter. The libc functions the
  handlers call are parameters.
\<close>

unbundle bit_operations_syntax

subsection \<open>The host functions\<close>

text \<open>
  A call that passes values only, and one that fills a buffer and a length. Both see and
  may change host memory, because \<open>fcntl\<close> gets a guest value as its third argument. A
  negative result is a failure, and the error number is then read from the kernel state.
\<close>

datatype host_call =
    Socket u32 u32 u32 | Listen u32 u32 | Setsockopt u32 u32 u32 bytes u32
  | Symlink bytes bytes | Kill u32 u32 | Fcntl u32 u32 u64 | Uname_null | Close u32

datatype host_query = Getsockname u32 | Getpeername u32 | Getsockopt u32 u32 u32

record 'h libc = "'h os" +
  libc_call :: "host_call \<Rightarrow> hmem \<Rightarrow> 'h \<Rightarrow> u32 \<times> hmem \<times> 'h"
  libc_query :: "host_query \<Rightarrow> bytes \<Rightarrow> u32 \<Rightarrow> hmem \<Rightarrow> 'h \<Rightarrow> (u32 \<times> bytes \<times> u32) \<times> hmem \<times> 'h"
  libc_errno :: "'h \<Rightarrow> u32"
  libc_pid :: "'h \<Rightarrow> u32"
  libc_ppid :: "'h \<Rightarrow> u32"
  libc_uid :: "'h \<Rightarrow> u32"
  libc_euid :: "'h \<Rightarrow> u32"
  libc_gid :: "'h \<Rightarrow> u32"
  libc_egid :: "'h \<Rightarrow> u32"

subsection \<open>Strings\<close>

text \<open>\<open>CString::new\<close> refuses an interior zero byte.\<close>

definition cstring_new :: "bytes \<Rightarrow> bytes out" where
  "cstring_new bs = (if 0 \<in> set bs then Fail (LoadError ''CString error'') else Val bs)"

subsection \<open>Steps of a handler\<close>

definition arg :: "nat \<Rightarrow> ('h machine, u64) comp" where
  "arg n = gets (\<lambda>m. get_x (ctx m) n)"

definition arg32 :: "nat \<Rightarrow> ('h machine, u32) comp" where
  "arg32 n = gets (\<lambda>m. ucast (get_x (ctx m) n))"

text \<open>\<open>ctx.set_x(0, v); Ok(v)\<close>.\<close>

definition finish :: "u64 \<Rightarrow> ('h machine, u64) comp" where
  "finish v = bind (on_ctx (set_x 0 v)) (\<lambda>_. ret v)"

definition host_state :: "('h \<Rightarrow> 'a) \<Rightarrow> ('h machine, 'a) comp" where
  "host_state f = gets (\<lambda>m. f (kernel (mem m)))"

definition call_host :: "('h, 'z) libc_scheme \<Rightarrow> host_call \<Rightarrow> ('h machine, u32) comp" where
  "call_host K req = mem_comp (\<lambda>s.
     case libc_call K req (host_mem s) (kernel s) of
       (r, hm, k) \<Rightarrow> (Val r, s\<lparr>host_mem := hm, kernel := k\<rparr>))"

definition query_host ::
  "('h, 'z) libc_scheme \<Rightarrow> host_query \<Rightarrow> bytes \<Rightarrow> u32 \<Rightarrow> ('h machine, u32 \<times> bytes \<times> u32) comp" where
  "query_host K q buf len = mem_comp (\<lambda>s.
     case libc_query K q buf len (host_mem s) (kernel s) of
       (r, hm, k) \<Rightarrow> (Val r, s\<lparr>host_mem := hm, kernel := k\<rparr>))"

text \<open>
  \<open>if ret < 0 { let err = *__errno_location(); let neg_err = -err as i64; .. } else { .. }\<close>.
\<close>

definition check_ret ::
  "bool \<Rightarrow> ('h, 'z) libc_scheme \<Rightarrow> u32 \<Rightarrow> ('h machine, u64) comp \<Rightarrow> ('h machine, u64) comp" where
  "check_ret oc K r success =
     (if is_neg r
      then bind (host_state (libc_errno K)) (\<lambda>err.
           bind (lift (ck_neg oc err)) (\<lambda>neg_err. finish (scast neg_err)))
      else success)"

definition write_guest :: "bool \<Rightarrow> u64 \<Rightarrow> bytes \<Rightarrow> ('h machine, unit) comp" where
  "write_guest oc a bs = store oc a bs"

definition read_path :: "bool \<Rightarrow> u64 \<Rightarrow> ('h machine, bytes) comp" where
  "read_path oc p =
     (if p \<noteq> 0
      then bind (\<lambda>m. (read_string oc (mem m) p, m)) (\<lambda>bs. ret (from_utf8_lossy bs))
      else ret [])"

text \<open>\<open>&buf[..len]\<close> panics when the length the host reports exceeds the buffer.\<close>

definition prefix_of :: "bytes \<Rightarrow> u32 \<Rightarrow> bytes out" where
  "prefix_of buf len = (if length buf < unat len then Crash Panic else Val (take (unat len) buf))"

text \<open>The result of a query goes to the guest when both pointers are set; errors are ignored.\<close>

definition store_query ::
  "bool \<Rightarrow> u64 \<Rightarrow> u64 \<Rightarrow> bytes \<Rightarrow> u32 \<Rightarrow> ('h machine, u64) comp" where
  "store_query oc buf_ptr len_ptr buf len =
     bind (if buf_ptr \<noteq> 0 \<and> len_ptr \<noteq> 0
           then bind (lift (prefix_of buf len)) (\<lambda>b.
                bind (ignore_err (write_guest oc buf_ptr b)) (\<lambda>_.
                ignore_err (write_guest oc len_ptr (to_le_bytes len))))
           else ret ())
       (\<lambda>_. finish 0)"

definition set_exited :: "u32 \<Rightarrow> ('h machine, unit) comp" where
  "set_exited code = on_ctx (\<lambda>c. c\<lparr>ctx_exited := True, ctx_exit_code := code\<rparr>)"

subsection \<open>Handlers both systems share\<close>

definition sys_exit :: "('h machine, u64) comp" where
  "sys_exit = bind (arg32 0) (\<lambda>code. bind (set_exited code) (\<lambda>_. ret (scast code)))"

text \<open>A failed read of the buffer is ignored; the call reports the full count all the same.\<close>

definition sys_write :: "bool \<Rightarrow> ('h machine, u64) comp" where
  "sys_write oc =
     bind (arg 0) (\<lambda>fd. bind (arg 1) (\<lambda>buf_ptr. bind (arg 2) (\<lambda>count.
     bind (ignore_err (bind (load oc buf_ptr count) (\<lambda>data.
             if fd = 1 \<or> fd = 2
             then mem_comp (modify (\<lambda>s. s\<lparr>stdout := stdout s @ from_utf8_lossy data\<rparr>))
             else ret ())))
       (\<lambda>_. finish count))))"

definition sys_mmap :: "('h, 'z) os_scheme \<Rightarrow> ('h machine, u64) comp" where
  "sys_mmap K =
     bind (arg 0) (\<lambda>addr. bind (arg 1) (\<lambda>len.
     let target_addr = (if addr = 0 then 0x7f030000 else addr)
     in bind (mem_comp (map_anonymous K target_addr len)) (\<lambda>_. finish target_addr)))"

subsection \<open>Linux\<close>

text \<open>\<open>translate_open_flags\<close>, over the \<open>libc\<close> constants of the host.\<close>

record open_consts =
  common_mask :: u32
  host_O_DIRECTORY :: u32
  host_O_NOFOLLOW :: u32
  host_O_DIRECT :: u32
  host_O_NOATIME :: u32
  host_O_PATH :: u32

definition translate_open_flags :: "open_consts \<Rightarrow> u32 \<Rightarrow> u32" where
  "translate_open_flags L flags =
     (let h0 = flags AND common_mask L;
          h1 = (if flags AND 0x4000 \<noteq> 0 then h0 OR host_O_DIRECTORY L else h0);
          h2 = (if flags AND 0x8000 \<noteq> 0 then h1 OR host_O_NOFOLLOW L else h1);
          h3 = (if flags AND 0x10000 \<noteq> 0 then h2 OR host_O_DIRECT L else h2);
          h4 = (if flags AND 0x40000 \<noteq> 0 then h3 OR host_O_NOATIME L else h3);
          h5 = (if flags AND 0x400000 \<noteq> 0 then h4 OR host_O_PATH L else h4)
      in h5)"

definition statfs_buf :: bytes where
  "statfs_buf = to_le_bytes (0xef53 :: u64) @ to_le_bytes (4096 :: u64) @
     to_le_bytes (1000000 :: u64) @ to_le_bytes (500000 :: u64) @ to_le_bytes (500000 :: u64) @
     replicate 80 0"

definition linux_statfs :: "bool \<Rightarrow> ('h machine, u64) comp" where
  "linux_statfs oc =
     bind (arg 1) (\<lambda>buf_ptr.
     bind (if buf_ptr \<noteq> 0 then write_guest oc buf_ptr statfs_buf else ret ()) (\<lambda>_. finish 0))"

definition linux_socket :: "bool \<Rightarrow> ('h, 'z) libc_scheme \<Rightarrow> ('h machine, u64) comp" where
  "linux_socket oc K =
     bind (arg32 0) (\<lambda>domain. bind (arg32 1) (\<lambda>type. bind (arg32 2) (\<lambda>protocol.
     bind (call_host K (Socket domain type protocol)) (\<lambda>r.
     check_ret oc K r (finish (scast r))))))"

text \<open>199 and 200: \<open>getsockname\<close> and \<open>getpeername\<close> into a buffer of 128 bytes.\<close>

definition linux_sockaddr ::
  "bool \<Rightarrow> ('h, 'z) libc_scheme \<Rightarrow> (u32 \<Rightarrow> host_query) \<Rightarrow> ('h machine, u64) comp" where
  "linux_sockaddr oc K q =
     bind (arg32 0) (\<lambda>sockfd. bind (arg 1) (\<lambda>addr_ptr. bind (arg 2) (\<lambda>addrlen_ptr.
     bind (query_host K (q sockfd) (replicate 128 0) 128) (\<lambda>(r, host_addr, host_len).
     check_ret oc K r (store_query oc addr_ptr addrlen_ptr host_addr host_len)))))"

definition linux_listen :: "bool \<Rightarrow> ('h, 'z) libc_scheme \<Rightarrow> ('h machine, u64) comp" where
  "linux_listen oc K =
     bind (arg32 0) (\<lambda>sockfd. bind (arg32 1) (\<lambda>backlog.
     bind (call_host K (Listen sockfd backlog)) (\<lambda>r. check_ret oc K r (finish 0))))"

definition linux_setsockopt :: "bool \<Rightarrow> ('h, 'z) libc_scheme \<Rightarrow> ('h machine, u64) comp" where
  "linux_setsockopt oc K =
     bind (arg32 0) (\<lambda>sockfd. bind (arg32 1) (\<lambda>level. bind (arg32 2) (\<lambda>optname.
     bind (arg 3) (\<lambda>optval_ptr. bind (arg32 4) (\<lambda>optlen.
     bind (if optval_ptr \<noteq> 0 \<and> optlen > 0 then attempt (load oc optval_ptr (ucast optlen))
           else ret None) (\<lambda>rd.
     let zeros = replicate (unat optlen) 0;
         optval_buf = (case rd of Some bs \<Rightarrow> copy_at 0 bs zeros | None \<Rightarrow> zeros)
     in bind (call_host K (Setsockopt sockfd level optname optval_buf optlen)) (\<lambda>r.
        check_ret oc K r (finish 0))))))))"

definition linux_getsockopt :: "bool \<Rightarrow> ('h, 'z) libc_scheme \<Rightarrow> ('h machine, u64) comp" where
  "linux_getsockopt oc K =
     bind (arg32 0) (\<lambda>sockfd. bind (arg32 1) (\<lambda>level. bind (arg32 2) (\<lambda>optname.
     bind (arg 3) (\<lambda>optval_ptr. bind (arg 4) (\<lambda>optlen_ptr.
     bind (query_host K (Getsockopt sockfd level optname) (replicate 256 0) 256)
       (\<lambda>(r, optval_buf, optlen).
     check_ret oc K r (store_query oc optval_ptr optlen_ptr optval_buf optlen)))))))"

definition linux_symlink :: "bool \<Rightarrow> ('h, 'z) libc_scheme \<Rightarrow> ('h machine, u64) comp" where
  "linux_symlink oc K =
     bind (arg 1) (\<lambda>target_ptr. bind (arg 2) (\<lambda>linkpath_ptr.
     bind (read_path oc target_ptr) (\<lambda>target_path.
     bind (read_path oc linkpath_ptr) (\<lambda>link_path.
     bind (lift (cstring_new target_path)) (\<lambda>target_c.
     bind (lift (cstring_new link_path)) (\<lambda>link_c.
     bind (call_host K (Symlink target_c link_c)) (\<lambda>r.
     check_ret oc K r (finish 0))))))))"

definition linux_kill :: "bool \<Rightarrow> ('h, 'z) libc_scheme \<Rightarrow> ('h machine, u64) comp" where
  "linux_kill oc K =
     bind (arg32 0) (\<lambda>pid. bind (arg32 1) (\<lambda>sig.
     bind (call_host K (Kill pid sig)) (\<lambda>r. check_ret oc K r (finish 0))))"

text \<open>
  56: the thread branch writes the child's id to the two pointers; the child's context
  the source builds is dropped, so no thread is started.
\<close>

definition linux_clone :: "bool \<Rightarrow> ('h, 'z) libc_scheme \<Rightarrow> ('h machine, u64) comp" where
  "linux_clone oc K =
     bind (arg 0) (\<lambda>flags. bind (arg 2) (\<lambda>ptid_ptr. bind (arg 4) (\<lambda>ctid_ptr.
     bind (host_state (libc_pid K)) (\<lambda>pid.
     bind (lift (ck_add oc pid 1)) (\<lambda>child.
       if flags AND 0x00010000 \<noteq> 0 then
         bind (if ctid_ptr \<noteq> 0 then ignore_err (write_guest oc ctid_ptr (to_le_bytes child))
               else ret ()) (\<lambda>_.
         bind (if ptid_ptr \<noteq> 0 then ignore_err (write_guest oc ptid_ptr (to_le_bytes child))
               else ret ()) (\<lambda>_.
         finish (ucast child)))
       else finish (ucast child))))))"

definition linux_futex :: "bool \<Rightarrow> ('h machine, u64) comp" where
  "linux_futex oc =
     bind (arg 0) (\<lambda>uaddr. bind (arg32 1) (\<lambda>op. bind (arg32 2) (\<lambda>val.
       let futex_op = op AND 0x7f
       in if futex_op = 0 then
            bind (if uaddr \<noteq> 0 then attempt (load oc uaddr 4) else ret None) (\<lambda>data.
              case data of
                Some bs \<Rightarrow> if (from_le_bytes bs :: u32) \<noteq> val then finish (- 11) else finish 0
              | None \<Rightarrow> finish 0)
          else if futex_op = 1 then finish (ucast val)
          else finish 0)))"

definition linux_fcntl :: "bool \<Rightarrow> ('h, 'z) libc_scheme \<Rightarrow> ('h machine, u64) comp" where
  "linux_fcntl oc K =
     bind (arg32 0) (\<lambda>fd. bind (arg32 1) (\<lambda>cmd. bind (arg 2) (\<lambda>a.
     bind (call_host K (Fcntl fd cmd a)) (\<lambda>r. check_ret oc K r (finish (scast r))))))"

definition linux_close :: "bool \<Rightarrow> ('h, 'z) libc_scheme \<Rightarrow> ('h machine, u64) comp" where
  "linux_close oc K =
     bind (arg32 0) (\<lambda>fd. bind (call_host K (Close fd)) (\<lambda>r. check_ret oc K r (finish 0)))"

definition linux_execve :: "bool \<Rightarrow> ('h machine, u64) comp" where
  "linux_execve oc =
     bind (arg 0) (\<lambda>filename_ptr. bind (read_path oc filename_ptr) (\<lambda>filename. finish (- 2)))"

text \<open>\<open>set_brk\<close> returns an error when the heap cannot grow; it stops the interpreter.\<close>

definition linux_brk :: "bool \<Rightarrow> ('h, 'z) os_scheme \<Rightarrow> ('h machine, u64) comp" where
  "linux_brk oc K =
     bind (arg 0) (\<lambda>target_brk.
     bind (if target_brk = 0 then gets (\<lambda>m. brk_current (mem m))
           else mem_comp (set_brk oc K target_brk)) finish)"

text \<open>96 clears the thread id and ends the program.\<close>

definition linux_set_tid_address :: "bool \<Rightarrow> ('h machine, u64) comp" where
  "linux_set_tid_address oc =
     bind (arg 0) (\<lambda>tid_ptr.
     bind (if tid_ptr \<noteq> 0 then ignore_err (write_guest oc tid_ptr (to_le_bytes (0 :: u32)))
           else ret ()) (\<lambda>_.
     bind (set_exited 0) (\<lambda>_. ret 0)))"

definition linux_handle :: "bool \<Rightarrow> ('h, 'z) libc_scheme \<Rightarrow> ('h machine, u64) comp" where
  "linux_handle oc K =
     bind (arg 8) (\<lambda>nr.
       if nr = 43 \<or> nr = 44 then linux_statfs oc
       else if nr = 198 then linux_socket oc K
       else if nr = 199 then linux_sockaddr oc K Getsockname
       else if nr = 200 then linux_sockaddr oc K Getpeername
       else if nr = 203 then linux_listen oc K
       else if nr = 208 then linux_setsockopt oc K
       else if nr = 209 then linux_getsockopt oc K
       else if nr = 17 then linux_symlink oc K
       else if nr = 78 then linux_kill oc K
       else if nr = 56 then linux_clone oc K
       else if nr = 98 then linux_futex oc
       else if nr = 99 then finish 0
       else if nr = 63 then linux_fcntl oc K
       else if nr = 160 then bind (call_host K Uname_null) (\<lambda>_. finish 0)
       else if nr = 172 then bind (host_state (libc_pid K)) (\<lambda>v. finish (ucast v))
       else if nr = 174 then bind (host_state (libc_ppid K)) (\<lambda>v. finish (scast v))
       else if nr = 175 then bind (host_state (libc_uid K)) (\<lambda>v. finish (ucast v))
       else if nr = 176 then bind (host_state (libc_euid K)) (\<lambda>v. finish (ucast v))
       else if nr = 177 then bind (host_state (libc_gid K)) (\<lambda>v. finish (ucast v))
       else if nr = 178 then bind (host_state (libc_egid K)) (\<lambda>v. finish (ucast v))
       else if nr = 93 \<or> nr = 94 then sys_exit
       else if nr = 64 then sys_write oc
       else if nr = 62 then linux_close oc K
       else if nr = 57 then linux_execve oc
       else if nr = 222 then sys_mmap K
       else if nr = 214 then linux_brk oc K
       else if nr = 215 \<or> nr = 226 then finish 0
       else if nr = 169 then
         bind (arg 0) (\<lambda>tp. bind (on_ctx (\<lambda>c. c\<lparr>ctx_tpidr_el0 := tp\<rparr>)) (\<lambda>_. finish 0))
       else if nr = 96 then linux_set_tid_address oc
       else finish 0)"

subsection \<open>Darwin and the dispatcher\<close>

definition darwin_handle ::
  "bool \<Rightarrow> ('h, 'z) os_scheme \<Rightarrow> u64 \<Rightarrow> ('h machine, u64) comp" where
  "darwin_handle oc K nr =
     (let bsd_nr = nr AND 0x00FFFFFF
      in if bsd_nr = 1 then sys_exit
         else if bsd_nr = 4 then sys_write oc
         else if bsd_nr = 199 then sys_mmap K
         else finish 0)"

fun handle_syscall_for_os ::
  "bool \<Rightarrow> ('h, 'z) libc_scheme \<Rightarrow> target_os \<Rightarrow> ('h machine, u64) comp" where
  "handle_syscall_for_os oc K Linux = linux_handle oc K"
| "handle_syscall_for_os oc K Android = linux_handle oc K"
| "handle_syscall_for_os oc K Darwin = bind (arg 16) (darwin_handle oc K)"

definition handle_syscall :: "bool \<Rightarrow> ('h, 'z) libc_scheme \<Rightarrow> ('h machine, u64) comp" where
  "handle_syscall oc K = handle_syscall_for_os oc K Linux"

end
