(* ===== verification/Stepper.thy ===== *)
theory Stepper
  imports Prelude
begin

text \<open>
  Running a machine step by step: the bounded loop \<open>run_max_steps\<close> and the unbounded
  loop \<open>run\<close> of \<open>interp/mod.rs\<close> over any step function, and the contract between a step
  function and its drivers.
\<close>

text \<open>
  \<open>while steps < max_steps { if !step()? { return Ok(true) } steps += 1 } Ok(false)\<close>.
\<close>

primrec max_steps :: "('s, bool) comp \<Rightarrow> nat \<Rightarrow> ('s, bool) comp" where
  "max_steps step 0 s = (Val False, s)"
| "max_steps step (Suc n) s =
     (case step s of
        (Val b, s') \<Rightarrow> if b then max_steps step n s' else (Val True, s')
      | (Fail e, s') \<Rightarrow> (Fail e, s')
      | (Crash c, s') \<Rightarrow> (Crash c, s'))"

text \<open>\<open>while step()? {} Ok(())\<close>; \<open>None\<close> when the loop does not end.\<close>

partial_function (option) run_loop ::
  "('s, bool) comp \<Rightarrow> 's \<Rightarrow> (unit out \<times> 's) option" where
  "run_loop step s =
     (case step s of
        (Val b, s') \<Rightarrow> if b then run_loop step s' else Some (Val (), s')
      | (Fail e, s') \<Rightarrow> Some (Fail e, s')
      | (Crash c, s') \<Rightarrow> Some (Crash c, s'))"

text \<open>What the drivers do with the last step of a run that ends.\<close>

definition finished :: "bool out \<Rightarrow> bool" where
  "finished r \<longleftrightarrow> r \<noteq> Val False"

definition as_run_result :: "bool out \<Rightarrow> unit out" where
  "as_run_result r = bindO r (\<lambda>_. Val ())"

lemma run_loop_of_max_steps:
  "max_steps step n s = (r, t) \<Longrightarrow> finished r \<Longrightarrow> run_loop step s = Some (as_run_result r, t)"
proof (induction n arbitrary: s)
  case 0
  then show ?case by (simp add: finished_def)
next
  case (Suc n)
  then show ?case
    by (subst run_loop.simps)
      (auto simp: as_run_result_def split: prod.splits out.splits if_splits)
qed

lemma max_steps_of_run_loop_pair:
  assumes "run_loop step s = Some y"
  shows "\<exists>n r. max_steps step n s = (r, snd y) \<and> finished r \<and> fst y = as_run_result r"
  using assms
proof (rule run_loop.raw_induct [where P = "\<lambda>step s y. \<exists>n r. max_steps step n s = (r, snd y) \<and>
    finished r \<and> fst y = as_run_result r", rotated])
  fix loop :: "('a \<Rightarrow> bool out \<times> 'a) \<Rightarrow> 'a \<Rightarrow> (unit out \<times> 'a) option"
    and step :: "('a, bool) comp" and s y
  assume IH: "\<And>step s y. loop step s = Some y \<Longrightarrow>
      \<exists>n r. max_steps step n s = (r, snd y) \<and> finished r \<and> fst y = as_run_result r"
    and run: "(case step s of
        (Val b, s') \<Rightarrow> if b then loop step s' else Some (Val (), s')
      | (Fail e, s') \<Rightarrow> Some (Fail e, s')
      | (Crash c, s') \<Rightarrow> Some (Crash c, s')) = Some y"
  obtain q s' where st: "step s = (q, s')" by fastforce
  show "\<exists>n r. max_steps step n s = (r, snd y) \<and> finished r \<and> fst y = as_run_result r"
  proof (cases "q = Val True")
    case True
    with run st have "loop step s' = Some y" by simp
    then have "\<exists>n r. max_steps step n s' = (r, snd y) \<and> finished r \<and> fst y = as_run_result r"
      by (rule IH)
    then obtain n r where n: "max_steps step n s' = (r, snd y)"
      and r: "finished r" "fst y = as_run_result r" by blast
    from n have "max_steps step (Suc n) s = (r, snd y)" using st True by simp
    with r show ?thesis by blast
  next
    case False
    define r where "r = (if q = Val False then Val True else q)"
    have "max_steps step (Suc 0) s = (r, snd y) \<and> finished r \<and> fst y = as_run_result r"
      using run st False
      by (cases q) (auto simp: r_def finished_def as_run_result_def split: if_splits)
    then show ?thesis by blast
  qed
qed

lemma max_steps_of_run_loop:
  "run_loop step s = Some (r, t) \<Longrightarrow>
     \<exists>n r'. max_steps step n s = (r', t) \<and> finished r' \<and> r = as_run_result r'"
  using max_steps_of_run_loop_pair [of step s "(r, t)"] by simp

lemma max_steps_mono:
  "max_steps step n s = (r, t) \<Longrightarrow> finished r \<Longrightarrow> n \<le> k \<Longrightarrow> max_steps step k s = (r, t)"
proof (induction n arbitrary: s k)
  case 0
  then show ?case by (simp add: finished_def)
next
  case (Suc n)
  then obtain k' where k: "k = Suc k'" "n \<le> k'" by (cases k) auto
  show ?case using Suc k by (auto split: prod.splits out.splits if_splits)
qed

lemma max_steps_split:
  "max_steps step (n + k) s =
     (case max_steps step n s of
        (Val False, s') \<Rightarrow> max_steps step k s' | (r, s') \<Rightarrow> (r, s'))"
proof (induction n arbitrary: s)
  case 0
  then show ?case by simp
next
  case (Suc n)
  then show ?case by (auto split: prod.splits out.splits if_splits)
qed

lemma max_steps_invariant:
  assumes "keeps I step"
  shows "keeps I (max_steps step n)"
proof (induction n)
  case 0
  then show ?case by (simp add: keeps_def)
next
  case (Suc n)
  show ?case
    unfolding keeps_def
  proof (intro allI impI)
    fix s assume "I s"
    then have "I (snd (step s))" by (rule keepsD [OF assms])
    then show "I (snd (max_steps step (Suc n) s))"
      using keepsD [OF Suc.IH] by (auto split: prod.splits out.splits if_splits)
  qed
qed

subsection \<open>The contract of a step function\<close>

text \<open>
  What the drivers rely on: a halted machine answers \<open>Ok(false)\<close> and does not change, a
  machine that answers \<open>Ok(false)\<close> is halted, one that answers \<open>Ok(true)\<close> is not.
\<close>

locale stepper =
  fixes step :: "('s, bool) comp" and halted :: "'s \<Rightarrow> bool"
  assumes halted_stays: "halted s \<Longrightarrow> step s = (Val False, s)"
    and stop_halted: "step s = (Val False, t) \<Longrightarrow> halted t"
begin

lemma halted_absorbing: "halted s \<Longrightarrow> max_steps step (Suc n) s = (Val True, s)"
  by (simp add: halted_stays)

lemma run_halted: "halted s \<Longrightarrow> run_loop step s = Some (Val (), s)"
  by (subst run_loop.simps) (simp add: halted_stays)

lemma run_ends_halted:
  assumes "run_loop step s = Some (Val (), t)"
  shows "halted t"
proof -
  obtain n r where n: "max_steps step n s = (r, t)" "finished r" "Val () = as_run_result r"
    using max_steps_of_run_loop [OF assms] by blast
  then have "r = Val True" by (cases r) (auto simp: finished_def as_run_result_def)
  with n(1) have "max_steps step n s = (Val True, t)" by simp
  then show ?thesis
  proof (induction n arbitrary: s)
    case 0
    then show ?case by simp
  next
    case (Suc n)
    obtain q s' where st: "step s = (q, s')" by fastforce
    show ?case
    proof (cases "q = Val False")
      case True
      with st Suc.prems have "step s = (Val False, t)" by simp
      then show ?thesis by (rule stop_halted)
    next
      case False
      with st Suc.prems have "max_steps step n s' = (Val True, t)"
        by (cases q) (auto split: if_splits)
      then show ?thesis by (rule Suc.IH)
    qed
  qed
qed

text \<open>Running again after the end changes nothing.\<close>

lemma run_idempotent:
  "run_loop step s = Some (Val (), t) \<Longrightarrow> run_loop step t = Some (Val (), t)"
  by (rule run_halted, rule run_ends_halted)

text \<open>The two drivers agree: the bounded one reports the end exactly when \<open>run\<close> returns.\<close>

lemma run_iff_max_steps:
  "run_loop step s = Some (Val (), t) \<longleftrightarrow> (\<exists>n. max_steps step n s = (Val True, t))"
proof
  assume "run_loop step s = Some (Val (), t)"
  from max_steps_of_run_loop [OF this] obtain n r
    where "max_steps step n s = (r, t)" "finished r" "Val () = as_run_result r" by blast
  moreover from this have "r = Val True" by (cases r) (auto simp: finished_def as_run_result_def)
  ultimately show "\<exists>n. max_steps step n s = (Val True, t)" by auto
next
  assume "\<exists>n. max_steps step n s = (Val True, t)"
  then obtain n where "max_steps step n s = (Val True, t)" by blast
  from run_loop_of_max_steps [OF this] show "run_loop step s = Some (Val (), t)"
    by (simp add: finished_def as_run_result_def)
qed

end

end
