(* ===== verification/Interp.thy ===== *)
theory Interp
  imports Interp_Branch Interp_VecMem Interp_Float Interp_Bitfield Interp_Vector_Lanes Syscall
    Stepper
begin

text \<open>
  \<open>Interpreter::step\<close> of \<open>interp/mod.rs\<close>: fetch, decode, dispatch to the handlers of the
  other \<open>Interp_\<close> theories, and the write of the next pc; the drivers \<open>run\<close>,
  \<open>run_max_steps\<close> and \<open>step_with_thunk_lookup\<close>.
\<close>

unbundle bit_operations_syntax

subsection \<open>Parameters of a run\<close>

text \<open>
  Whether overflow checks are compiled in, the floating-point unit, the disassembler and
  the host's libc.
\<close>

record ('h, 'x) env =
  env_oc :: bool
  env_fpu :: fpu
  env_dis :: "'x bad64"
  env_libc :: "'h libc"

subsection \<open>One instruction\<close>

text \<open>
  The \<open>match inst.op()\<close>. The result is the next pc; \<open>None\<close> is the early
  \<open>return Ok(false)\<close> of an SVC after which the program has exited.
\<close>

definition exec_SVC :: "('h, 'x) env \<Rightarrow> u64 \<Rightarrow> ('h machine, u64 option) comp" where
  "exec_SVC E next_pc =
     bind (\<lambda>m. handle_syscall_for_os (env_oc E) (env_libc E) (ctx_target_os (ctx m)) m) (\<lambda>_.
     gets (\<lambda>m. if ctx_exited (ctx m) then None else Some next_pc))"

text \<open>An arm that changes the registers only, and one that leaves the next pc alone.\<close>

definition on_regs :: "(cpu_context \<Rightarrow> cpu_context out) \<Rightarrow> u64 \<Rightarrow> ('h machine, u64 option) comp" where
  "on_regs f next_pc = bind (on_ctx_out f) (\<lambda>_. ret (Some next_pc))"

fun execute ::
  "('h, 'x) env \<Rightarrow> u64 \<Rightarrow> 'x instruction \<Rightarrow> u64 \<Rightarrow> ('h machine, u64 option) comp" where
  "execute E pc inst next_pc =
     (let oc = env_oc E; D = env_dis E; ops = inst_operands inst
      in case inst_op inst of
        Op_arith opc \<Rightarrow> on_regs (exec_arith oc D opc ops) next_pc
      | Op_branch opc \<Rightarrow> bind (exec_branch oc D opc pc ops next_pc) (\<lambda>np. ret (Some np))
      | Op_mem opc \<Rightarrow> bind (exec_mem oc D pc opc ops) (\<lambda>_. ret (Some next_pc))
      | Op_cond opc \<Rightarrow> on_regs (exec_cond oc D opc ops) next_pc
      | Op_logic opc \<Rightarrow> on_regs (exec_logic oc D opc ops) next_pc
      | Op_vec opc \<Rightarrow> on_regs (exec_vec oc D opc ops) next_pc
      | Op_fp opc \<Rightarrow> on_regs (\<lambda>c. Val (exec_fp (env_fpu E) D opc ops c)) next_pc
      | Op_sys opc \<Rightarrow> if opc = SVC then exec_SVC E next_pc else ret (Some next_pc)
      | Op_other name \<Rightarrow> lift (Fail (InterpreterError pc (''Unimplemented opcode '' @ name) None)))"

declare execute.simps [simp del]

subsection \<open>Fetch, decode, step\<close>

definition set_pc :: "u64 \<Rightarrow> ('h machine, unit) comp" where
  "set_pc p = on_ctx (\<lambda>c. c\<lparr>ctx_pc := p\<rparr>)"

text \<open>\<open>ctx.pc = pc + 4; return Ok(true)\<close>.\<close>

definition skip_insn :: "bool \<Rightarrow> u64 \<Rightarrow> ('h machine, bool) comp" where
  "skip_insn oc pc = bind (lift (ck_add oc pc 4)) (\<lambda>np. bind (set_pc np) (\<lambda>_. ret True))"

definition is_dc_zva :: "u32 \<Rightarrow> bool" where
  "is_dc_zva ins \<longleftrightarrow> ins AND 0xfffffe00 = 0xd50b7400"

text \<open>DC ZVA clears 64 bytes from the register's address rounded down; a failed write is ignored.\<close>

definition exec_DC_ZVA :: "bool \<Rightarrow> u64 \<Rightarrow> u32 \<Rightarrow> ('h machine, bool) comp" where
  "exec_DC_ZVA oc pc ins =
     bind (gets (\<lambda>m. get_x (ctx m) (unat (ins AND 0x1f)) AND NOT 63)) (\<lambda>addr.
     bind (ignore_err (store oc addr (replicate 64 0))) (\<lambda>_. skip_insn oc pc))"

text \<open>Words of the system hint space that do not decode are skipped.\<close>

definition is_hint :: "u32 \<Rightarrow> bool" where
  "is_hint ins \<longleftrightarrow> ins AND 0xfffff01f = 0xd503201f \<or> ins AND 0xfff00000 = 0xd5000000"

definition run_insn :: "('h, 'x) env \<Rightarrow> u64 \<Rightarrow> u32 \<Rightarrow> ('h machine, bool) comp" where
  "run_insn E pc ins =
     (case Decoder_decode (env_dis E) ins pc of
        Fail e \<Rightarrow> if is_hint ins then skip_insn (env_oc E) pc else lift (Fail e)
      | Crash a \<Rightarrow> lift (Crash a)
      | Val inst \<Rightarrow>
          bind (lift (ck_add (env_oc E) pc 4)) (\<lambda>next_pc.
          bind (execute E pc inst next_pc) (\<lambda>np.
            case np of
              None \<Rightarrow> ret False
            | Some p \<Rightarrow> bind (set_pc p) (\<lambda>_. ret True))))"

definition step :: "('h, 'x) env \<Rightarrow> ('h machine, bool) comp" where
  "step E m =
     (if ctx_exited (ctx m) then (Val False, m)
      else let pc = ctx_pc (ctx m)
           in bind (load_m (env_oc E) pc pc 4) (\<lambda>ins_bytes.
                let ins = (from_le_bytes ins_bytes :: u32)
                in if is_dc_zva ins then exec_DC_ZVA (env_oc E) pc ins
                   else run_insn E pc ins) m)"

subsection \<open>Drivers\<close>

definition run :: "('h, 'x) env \<Rightarrow> 'h machine \<Rightarrow> (unit out \<times> 'h machine) option" where
  "run E m = run_loop (step E) m"

definition run_max_steps :: "('h, 'x) env \<Rightarrow> nat \<Rightarrow> ('h machine, bool) comp" where
  "run_max_steps E n = max_steps (step E) n"

text \<open>
  The trace of \<open>step_with_thunk_lookup\<close> reads two strings at one pc; a failed read gives
  the empty string.
\<close>

definition thunk_trace :: "bool \<Rightarrow> u64 \<Rightarrow> ('h machine, unit) comp" where
  "thunk_trace oc pc =
     (if pc = 0x4cffb4
      then bind (ignore_err (\<lambda>m. (read_string oc (mem m) (get_x (ctx m) 25), m)))
             (\<lambda>_. ignore_err (\<lambda>m. (read_string oc (mem m) (get_x (ctx m) 0), m)))
      else ret ())"

type_synonym 'h thunk = "'h machine \<Rightarrow> (string + unit) \<times> 'h machine"

definition step_with_thunk_lookup ::
  "('h, 'x) env \<Rightarrow> (u64 \<Rightarrow> 'h thunk option) \<Rightarrow> ('h machine, bool) comp" where
  "step_with_thunk_lookup E thunk_lookup m =
     (if ctx_exited (ctx m) then (Val False, m)
      else let pc = ctx_pc (ctx m)
           in bind (thunk_trace (env_oc E) pc) (\<lambda>_ m.
                case thunk_lookup pc of
                  None \<Rightarrow> step E m
                | Some thunk_fn \<Rightarrow>
                    (case thunk_fn m of
                       (Inl e, m') \<Rightarrow> (Fail (InterpreterError pc e None), m')
                     | (Inr _, m') \<Rightarrow>
                         if ctx_exited (ctx m') then (Val False, m')
                         else if ctx_pc (ctx m') = pc
                              then (Val True, m'\<lparr>ctx := (ctx m')\<lparr>ctx_pc := get_x (ctx m') 30\<rparr>\<rparr>)
                              else (Val True, m'))) m)"

subsection \<open>The step function meets the contract of the drivers\<close>

lemma bind_Val_False:
  "bind m f s = (Val False, t) \<Longrightarrow> \<exists>a s'. m s = (Val a, s') \<and> f a s' = (Val False, t)"
  by (auto simp: bind_def split: prod.splits out.splits)

lemma skip_insn_True: "skip_insn oc pc m \<noteq> (Val False, t)"
  by (auto simp: skip_insn_def dest!: bind_Val_False)

lemma execute_None:
  assumes "execute E pc inst np m = (Val None, t)"
  shows "ctx_exited (ctx t)"
  using assms
  by (cases "inst_op inst")
    (auto simp: execute.simps Let_def on_regs_def exec_SVC_def bind_def
      split: prod.splits out.splits if_splits)

lemma step_stop_exited:
  assumes "step E m = (Val False, t)"
  shows "ctx_exited (ctx t)"
  using assms
  by (auto simp: step_def run_insn_def exec_DC_ZVA_def skip_insn_True execute_None Let_def
      split: if_splits out.splits option.splits dest!: bind_Val_False)

interpretation st: stepper "step E" "\<lambda>m. ctx_exited (ctx m)" for E
  by unfold_locales (simp add: step_def, rule step_stop_exited)

interpretation th: stepper "step_with_thunk_lookup E T" "\<lambda>m. ctx_exited (ctx m)"
  for E :: "('h, 'x) env" and T
proof unfold_locales
  fix m :: "'h machine" assume "ctx_exited (ctx m)"
  then show "step_with_thunk_lookup E T m = (Val False, m)"
    by (simp add: step_with_thunk_lookup_def)
next
  fix m t :: "'h machine" assume "step_with_thunk_lookup E T m = (Val False, t)"
  then show "ctx_exited (ctx t)"
    by (auto simp: step_with_thunk_lookup_def Let_def step_stop_exited
        split: if_splits option.splits sum.splits prod.splits dest!: bind_Val_False)
qed

end
