(* ===== verification/Machine_Wf.thy ===== *)
theory Machine_Wf
  imports Handlers_Wf Interp Memory_Props
begin

text \<open>
  Invariants of whole steps: the register file stays well-formed under every step,
  system calls included, and a memory write keeps the segments, the break, the kernel, the
  output and the accessibility of host memory.
\<close>

subsection \<open>Primitive steps\<close>

text \<open>A property of the register file, and one of the memory system, as machine invariants.\<close>

abbreviation on_cpu :: "(cpu_context \<Rightarrow> bool) \<Rightarrow> 'h machine \<Rightarrow> bool" where
  "on_cpu P m \<equiv> P (ctx m)"

abbreviation on_mem :: "('h sys \<Rightarrow> bool) \<Rightarrow> 'h machine \<Rightarrow> bool" where
  "on_mem P m \<equiv> P (mem m)"

lemma keeps_on_ctx_cpu [keeps_intros]:
  "(\<And>c. P c \<Longrightarrow> P (f c)) \<Longrightarrow> keeps (on_cpu P) (on_ctx f)"
  by (simp add: keeps_def on_ctx_def)

lemma keeps_on_ctx_mem [keeps_intros]: "keeps (on_mem P) (on_ctx f)"
  by (simp add: keeps_def on_ctx_def)

lemma keeps_on_ctx_out_cpu [keeps_intros]:
  "(\<And>c c'. P c \<Longrightarrow> f c = Val c' \<Longrightarrow> P c') \<Longrightarrow> keeps (on_cpu P) (on_ctx_out f)"
  by (auto simp: keeps_def on_ctx_out_def split: out.split)

lemma keeps_on_ctx_out_mem [keeps_intros]: "keeps (on_mem P) (on_ctx_out f)"
  by (auto simp: keeps_def on_ctx_out_def split: out.split)

lemma keeps_ctx_comp_cpu [keeps_intros]: "keeps P f \<Longrightarrow> keeps (on_cpu P) (ctx_comp f)"
  by (simp add: keeps_def ctx_comp_def case_prod_beta)

lemma keeps_ctx_comp_mem [keeps_intros]: "keeps (on_mem P) (ctx_comp f)"
  by (auto simp: keeps_def ctx_comp_def split: prod.split)

lemma keeps_mem_comp_mem [keeps_intros]: "keeps P f \<Longrightarrow> keeps (on_mem P) (mem_comp f)"
  by (simp add: keeps_def mem_comp_def case_prod_beta)

lemma keeps_mem_comp_cpu [keeps_intros]: "keeps (on_cpu P) (mem_comp f)"
  by (auto simp: keeps_def mem_comp_def split: prod.split)

lemma keeps_load [keeps_intros]: "keeps I (load oc a n)"
  by (simp add: keeps_def load_def)

lemma keeps_store_cpu [keeps_intros]: "keeps (on_cpu P) (store oc a bs)"
  unfolding store_def by (rule keeps_mem_comp_cpu)

lemma keeps_load_m [keeps_intros]: "keeps I (load_m oc pc a n)"
  unfolding load_m_def by (intro keeps_intros)

lemma keeps_store_m [keeps_intros]: "keeps I (store oc a bs) \<Longrightarrow> keeps I (store_m oc pc a bs)"
  unfolding store_m_def by (intro keeps_intros)

lemma keeps_pure [keeps_intros]: "keeps I (\<lambda>m. (f m, m))"
  by (simp add: keeps_def)

lemma keeps_operand_val [keeps_intros]: "keeps I (operand_val D op)"
  unfolding operand_val_def by (rule keeps_gets)

subsection \<open>Memory accesses keep host memory mapped\<close>

text \<open>The part of the system state that no load or store changes.\<close>

definition same_map :: "'h sys \<Rightarrow> 'h sys \<Rightarrow> bool" where
  "same_map s t \<longleftrightarrow> segments t = segments s \<and> brk_base t = brk_base s \<and>
     brk_current t = brk_current s \<and> brk_mapped_end t = brk_mapped_end s \<and>
     mmap_current t = mmap_current s \<and> kernel t = kernel s \<and> stdout t = stdout s \<and>
     (\<forall>p. map_option (\<lambda>c. (cell_rd c, cell_wr c)) (host_mem t p) =
          map_option (\<lambda>c. (cell_rd c, cell_wr c)) (host_mem s p))"

lemma same_map_refl [simp]: "same_map s s"
  by (simp add: same_map_def)

lemma hstore_access:
  "hstore hm p bs = Some hm' \<Longrightarrow>
     map_option (\<lambda>c. (cell_rd c, cell_wr c)) (hm' q) = map_option (\<lambda>c. (cell_rd c, cell_wr c)) (hm q)"
  by (induction hm p bs rule: hstore.induct) (auto split: option.splits if_splits)

lemma write_loop_access:
  "write_loop oc segs a data k hm = (r, hm') \<Longrightarrow>
     map_option (\<lambda>c. (cell_rd c, cell_wr c)) (hm' q) = map_option (\<lambda>c. (cell_rd c, cell_wr c)) (hm q)"
proof (induction "length data - k" arbitrary: k hm rule: less_induct)
  case less
  from less.prems consider "hm' = hm"
    | p bs n hm1 where "k < length data" "0 < n" "hstore hm p bs = Some hm1"
        "write_loop oc segs a data (k + n) hm1 = (r, hm')"
    unfolding write_loop.simps [of oc segs a data k hm] Let_def
    by (auto split: if_splits out.splits option.splits prod.splits)
  then show ?case
  proof cases
    case 1
    then show ?thesis by simp
  next
    case 2
    then have "length data - (k + n) < length data - k" by linarith
    from less.hyps [OF this 2(4)] hstore_access [OF 2(3)] show ?thesis by simp
  qed
qed

lemma keeps_same_map_write: "keeps (same_map s) (mem_write oc a bs)"
proof -
  have "same_map s (snd (mem_write oc a bs t))" if "same_map s t" for t
  proof -
    obtain hm where w: "snd (mem_write oc a bs t) = t\<lparr>host_mem := hm\<rparr>"
      and acc: "\<And>q. map_option (\<lambda>c. (cell_rd c, cell_wr c)) (hm q) =
        map_option (\<lambda>c. (cell_rd c, cell_wr c)) (host_mem t q)"
    proof (cases "RAW_BASE \<le> a")
      case True
      show ?thesis
      proof (cases "hstore (host_mem t) a bs")
        case None
        then have "snd (mem_write oc a bs t) = t\<lparr>host_mem := host_mem t\<rparr>"
          using True by (simp add: mem_write_def)
        then show ?thesis by (rule that) simp
      next
        case (Some hm)
        then have "snd (mem_write oc a bs t) = t\<lparr>host_mem := hm\<rparr>"
          using True by (simp add: mem_write_def)
        then show ?thesis by (rule that) (rule hstore_access [OF Some])
      qed
    next
      case False
      obtain r hm where l: "write_loop oc (segments t) a bs 0 (host_mem t) = (r, hm)" by fastforce
      then have "snd (mem_write oc a bs t) = t\<lparr>host_mem := hm\<rparr>"
        using False by (simp add: mem_write_def)
      then show ?thesis by (rule that) (rule write_loop_access [OF l])
    qed
    with that show ?thesis by (simp add: same_map_def)
  qed
  then show ?thesis by (simp add: keeps_def)
qed

lemma same_map_cell:
  assumes "same_map s t" and "host_mem s p = Some (Cell b True True)"
  shows "\<exists>b'. host_mem t p = Some (Cell b' True True)"
proof -
  from assms have "map_option (\<lambda>c. (cell_rd c, cell_wr c)) (host_mem t p) = Some (True, True)"
    by (simp add: same_map_def)
  then obtain c where "host_mem t p = Some c" "cell_rd c" "cell_wr c" by auto
  then show ?thesis by (cases c) auto
qed

lemma same_map_wf_seg:
  assumes "same_map s t" and "wf_seg (host_mem s) sg"
  shows "wf_seg (host_mem t) sg"
  using assms(2) same_map_cell [OF assms(1)] unfolding wf_seg_def by blast

lemma same_map_wf_mem: "same_map s t \<Longrightarrow> wf_mem s \<Longrightarrow> wf_mem t"
  using same_map_wf_seg [of s t] by (simp add: wf_mem_def same_map_def)

subsection \<open>Address computation\<close>

lemma wf_eval_mem_addr: "keeps wf_cpu (eval_mem_addr oc D op)"
proof -
  have "wf_cpu (snd (eval_mem_addr oc D op c))" if "wf_cpu c" for c
    using that by (cases op) (auto simp: Let_def bind_def split: out.split option.split)
  then show ?thesis by (simp add: keeps_def)
qed

lemma keeps_with_addr_cpu [keeps_intros]:
  "(\<And>a. keeps (on_cpu wf_cpu) (f a)) \<Longrightarrow> keeps (on_cpu wf_cpu) (with_addr oc D op f)"
  unfolding with_addr_def by (intro keeps_intros wf_eval_mem_addr)

lemma keeps_with_addr_mem [keeps_intros]:
  "(\<And>a. keeps (on_mem P) (f a)) \<Longrightarrow> keeps (on_mem P) (with_addr oc D op f)"
  unfolding with_addr_def by (intro keeps_intros)

lemma keeps_with_reg [keeps_intros]:
  "(\<And>r. keeps I (f r)) \<Longrightarrow> keeps I (with_reg ops f)"
  unfolding with_reg_def by (intro keeps_intros)

lemma keeps_set_reg_cpu [keeps_intros]: "keeps (on_cpu wf_cpu) (set_reg D r v)"
  unfolding set_reg_def by (intro keeps_intros) simp

lemma keeps_set_reg_mem [keeps_intros]: "keeps (on_mem P) (set_reg D r v)"
  unfolding set_reg_def by (intro keeps_intros)

subsection \<open>A read returns as many bytes as it was asked for\<close>

lemma read_loop_length:
  "read_loop oc segs hm a len k buf = Val bs \<Longrightarrow> length buf = len \<Longrightarrow> length bs = len"
proof (induction "len - k" arbitrary: k buf rule: less_induct)
  case less
  from less.prems consider "bs = buf"
    | sg cur p d where "k < len" "0 < chunk_len sg cur (len - k)"
        "hload hm p (chunk_len sg cur (len - k)) = Some d"
        "read_loop oc segs hm a len (k + chunk_len sg cur (len - k)) (copy_at k d buf) = Val bs"
    unfolding read_loop.simps [of oc segs hm a len k buf] Let_def out_of_bounds_def
    by (auto simp: bindO_Val_iff split: if_splits out.splits option.splits prod.splits)
  then show ?case
  proof cases
    case 1
    with less.prems show ?thesis by simp
  next
    case 2
    have "chunk_len sg cur (len - k) \<le> len - k" by (simp add: chunk_len_def)
    then have "length (copy_at k d buf) = len"
      using 2 less.prems length_hload [OF 2(3)] by simp
    moreover have "len - (k + chunk_len sg cur (len - k)) < len - k" using 2 by linarith
    ultimately show ?thesis using less.hyps 2(4) by blast
  qed
qed

lemma mem_read_length: "mem_read oc m a len = Val bs \<Longrightarrow> length bs = unat len"
  by (auto simp: mem_read_def Let_def bindO_Val_iff dest: length_hload read_loop_length
      split: if_splits option.splits)

lemma load_m_length: "load_m oc pc a n m = (Val b, m') \<Longrightarrow> length b = unat n"
  by (auto simp: load_m_def load_def map_err_def dest: mem_read_length split: out.splits)

text \<open>The length is available to what follows the load.\<close>

lemma keeps_bind_load_m:
  assumes "\<And>b. length b = unat n \<Longrightarrow> keeps I (f b)"
  shows "keeps I (bind (load_m oc pc a n) f)"
  unfolding keeps_def
proof (intro allI impI)
  fix s assume s: "I s"
  have st: "snd (load_m oc pc a n s) = s" by (simp add: load_m_def load_def)
  show "I (snd (bind (load_m oc pc a n) f s))"
  proof (cases "fst (load_m oc pc a n s)")
    case (Val b)
    with st have l: "load_m oc pc a n s = (Val b, s)" by (simp add: prod_eq_iff)
    from keepsD [OF assms [OF load_m_length [OF l]] s] show ?thesis by (simp add: bind_def l)
  qed (use s st in \<open>auto simp: bind_def split: prod.splits\<close>)
qed

lemma reg_size_le: "reg_size D r \<le> 16"
  by (simp add: reg_size_def Let_def)

lemma unat_reg_size [simp]: "unat (of_nat (reg_size D r) :: u64) = reg_size D r"
  using reg_size_le [of D r] by (simp add: unsigned_of_nat take_bit_eq_mod)

lemma keeps_set_vec_low_cpu [keeps_intros]:
  "length b \<le> 16 \<Longrightarrow> keeps (on_cpu wf_cpu) (set_vec_low i b)"
  unfolding set_vec_low_def by (intro keeps_intros) simp

lemma keeps_set_vec_low_mem [keeps_intros]: "keeps (on_mem P) (set_vec_low i b)"
  unfolding set_vec_low_def by (intro keeps_intros)

subsection \<open>Loads and stores\<close>

lemmas load_store_defs =
  exec_LDR_def exec_LDRSW_def exec_LDRH_def exec_LDRSH_def exec_LDRB_def exec_LDRSB_def
  exec_LDP_def exec_STR_def exec_STXR_def exec_STXRB_def exec_STRH_def exec_STRB_def exec_STP_def

lemma keeps_case_prod_options [keeps_intros]:
  "(\<And>a b. x = Some a \<Longrightarrow> y = Some b \<Longrightarrow> keeps I (f a b)) \<Longrightarrow> keeps I g \<Longrightarrow>
     keeps I (case (x, y) of (Some a, Some b) \<Rightarrow> f a b | _ \<Rightarrow> g)"
  by (cases x; cases y) simp_all

lemma keeps_Let [keeps_intros]: "keeps I (f a) \<Longrightarrow> keeps I (Let a f)"
  by simp

lemma keeps_case_prod [keeps_intros]: "(\<And>a b. keeps I (f a b)) \<Longrightarrow> keeps I (case x of (a, b) \<Rightarrow> f a b)"
  by (cases x) simp

lemma scalar_mem_keeps_cpu:
  "keeps (on_cpu wf_cpu) (exec_LDR oc D pc ops)" "keeps (on_cpu wf_cpu) (exec_LDRSW oc D pc ops)"
  "keeps (on_cpu wf_cpu) (exec_LDRH oc D pc ops)" "keeps (on_cpu wf_cpu) (exec_LDRSH oc D pc ops)"
  "keeps (on_cpu wf_cpu) (exec_LDRB oc D pc ops)" "keeps (on_cpu wf_cpu) (exec_LDRSB oc D pc ops)"
  "keeps (on_cpu wf_cpu) (exec_LDP oc D pc ops)" "keeps (on_cpu wf_cpu) (exec_STR oc D pc ops)"
  "keeps (on_cpu wf_cpu) (exec_STXR oc D pc ops)" "keeps (on_cpu wf_cpu) (exec_STXRB oc D pc ops)"
  "keeps (on_cpu wf_cpu) (exec_STRH oc D pc ops)" "keeps (on_cpu wf_cpu) (exec_STRB oc D pc ops)"
  "keeps (on_cpu wf_cpu) (exec_STP oc D pc ops)"
  unfolding load_store_defs
  by (intro keeps_intros keeps_bind_load_m; simp add: reg_size_le)+

subsection \<open>Structure loads and stores\<close>

lemma keeps_post_index_cpu [keeps_intros]: "keeps (on_cpu wf_cpu) (post_index oc D ops d z)"
  unfolding post_index_def by (intro keeps_intros)

lemma keeps_post_index_mem [keeps_intros]: "keeps (on_mem P) (post_index oc D ops d z)"
  unfolding post_index_def by (intro keeps_intros)

lemma length_concat_replicate: "length (concat (replicate k b)) = k * length b"
  by (induction k) simp_all

lemma keeps_ld1_regs_cpu:
  assumes "esz \<in> {1, 2, 4, 8}" and "sz \<le> 16"
  shows "keeps (on_cpu wf_cpu) (ld1_regs oc pc repl esz sz regs addr)"
proof (induction regs arbitrary: addr)
  case Nil
  then show ?case by (simp add: keeps_intros)
next
  case (Cons r regs)
  have e: "16 div esz * esz = 16" using assms(1) by auto
  have u: "unat (of_nat esz :: u64) = esz" "unat (of_nat sz :: u64) = sz"
    using assms by (auto simp: unsigned_of_nat take_bit_eq_mod)
  show ?case
    unfolding ld1_regs.simps
    by (intro keeps_if keeps_bind_load_m keeps_bind keeps_option keeps_ret keeps_lift Cons.IH
        keeps_on_ctx_cpu keeps_set_vec_low_cpu)
      (simp_all add: length_concat_replicate u e assms(2))
qed

lemma keeps_ld1_regs_mem: "keeps (on_mem P) (ld1_regs oc pc repl esz sz regs addr)"
proof (induction regs arbitrary: addr)
  case Nil
  then show ?case by (simp add: keeps_intros)
next
  case (Cons r regs)
  then show ?case unfolding ld1_regs.simps by (intro keeps_intros)
qed

lemma keeps_st1_regs_cpu: "keeps (on_cpu P) (st1_regs oc pc sz regs addr)"
proof (induction regs arbitrary: addr)
  case Nil
  then show ?case by (simp add: keeps_intros)
next
  case (Cons r regs)
  then show ?case unfolding st1_regs.simps by (intro keeps_intros)
qed

lemma length_deinterleave:
  assumes "length v = 16"
  shows "length (deinterleave n r data v) = 16"
proof -
  have "length (fold (\<lambda>elem v. let src_off = (elem * n + r) * 4
         in if src_off + 4 \<le> length data then copy_at (elem * 4) (slice_at src_off 4 data) v else v) es v) = 16"
    if "set es \<subseteq> {0..<4}" for es
    using that assms by (induction es arbitrary: v) (auto simp: Let_def)
  then show ?thesis by (simp add: deinterleave_def)
qed

lemma wf_ldn_regs:
  assumes "wf_cpu c"
  shows "wf_cpu (ldn_regs regs data c)"
proof -
  have "wf_cpu (fold (\<lambda>r_idx c. case v_reg_idx (regs ! r_idx) of
         None \<Rightarrow> c
       | Some v_idx \<Rightarrow> set_v_bytes v_idx (deinterleave (length regs) r_idx data (ctx_v c ! v_idx)) c) is c)"
    for "is"
    using assms
    by (induction "is" arbitrary: c)
      (auto simp: wf_cpu_v v_reg_idx_bound length_deinterleave split: option.split)
  then show ?thesis by (simp add: ldn_regs_def)
qed

lemma vec_mem_keeps_cpu:
  "keeps (on_cpu wf_cpu) (exec_LD1 oc D pc repl ops)" "keeps (on_cpu wf_cpu) (exec_ST1 oc D pc ops)"
  "keeps (on_cpu wf_cpu) (exec_LDn oc D ops)"
  unfolding exec_LD1_def exec_ST1_def exec_LDn_def
  by (intro keeps_intros keeps_ld1_regs_cpu keeps_st1_regs_cpu wf_ldn_regs get_vec_elem_size_cases;
      simp)+

lemma exec_mem_keeps_cpu: "keeps (on_cpu wf_cpu) (exec_mem oc D pc opc ops)"
  by (cases opc; simp add: scalar_mem_keeps_cpu vec_mem_keeps_cpu)

subsection \<open>Branches\<close>

lemma exec_branch_keeps_cpu: "keeps (on_cpu wf_cpu) (exec_branch oc D opc pc ops np)"
proof -
  have bl: "keeps wf_cpu (exec_BL oc D pc ops np)"
    unfolding exec_BL_def by (intro keeps_intros) simp
  show ?thesis using keeps_ctx_comp_cpu [OF bl] by (cases opc) (simp_all add: keeps_def)
qed

lemma exec_branch_keeps_mem: "keeps (on_mem P) (exec_branch oc D opc pc ops np)"
  by (cases opc) (simp_all add: keeps_def ctx_comp_def case_prod_beta)

subsection \<open>System calls keep the register file well-formed\<close>

lemma keeps_arg [keeps_intros]: "keeps I (arg n)" "keeps I (arg32 n)" "keeps I (host_state f)"
  by (simp_all add: arg_def arg32_def host_state_def)

lemma keeps_finish [keeps_intros]: "keeps (on_cpu wf_cpu) (finish v)"
  unfolding finish_def by (intro keeps_intros) simp

lemma keeps_host [keeps_intros]:
  "keeps (on_cpu P) (call_host K q)" "keeps (on_cpu P) (query_host K hq b l)"
  unfolding call_host_def query_host_def by (intro keeps_intros)+

lemma keeps_check_ret [keeps_intros]:
  "keeps (on_cpu wf_cpu) f \<Longrightarrow> keeps (on_cpu wf_cpu) (check_ret oc K r f)"
  unfolding check_ret_def by (intro keeps_intros)

lemma keeps_write_guest [keeps_intros]: "keeps (on_cpu P) (write_guest oc a bs)"
  unfolding write_guest_def by (intro keeps_intros)

lemma keeps_read_path [keeps_intros]: "keeps I (read_path oc p)"
  unfolding read_path_def by (intro keeps_intros)

lemma keeps_store_query [keeps_intros]: "keeps (on_cpu wf_cpu) (store_query oc a l b n)"
  unfolding store_query_def by (intro keeps_intros)

lemma keeps_set_exited [keeps_intros]: "keeps (on_cpu wf_cpu) (set_exited code)"
  unfolding set_exited_def by (intro keeps_intros) simp

lemma shared_calls_keep_cpu [keeps_intros]:
  "keeps (on_cpu wf_cpu) sys_exit" "keeps (on_cpu wf_cpu) (sys_write oc)"
  "keeps (on_cpu wf_cpu) (sys_mmap K)"
  unfolding sys_exit_def sys_write_def sys_mmap_def by (intro keeps_intros)+

lemma linux_calls_keep_cpu [keeps_intros]:
  "keeps (on_cpu wf_cpu) (linux_statfs oc)" "keeps (on_cpu wf_cpu) (linux_socket oc L)"
  "keeps (on_cpu wf_cpu) (linux_sockaddr oc L q)" "keeps (on_cpu wf_cpu) (linux_listen oc L)"
  "keeps (on_cpu wf_cpu) (linux_setsockopt oc L)" "keeps (on_cpu wf_cpu) (linux_getsockopt oc L)"
  "keeps (on_cpu wf_cpu) (linux_symlink oc L)" "keeps (on_cpu wf_cpu) (linux_kill oc L)"
  "keeps (on_cpu wf_cpu) (linux_clone oc L)" "keeps (on_cpu wf_cpu) (linux_futex oc)"
  "keeps (on_cpu wf_cpu) (linux_fcntl oc L)" "keeps (on_cpu wf_cpu) (linux_close oc L)"
  "keeps (on_cpu wf_cpu) (linux_execve oc)" "keeps (on_cpu wf_cpu) (linux_brk oc K)"
  "keeps (on_cpu wf_cpu) (linux_set_tid_address oc)"
  unfolding linux_statfs_def linux_socket_def linux_sockaddr_def linux_listen_def
    linux_setsockopt_def linux_getsockopt_def linux_symlink_def linux_kill_def linux_clone_def
    linux_futex_def linux_fcntl_def linux_close_def linux_execve_def linux_brk_def
    linux_set_tid_address_def
  by (intro keeps_intros)+

lemma linux_handle_keeps_cpu [keeps_intros]: "keeps (on_cpu wf_cpu) (linux_handle oc L)"
  unfolding linux_handle_def by (intro keeps_intros) simp_all

lemma handle_syscall_keeps_cpu: "keeps (on_cpu wf_cpu) (handle_syscall_for_os oc L os)"
proof (cases os)
  case Darwin
  show ?thesis unfolding Darwin handle_syscall_for_os.simps darwin_handle_def Let_def
    by (intro keeps_intros)
qed (simp_all add: linux_handle_keeps_cpu)

subsection \<open>Instructions and steps\<close>

lemma keeps_on_regs_cpu:
  "(\<And>c. wf_cpu c \<Longrightarrow> wf_out (f c)) \<Longrightarrow> keeps (on_cpu wf_cpu) (on_regs f np)"
  unfolding on_regs_def by (intro keeps_intros) (auto simp: wf_out_def)

lemma keeps_on_regs_mem: "keeps (on_mem P) (on_regs f np)"
  unfolding on_regs_def by (intro keeps_intros)

lemma exec_SVC_keeps_cpu: "keeps (on_cpu wf_cpu) (exec_SVC E np)"
proof -
  have "keeps (on_cpu wf_cpu)
      (\<lambda>m. handle_syscall_for_os (env_oc E) (env_libc E) (ctx_target_os (ctx m)) m)"
    using handle_syscall_keeps_cpu by (auto simp: keeps_def)
  then show ?thesis unfolding exec_SVC_def by (intro keeps_intros)
qed

lemma execute_keeps_cpu: "keeps (on_cpu wf_cpu) (execute E pc inst np)"
  unfolding execute.simps Let_def
  by (cases "inst_op inst")
    (auto intro!: keeps_bind keeps_ret keeps_lift keeps_on_regs_cpu exec_branch_keeps_cpu
      exec_mem_keeps_cpu exec_SVC_keeps_cpu wf_exec_arith wf_exec_cond wf_exec_logic wf_exec_vec
      simp: wf_exec_fp)

lemma keeps_set_pc_cpu [keeps_intros]: "keeps (on_cpu wf_cpu) (set_pc p)"
  unfolding set_pc_def by (intro keeps_intros) simp

lemma keeps_set_pc_mem [keeps_intros]: "keeps (on_mem P) (set_pc p)"
  unfolding set_pc_def by (intro keeps_intros)

lemma run_insn_keeps_cpu: "keeps (on_cpu wf_cpu) (run_insn E pc ins)"
  unfolding run_insn_def skip_insn_def
  by (cases "Decoder_decode (env_dis E) ins pc")
    (auto intro!: keeps_intros execute_keeps_cpu)

lemma exec_DC_ZVA_keeps_cpu: "keeps (on_cpu wf_cpu) (exec_DC_ZVA oc pc ins)"
  unfolding exec_DC_ZVA_def skip_insn_def by (intro keeps_intros)

lemma step_keeps_cpu: "keeps (on_cpu wf_cpu) (step E)"
proof -
  have "keeps (on_cpu wf_cpu) (bind (load_m (env_oc E) pc pc 4) (\<lambda>ins_bytes.
      let ins = (from_le_bytes ins_bytes :: u32)
      in if is_dc_zva ins then exec_DC_ZVA (env_oc E) pc ins else run_insn E pc ins))" for pc
    by (intro keeps_intros exec_DC_ZVA_keeps_cpu run_insn_keeps_cpu)
  then show ?thesis by (auto simp: keeps_def step_def Let_def)
qed

end
