(* ===== verification/Memory_Correct.thy ===== *)
theory Memory_Correct
  imports Memory_Map
begin

text \<open>
  What \<open>MemoryManager\<close> promises its clients, stated on the model of \<open>memory/mod.rs\<close>: reads
  and writes implement the partial byte map of the segments, mapping and the program break
  keep it well-formed. The witnesses run on a small memory.
\<close>

subsection \<open>A small memory\<close>

text \<open>One segment of eight bytes at \<open>0x1000\<close>, backed by the host range at \<open>0x9000\<close>.\<close>

definition demo_seg :: memory_segment where
  "demo_seg = \<lparr>seg_addr = 0x1000, seg_size = 8, seg_prot = Prot True True True, seg_ptr = 0x9000\<rparr>"

definition demo_mem :: "u64 sys" where
  "demo_mem = \<lparr>segments = [demo_seg], brk_base = 0x1000, brk_current = 0x1000,
     brk_mapped_end = 0x1000, mmap_current = 0x700000000000,
     host_mem = (\<lambda>p. if 0x9000 \<le> p \<and> p < 0x9008 then Some (Cell 7 True True) else None),
     kernel = 0x20000, stdout = []\<rparr>"

lemma demo_offset:
  assumes "i < 8"
  shows "(0x9000 :: u64) \<le> 0x9000 + of_nat i" and "0x9000 + of_nat i < (0x9008 :: u64)"
  using assms
  by (simp_all add: word_le_nat_alt word_less_nat_alt unat_word_ariths unsigned_of_nat
      take_bit_eq_mod)

lemma demo_wf: "wf_mem demo_mem"
  by (auto simp: wf_mem_def demo_mem_def demo_seg_def wf_seg_def demo_offset)

lemma demo_guest_byte:
  "guest_byte demo_mem a = (if 0x1000 \<le> a \<and> a < 0x1008 then Some 7 else None)"
proof (cases "0x1000 \<le> a \<and> a < 0x1008")
  case True
  then have s: "seg_contains demo_seg a"
    by (simp add: seg_contains_def demo_seg_def word_less_nat_alt)
  have "unat (a - 0x1000) < 8"
    using True by (simp add: unat_sub word_less_nat_alt word_le_nat_alt less_diff_conv2)
  then have "(0x9000 :: u64) \<le> 0x9000 + of_nat (unat (a - 0x1000))"
    and "0x9000 + of_nat (unat (a - 0x1000)) < (0x9008 :: u64)"
    by (rule demo_offset)+
  with True s show ?thesis
    by (simp add: guest_byte_def host_addr_def lookup_seg_def demo_mem_def demo_seg_def)
next
  case False
  then have "\<not> seg_contains demo_seg a"
    by (auto simp: seg_contains_def demo_seg_def word_less_nat_alt word_le_nat_alt)
  with False show ?thesis
    by (auto simp: guest_byte_def host_addr_def lookup_seg_def demo_mem_def)
qed

lemma demo_mapped_2: "\<forall>i < unat (2 :: u64). guest_byte demo_mem (0x1004 + of_nat i) \<noteq> None"
proof (intro allI impI)
  fix i assume "i < unat (2 :: u64)"
  then have "i = 0 \<or> i = 1" by auto
  then show "guest_byte demo_mem (0x1004 + of_nat i) \<noteq> None"
    by (auto simp: demo_guest_byte)
qed

subsection \<open>Reading and writing\<close>

text \<open>C1: \<open>read\<close> implements the byte map of the segments. On a well-formed memory, for a
  range below the raw region, it returns exactly the mapped bytes, or the out-of-bounds
  error when one byte is unmapped; it never panics and overflow checks make no difference.\<close>

theorem mem_read_refines:
  assumes "wf_mem m" and "addr < RAW_BASE" and "unat addr + unat len < 2 ^ 64"
    and "unat len < 2 ^ 63"
  shows "mem_read oc m addr len = spec_read m addr (unat len)"
  by (rule mem_read_spec [OF assms])

theorem mem_read_refines_witness:
  "mem_read True demo_mem 0x1004 8 = spec_read demo_mem 0x1004 8"
  using mem_read_refines [OF demo_wf, of "0x1004" 8 True] by (simp add: RAW_BASE_def)

text \<open>C2: \<open>write\<close> implements the update of the byte map: it stores the longest mapped prefix
  of the data, changes no other byte, keeps the memory well-formed, and reports the
  out-of-bounds error exactly when that prefix is not the whole of the data.\<close>

theorem mem_write_refines:
  assumes "wf_mem m" and "addr < RAW_BASE" and "unat addr + length data < 2 ^ 64"
  shows "\<exists>m'. mem_write oc addr data m =
      (if mapped_prefix m addr (length data) = length data then Val ()
       else Fail (MemoryError ''out of mapped bounds'' addr (of_nat (length data))), m') \<and>
    written m addr data (mapped_prefix m addr (length data)) m'"
  by (rule mem_write_spec [OF assms])

lemma demo_prefix: "mapped_prefix demo_mem 0x1006 3 = 2"
  by (simp add: mapped_prefix_def demo_guest_byte upt_rec)

theorem mem_write_refines_witness:
  "\<exists>m'. mem_write True 0x1006 [1, 2, 3] demo_mem =
       (Fail (MemoryError ''out of mapped bounds'' 0x1006 3), m') \<and>
     written demo_mem 0x1006 [1, 2, 3] 2 m'"
proof -
  have l: "length [1, 2, 3 :: u8] = 3" by simp
  show ?thesis
    using mem_write_refines [OF demo_wf, of "0x1006" "[1, 2, 3]" True]
    unfolding l demo_prefix by (simp add: RAW_BASE_def)
qed

text \<open>A word stored in little-endian order is loaded back from the same address, at
  every width.\<close>

theorem mem_word_roundtrip:
  fixes w :: "'a::len word"
  assumes "wf_mem m" and "low_range a (LENGTH('a) div 8)" and "8 dvd LENGTH('a)"
    and "LENGTH('a) < 2 ^ 64" and "mem_write oc a (to_le_bytes w) m = (Val (), m')"
  shows "mem_read_le oc m' a = Val w"
  unfolding mem_read_le_def by (rule gm.load_store_word [OF assms])

lemma demo_store_word: "\<exists>m'. mem_write True 0x1000 (to_le_bytes (0x11223344 :: u32)) demo_mem = (Val (), m')"
proof -
  have "mapped_prefix demo_mem 0x1000 4 = 4"
    by (simp add: mapped_prefix_def demo_guest_byte upt_rec)
  with mem_write_spec [OF demo_wf, of "0x1000" "to_le_bytes (0x11223344 :: u32)" True]
  show ?thesis by (auto simp: RAW_BASE_def)
qed

theorem mem_word_roundtrip_witness:
  "\<exists>m'. mem_write True 0x1000 (to_le_bytes (0x11223344 :: u32)) demo_mem = (Val (), m') \<and>
     mem_read_le True m' 0x1000 = Val (0x11223344 :: u32)"
proof -
  obtain m' where w: "mem_write True 0x1000 (to_le_bytes (0x11223344 :: u32)) demo_mem = (Val (), m')"
    using demo_store_word by blast
  from mem_word_roundtrip [OF demo_wf _ _ _ w] have "mem_read_le True m' 0x1000 = Val (0x11223344 :: u32)"
    by (simp add: low_range_def RAW_BASE_def)
  with w show ?thesis by blast
qed

text \<open>C20: a write does not change what a read of a disjoint mapped range returns.\<close>

theorem mem_write_frame:
  assumes "wf_mem m" and "low_range a (length bs)" and "low_range b (unat n)"
    and "mem_write oc a bs m = (r, m')"
    and "unat a + length bs \<le> unat b \<or> unat b + unat n \<le> unat a"
    and "\<forall>i < unat n. guest_byte m (b + of_nat i) \<noteq> None"
  shows "mem_read oc' m' b n = mem_read oc' m b n"
proof -
  have eq: "mem_read oc' x b n = mem_read oc x b n" if "wf_mem x" for x :: "'a sys"
    using mem_read_spec [OF that, of b n] assms(3) by (simp add: low_range_def)
  have "wf_mem m'" using gm.wr_total [OF assms(1,2), of oc] assms(4) by simp
  moreover have "gm.mapped m b (unat n)" using assms(6) by (simp add: gm.mapped_def)
  ultimately show ?thesis
    using eq assms(1) gm.rd_wr_disjoint [OF assms(1-5)] by simp
qed

theorem mem_write_frame_witness:
  "mem_read False (snd (mem_write True 0x1000 [1, 2, 3] demo_mem)) 0x1004 2 =
     mem_read False demo_mem 0x1004 2"
proof -
  have rng: "low_range 0x1000 (length [1, 2, 3 :: u8])" "low_range 0x1004 (unat (2 :: u64))"
    by (simp_all add: low_range_def RAW_BASE_def)
  show ?thesis
    by (rule mem_write_frame [OF demo_wf rng prod.collapse [symmetric] _ demo_mapped_2]) simp
qed

subsection \<open>Mapping and the program break\<close>

text \<open>C17: a new mapping that meets no segment reads as zero bytes over its whole size, every
  other guest byte keeps its value, the memory stays well-formed and the break is as
  before. The hypothesis on \<open>K\<close> is the documented behaviour of an anonymous \<open>mmap\<close>.\<close>

theorem map_anonymous_prot_zeroes:
  assumes "wf_mem m" and "mmap_contract K" and "guest_free m addr n"
    and "addr \<noteq> 0" "unat addr + unat n < 2 ^ 64" and "prot_read p" "prot_write p"
    and "map_anonymous_prot K addr n p m = (Val v, m')"
  shows "v = addr \<and> wf_mem m' \<and>
    (\<forall>a. guest_byte m' a = (if in_range addr (unat n) a then Some 0 else guest_byte m a)) \<and>
    brk_base m' = brk_base m \<and> brk_current m' = brk_current m \<and>
    brk_mapped_end m' = brk_mapped_end m"
  by (rule map_anonymous_prot_ok [OF assms])

lemma demo_host_free: "host_mem demo_mem (0x20000 + of_nat i) = None" if "i < 4096"
proof -
  have "unat (0x20000 + of_nat i :: u64) = 0x20000 + i"
    using that by (simp add: unat_word_ariths unsigned_of_nat take_bit_eq_mod)
  then show ?thesis by (simp add: demo_mem_def word_less_nat_alt)
qed

lemma demo_map_like:
  assumes "1 \<le> n" and "n \<le> 4096" and "a \<noteq> 0" and m: "host_mem m = host_mem demo_mem" "kernel m = 0x20000"
  shows "\<exists>m'. map_anonymous_prot bump_os a n p m = (Val a, m')"
proof -
  have "n \<noteq> 0" using assms(1) by auto
  moreover have "round_page (unat n) = 4096"
  proof -
    have "1 \<le> unat n" and "unat n \<le> 4096" using assms by (simp_all add: word_le_nat_alt)
    then have "(unat n + 4095) div 4096 = 1" by (intro div_nat_eqI) simp_all
    then show ?thesis by (simp add: round_page_def)
  qed
  ultimately show ?thesis using assms(3) demo_host_free m
    by (auto simp: map_anonymous_prot_def bump_os_def bump_mmap_def)
qed

lemma demo_map:
  assumes "1 \<le> n" and "n \<le> 4096" and "a \<noteq> 0"
  shows "\<exists>m'. map_anonymous_prot bump_os a n p demo_mem = (Val a, m')"
  using demo_map_like [OF assms] by (simp add: demo_mem_def)

theorem map_anonymous_prot_zeroes_witness:
  "\<exists>m'. map_anonymous_prot bump_os 0x4000 16 (Prot True True False) demo_mem = (Val 0x4000, m') \<and>
     guest_byte m' 0x400f = Some 0 \<and> guest_byte m' 0x1000 = Some 7"
proof -
  obtain m' where r:
    "map_anonymous_prot bump_os 0x4000 16 (Prot True True False) demo_mem = (Val 0x4000, m')"
    using demo_map [of 16 "0x4000"] by auto
  have "guest_free demo_mem 0x4000 16"
    by (simp add: guest_free_def demo_mem_def demo_seg_def ranges_disjoint_def)
  from map_anonymous_prot_zeroes [OF demo_wf bump_os_contract this _ _ _ _ r] r show ?thesis
    by (simp add: in_range_def demo_guest_byte)
qed

lemma mem_read_one:
  assumes "wf_mem m" and "a < RAW_BASE"
  shows "mem_read oc m a 1 =
    (case guest_byte m a of Some b \<Rightarrow> Val [b] | None \<Rightarrow> Fail (MemoryError ''out of mapped bounds'' a 1))"
proof -
  have "unat a < 0x500000000000" using assms(2) by (simp add: word_less_unat RAW_BASE_def)
  then have "mem_read oc m a 1 = spec_read m a (unat (1 :: u64))"
    by (intro mem_read_spec [OF assms]) simp_all
  then show ?thesis by (simp add: spec_read_def split: option.split)
qed

lemma read_string_loop_bytes:
  assumes "wf_mem m" and "unat a + length bs < unat RAW_BASE" and "n + length bs < 2 ^ 64"
    and "\<forall>i < length bs. guest_byte m (a + of_nat i) = Some (bs ! i)" and "0 \<notin> set bs"
    and "guest_byte m (a + of_nat (length bs)) = last_byte" and "last_byte = Some 0 \<or> last_byte = None"
  shows "read_string_loop oc m a n acc =
    (case last_byte of
       Some b \<Rightarrow> Val (acc @ bs)
     | None \<Rightarrow> Fail (MemoryError ''out of mapped bounds'' (a + of_nat (length bs)) 1))"
  using assms(2-6)
proof (induction bs arbitrary: a n acc)
  case Nil
  then have "a < RAW_BASE" by (simp add: word_less_unat)
  with Nil assms(7) mem_read_one [OF assms(1), of a oc] show ?case
    by (subst read_string_loop.simps) (auto split: option.split)
next
  case (Cons b bs)
  have small: "unat a + length bs + 1 < 0x500000000000" using Cons.prems(1) by (simp add: RAW_BASE_def)
  then have lt: "a < RAW_BASE" by (simp add: word_less_unat RAW_BASE_def)
  have u: "unat (a + 1) = unat a + 1" using unat_add_of_nat [of a 1] small by simp
  have ck: "ck_add oc a 1 = Val (a + 1)" using small by (simp add: ck_add_def)
  have b: "guest_byte m a = Some b" "b \<noteq> 0" using Cons.prems(3,4) by auto
  have step: "read_string_loop oc m a n acc = read_string_loop oc m (a + 1) (Suc n) (acc @ [b])"
    using mem_read_one [OF assms(1) lt, of oc] b ck Cons.prems(2)
    by (subst read_string_loop.simps) simp
  have "\<forall>i < length bs. guest_byte m (a + 1 + of_nat i) = Some (bs ! i)"
  proof (intro allI impI)
    fix i assume "i < length bs"
    with Cons.prems(3) [rule_format, of "Suc i"]
    show "guest_byte m (a + 1 + of_nat i) = Some (bs ! i)" by (simp add: add.assoc)
  qed
  with Cons.IH [of "a + 1" "Suc n" "acc @ [b]"] Cons.prems(1,2,4,5) u show ?case
    by (simp add: step add.assoc split: option.split)
qed

text \<open>C6: \<open>read_string\<close> on guest memory below the raw region: it returns exactly the bytes up to
  the first zero byte, without it; when an unmapped byte comes first it fails with the
  address of that byte. It never crashes and always ends, in builds with and without
  overflow checks.\<close>

theorem read_string_correct:
  assumes "wf_mem m" and "unat a + length bs < unat RAW_BASE"
    and "\<forall>i < length bs. guest_byte m (a + of_nat i) = Some (bs ! i)" and "0 \<notin> set bs"
  shows "(guest_byte m (a + of_nat (length bs)) = Some 0 \<longrightarrow> read_string oc m a = Val bs) \<and>
    (guest_byte m (a + of_nat (length bs)) = None \<longrightarrow>
       read_string oc m a = Fail (MemoryError ''out of mapped bounds'' (a + of_nat (length bs)) 1))"
proof -
  have "0 + length bs < 2 ^ 64" using assms(2) by (simp add: RAW_BASE_def)
  note l = read_string_loop_bytes [OF assms(1,2) this assms(3,4) refl, of oc "[]"]
  show ?thesis using l by (auto simp: read_string_def)
qed

text \<open>The string at 4 of the eight bytes 7 at \<open>0x1000\<close> runs into unmapped memory; in a fresh
  page there is the empty string.\<close>

theorem read_string_correct_witness:
  "read_string True demo_mem 0x1004 = Fail (MemoryError ''out of mapped bounds'' 0x1008 1) \<and>
   (\<exists>m. guest_byte m 0x1000 = Some 7 \<and> guest_byte m 0x4000 = Some 0 \<and>
      read_string True (m :: u64 sys) 0x4000 = Val [])"
proof
  have "guest_byte demo_mem (0x1004 + of_nat i) = Some 7" if "i < 4" for i
  proof -
    have "unat (0x1004 + of_nat i :: u64) = 0x1004 + i" using unat_add_of_nat [of "0x1004" i] that by simp
    with that show ?thesis by (simp add: demo_guest_byte word_le_unat word_less_unat)
  qed
  then show "read_string True demo_mem 0x1004 = Fail (MemoryError ''out of mapped bounds'' 0x1008 1)"
    using read_string_correct [OF demo_wf, of "0x1004" "replicate 4 7" True]
    by (simp add: RAW_BASE_def demo_guest_byte)
  obtain m where r: "map_anonymous_prot bump_os 0x4000 16 (Prot True True False) demo_mem = (Val 0x4000, m)"
    using demo_map [of 16 "0x4000"] by auto
  have "guest_free demo_mem 0x4000 16"
    by (simp add: guest_free_def demo_mem_def demo_seg_def ranges_disjoint_def)
  from map_anonymous_prot_ok [OF demo_wf bump_os_contract this _ _ _ _ r]
  have "wf_mem m" "guest_byte m 0x4000 = Some 0" "guest_byte m 0x1000 = Some 7"
    by (simp_all add: in_range_def demo_guest_byte)
  with read_string_correct [of m "0x4000" "[]" True] show "\<exists>m. guest_byte m 0x1000 = Some 7 \<and>
      guest_byte m 0x4000 = Some 0 \<and> read_string True (m :: u64 sys) 0x4000 = Val []"
    by (auto simp: RAW_BASE_def)
qed

text \<open>C18: \<open>set_brk\<close> on every branch: a request of 0 or below the base returns the old break
  and changes nothing, one up to the end of the mapped heap (a shrink included) only moves
  the break, and one above it maps whole zero pages up to the rounded request and changes
  no other byte, or fails and leaves memory and break as they were. It never crashes and
  keeps the memory and the break well-formed. Only for a growing heap must the pages above
  it be free and the request stay a page below the top of the address space.\<close>

theorem set_brk_correct:
  assumes "wf_mem m" and "brk_wf m" and "mmap_contract K"
    and "brk_grows m new_brk \<Longrightarrow> unat new_brk + 4096 < 2 ^ 64"
    and "brk_grows m new_brk \<Longrightarrow> guest_free m (brk_mapped_end m)
      (of_nat (round_page (unat new_brk)) - brk_mapped_end m)"
  shows "\<exists>r m'. set_brk oc K new_brk m = (r, m') \<and>
    wf_mem m' \<and> brk_wf m' \<and> keeps_bytes m m' \<and> brk_outcome m new_brk r m'"
  by (rule set_brk_ok [OF assms])

definition demo_brk :: "u64 sys" where
  "demo_brk = demo_mem\<lparr>brk_base := 0x3000, brk_current := 0x3000, brk_mapped_end := 0x3000\<rparr>"

text \<open>Growth by half a page, a shrink, and the query \<open>brk(0)\<close>.\<close>

theorem set_brk_correct_witness:
  "\<exists>m1 m2. set_brk True bump_os 0x3800 demo_brk = (Val 0x3800, m1) \<and>
     brk_mapped_end m1 = 0x4000 \<and> guest_byte m1 0x3fff = Some 0 \<and> guest_byte m1 0x1000 = Some 7 \<and>
     set_brk True bump_os 0x3400 m1 = (Val 0x3400, m2) \<and> brk_mapped_end m2 = 0x4000 \<and>
     fst (set_brk True bump_os 0 m2) = Val 0x3400"
proof -
  have wf: "wf_mem demo_brk" using demo_wf by (simp add: wf_mem_def demo_brk_def)
  have bw: "brk_wf demo_brk" by (auto simp: brk_wf_def demo_brk_def)
  have f: "brk_base demo_brk = 0x3000" "brk_current demo_brk = 0x3000" "brk_mapped_end demo_brk = 0x3000"
    "guest_byte demo_brk = guest_byte demo_mem"
    by (simp_all add: demo_brk_def fun_eq_iff guest_byte_def host_addr_def split: option.split)
  have "guest_free demo_brk (brk_mapped_end demo_brk)
      (of_nat (round_page (unat (0x3800 :: u64))) - brk_mapped_end demo_brk)"
    by (simp add: guest_free_def demo_brk_def demo_mem_def demo_seg_def ranges_disjoint_def
        round_page_def)
  from set_brk_correct [OF wf bw bump_os_contract _ this, of True] obtain r m1
    where s1: "set_brk True bump_os 0x3800 demo_brk = (r, m1)" and w1: "wf_mem m1" "brk_wf m1"
      and o1: "brk_outcome demo_brk 0x3800 r m1" by auto
  obtain m0 where "map_anonymous_prot bump_os 0x3000 0x1000 (Prot True True False) demo_brk = (Val 0x3000, m0)"
    using demo_map_like [of "0x1000" "0x3000" demo_brk] by (auto simp: demo_brk_def demo_mem_def)
  then have r: "r = Val 0x3800" using s1
    by (simp add: set_brk_def brk_expand_def f align_up_page_def PAGE_SIZE_def ck_add_def ck_sub_def
        bind_def lift_def)
  have b1: "brk_base m1 = 0x3000" "brk_current m1 = 0x3800" "brk_mapped_end m1 = 0x4000"
    "guest_byte m1 0x3fff = Some 0" "guest_byte m1 0x1000 = Some 7"
    using o1 by (auto simp: r brk_outcome_def brk_grows_def f round_page_def word_unat_eq_iff
        word_less_unat demo_guest_byte)
  have g1: "\<not> brk_grows m1 0x3400" by (simp add: brk_grows_def b1)
  have "\<exists>r m'. set_brk True bump_os 0x3400 m1 = (r, m') \<and>
      wf_mem m' \<and> brk_wf m' \<and> keeps_bytes m1 m' \<and> brk_outcome m1 0x3400 r m'"
    by (rule set_brk_correct [OF w1 bump_os_contract]) (use g1 in simp_all)
  then obtain r2 m2 where s2: "set_brk True bump_os 0x3400 m1 = (r2, m2)" and w2: "wf_mem m2" "brk_wf m2"
    and o2: "brk_outcome m1 0x3400 r2 m2" by blast
  then have r2: "r2 = Val 0x3400" and b2: "brk_base m2 = 0x3000" "brk_current m2 = 0x3400"
    and e2: "unat (brk_mapped_end m2) = 0x4000"
    by (cases r2; simp add: brk_outcome_def g1 b1)+
  have b2': "brk_mapped_end m2 = 0x4000" using e2 by (simp add: word_unat_eq_iff)
  have g2: "\<not> brk_grows m2 0" by (simp add: brk_grows_def b2 b2')
  have "\<exists>r m'. set_brk True bump_os 0 m2 = (r, m') \<and>
      wf_mem m' \<and> brk_wf m' \<and> keeps_bytes m2 m' \<and> brk_outcome m2 0 r m'"
    by (rule set_brk_correct [OF w2 bump_os_contract]) (use g2 in simp_all)
  then obtain r3 m3 where "set_brk True bump_os 0 m2 = (r3, m3)" "brk_outcome m2 0 r3 m3" by blast
  then have "fst (set_brk True bump_os 0 m2) = Val 0x3400"
    by (cases r3) (simp_all add: brk_outcome_def g2 b2)
  with s1 r b1 s2 r2 b2' show ?thesis by auto
qed

end
