(* ===== verification/LoadStore_Correct.thy ===== *)
theory LoadStore_Correct
  imports Interp_VecMem Operand_Props Memory_Correct
begin

text \<open>
  Loads and stores of the interpreter against the memory contract: values come back from
  where they were stored, at every scalar size, and what a faulting access leaves behind.
\<close>

unbundle bit_operations_syntax

subsection \<open>One store, one load\<close>

text \<open>The range of an access of the interpreter: below the raw region and mapped.\<close>

definition accessible :: "'h machine \<Rightarrow> u64 \<Rightarrow> nat \<Rightarrow> bool" where
  "accessible m a n \<longleftrightarrow> wf_mem (mem m) \<and> low_range a n \<and>
     (\<forall>i<n. guest_byte (mem m) (a + of_nat i) \<noteq> None)"

lemma store_m_accessible:
  assumes "accessible m a (length bs)"
  shows "\<exists>s. store_m oc pc a bs m = (Val (), m\<lparr>mem := s\<rparr>) \<and> wf_mem s \<and>
    mem_write oc a bs (mem m) = (Val (), s) \<and>
    (\<forall>x. guest_byte s x = (if in_range a (length bs) x then Some (bs ! (unat x - unat a))
       else guest_byte (mem m) x))"
proof -
  from gm.wr_ok [of "mem m" a bs oc] assms obtain s where
    "mem_write oc a bs (mem m) = (Val (), s)" "wf_mem s"
    "\<forall>x. guest_byte s x = (if in_range a (length bs) x then Some (bs ! (unat x - unat a))
       else guest_byte (mem m) x)"
    by (auto simp: accessible_def)
  then show ?thesis by (auto simp: store_m_def store_def map_err_def mem_comp_def)
qed

lemma accessible_after_store:
  assumes "accessible m a (length bs)" and "accessible m b n"
    and "mem_write oc a bs (mem m) = (Val (), s)"
  shows "accessible (m\<lparr>ctx := c, mem := s\<rparr>) b n"
proof -
  have r: "low_range a (length bs)" and w: "wf_mem (mem m)" using assms(1) by (simp_all add: accessible_def)
  have "wf_mem s" using gm.wr_total [OF w r, of oc] assms(3) by simp
  moreover have "guest_byte s x \<noteq> None \<longleftrightarrow> guest_byte (mem m) x \<noteq> None" for x
    by (rule gm.wr_keeps_mapped [OF w r assms(3)])
  ultimately show ?thesis using assms(2) by (simp add: accessible_def)
qed

lemma load_m_after_store:
  assumes "accessible m a (length bs)" and "mem_write oc a bs (mem m) = (Val (), s)"
    and "mem m' = s" and "length bs < 2 ^ 64"
  shows "load_m oc' pc a (of_nat (length bs)) m' = (Val bs, m')"
proof -
  have r: "low_range a (length bs)" and w: "wf_mem (mem m)" using assms(1) by (simp_all add: accessible_def)
  have "mem_read oc s a (of_nat (length bs)) = Val bs"
    by (rule gm.rd_wr_same [OF w r assms(4,2)])
  moreover have "wf_mem s" using gm.wr_total [OF w r, of oc] assms(2) by simp
  then have "mem_read oc' s a (of_nat (length bs)) = mem_read oc s a (of_nat (length bs))"
    using r assms(4)
    by (simp add: mem_read_spec low_range_def unsigned_of_nat take_bit_eq_mod)
  ultimately show ?thesis using assms(3) by (simp add: load_m_def load_def map_err_def)
qed

lemma with_addr_offset:
  assumes "b < 31" and "ck_sadd oc (get_x (ctx m) b) (imm_to_i64 off) = Val a"
  shows "with_addr oc D (O_MemOffset (RX b) off y) f m = f a m"
  using assms by (simp add: with_addr_def ctx_comp_def bind_def)

lemma set_reg_apply [simp]: "set_reg D r v m = (Val (), m\<lparr>ctx := set_reg_val D r v (ctx m)\<rparr>)"
  by (simp add: set_reg_def on_ctx_def)

text \<open>The store and the load of \<open>n\<close> bytes between a register and memory.\<close>

definition access_pair :: "nat \<Rightarrow> nat \<Rightarrow> nat \<Rightarrow> (mem_op \<times> reg) \<times> (mem_op \<times> reg)" where
  "access_pair n s d =
     (if n = 8 then ((STR_op, RX s), (LDR, RX d))
      else if n = 4 then ((STR_op, RW s), (LDR, RW d))
      else if n = 2 then ((STRH, RW s), (LDRH, RW d))
      else ((STRB, RW s), (LDRB, RW d)))"

definition stored_bytes :: "nat \<Rightarrow> u64 \<Rightarrow> bytes" where
  "stored_bytes n v =
     (if n = 8 then to_le_bytes v else if n = 4 then to_le_bytes (ucast v :: u32)
      else if n = 2 then to_le_bytes (ucast v :: u16) else [ucast v])"

lemma length_stored_bytes [simp]: "n \<in> {1, 2, 4, 8} \<Longrightarrow> length (stored_bytes n v) = n"
  by (auto simp: stored_bytes_def)

lemma ucast_low32:
  "(ucast ((v :: u64) AND 0xFFFFFFFF) :: u32) = ucast v"
  "(ucast ((v :: u64) AND 0xFFFFFFFF) :: u16) = ucast v"
  "(ucast ((v :: u64) AND 0xFFFFFFFF) :: u8) = ucast v"
  by (rule bit_word_eqI, auto simp: low32_mask bit_and_iff bit_mask_iff bit_ucast_iff)+

lemma exec_store_n:
  assumes "n \<in> {1, 2, 4, 8}" and "s < 31" and "b < 31"
    and "access_pair n s d = ((st, rs), ld)"
    and "ck_sadd oc (get_x (ctx m) b) (imm_to_i64 off) = Val a"
  shows "exec_mem oc D pc st [O_Reg rs x, O_MemOffset (RX b) off y] m =
    store_m oc pc a (stored_bytes n (get_x (ctx m) s)) m"
  using assms
  by (auto simp: access_pair_def stored_bytes_def exec_STR_def exec_STRH_def exec_STRB_def
      with_reg_def operand_val_def with_addr_offset ucast_low32 split: if_splits)

lemma and_low32_take_bit:
  "k \<le> 32 \<Longrightarrow> take_bit k (v :: u64) AND 0xFFFFFFFF = take_bit k v"
  by (rule bit_word_eqI) (auto simp: low32_mask bit_and_iff bit_mask_iff bit_take_bit_iff)

lemma exec_load_n:
  assumes n: "n \<in> {1, 2, 4, 8}" and d: "d < 31" and b: "b < 31"
    and pair: "access_pair n s d = (st, (ld, rd))"
    and a: "ck_sadd oc (get_x (ctx m) b) (imm_to_i64 off) = Val a"
    and ld: "load_m oc pc a (of_nat n) m = (Val (stored_bytes n v), m)"
  shows "exec_mem oc D pc ld [O_Reg rd x, O_MemOffset (RX b) off y] m =
    (Val (), m\<lparr>ctx := set_x d (take_bit (8 * n) v) (ctx m)\<rparr>)"
proof -
  have full: "take_bit 64 v = v" by (rule bit_word_eqI) (simp add: bit_take_bit_iff)
  show ?thesis
    using n pair d b ld
    by (auto simp: access_pair_def stored_bytes_def exec_LDR_def exec_LDRH_def exec_LDRB_def
        with_reg_def with_addr_offset [OF b a] bind_def from_to_le_bytes zext_value
        and_low32_take_bit full split: if_splits)
qed

text \<open>C14: a store of 1, 2, 4 or 8 bytes of a register followed by a load of the same size
  from the same address leaves the low bits of the stored register in the loaded one, zero
  extended. Neither access fails when the bytes are mapped.\<close>

theorem store_load_roundtrip:
  assumes "n \<in> {1, 2, 4, 8}" and "s < 31" and "d < 31" and "b < 31" and "wf_cpu (ctx m)"
    and "access_pair n s d = ((st, rs), (ld, rd))"
    and "ck_sadd oc (get_x (ctx m) b) (imm_to_i64 off) = Val a"
    and "accessible m a n"
  shows "\<exists>m1 m2. exec_mem oc D pc st [O_Reg rs x, O_MemOffset (RX b) off y] m = (Val (), m1) \<and>
    exec_mem oc D pc' ld [O_Reg rd x', O_MemOffset (RX b) off y'] m1 = (Val (), m2) \<and>
    get_x (ctx m2) d = take_bit (8 * n) (get_x (ctx m) s)"
proof -
  let ?v = "get_x (ctx m) s"
  have len: "length (stored_bytes n ?v) = n" using assms(1) by simp
  have n64: "n < 2 ^ 64" using assms(1) by auto
  obtain t where st: "store_m oc pc a (stored_bytes n ?v) m = (Val (), m\<lparr>mem := t\<rparr>)"
    and w: "mem_write oc a (stored_bytes n ?v) (mem m) = (Val (), t)"
    using store_m_accessible [of m a "stored_bytes n ?v" oc pc] assms(8) len by auto
  have s: "exec_mem oc D pc st [O_Reg rs x, O_MemOffset (RX b) off y] m = (Val (), m\<lparr>mem := t\<rparr>)"
    by (rule trans [OF exec_store_n [OF assms(1,2,4,6,7)] st])
  have "load_m oc pc' a (of_nat n) (m\<lparr>mem := t\<rparr>) = (Val (stored_bytes n ?v), m\<lparr>mem := t\<rparr>)"
    using load_m_after_store [of m a "stored_bytes n ?v" oc t "m\<lparr>mem := t\<rparr>" oc pc'] w assms(8) len n64
    by simp
  from exec_load_n [OF assms(1,3,4,6) _ this] assms(7)
  have "exec_mem oc D pc' ld [O_Reg rd x', O_MemOffset (RX b) off y'] (m\<lparr>mem := t\<rparr>) =
      (Val (), m\<lparr>mem := t, ctx := set_x d (take_bit (8 * n) ?v) (ctx m)\<rparr>)" by simp
  with s show ?thesis using assms(3,5) by (auto simp: get_x_set_same)
qed

definition demo_machine :: "u64 machine" where
  "demo_machine = \<lparr>ctx = set_x 1 0x1000 (set_x 0 0x1122334455667788 cpu_new), mem = demo_mem\<rparr>"

lemma demo_machine_wf: "wf_cpu (ctx demo_machine)"
  by (simp add: demo_machine_def wf_cpu_new)

lemma demo_machine_regs: "get_x (ctx demo_machine) 0 = 0x1122334455667788" "get_x (ctx demo_machine) 1 = 0x1000"
  "get_x (ctx demo_machine) (Suc 0) = 0x1000"
  by (simp_all add: demo_machine_def get_set_x wf_cpu_new)

lemma demo_byte_mapped:
  assumes "i < 8"
  shows "guest_byte demo_mem (0x1000 + of_nat i) \<noteq> None"
proof -
  have "unat (0x1000 + of_nat i :: u64) = 0x1000 + i"
    using assms by (simp add: unat_word_ariths unsigned_of_nat take_bit_eq_mod)
  then show ?thesis using assms by (simp add: demo_guest_byte word_le_nat_alt word_less_nat_alt)
qed

lemma demo_accessible: "n \<le> 8 \<Longrightarrow> accessible (demo_machine\<lparr>ctx := c\<rparr>) 0x1000 n"
  using demo_wf demo_byte_mapped
  by (simp add: accessible_def demo_machine_def low_range_def RAW_BASE_def)

theorem store_load_roundtrip_witness:
  "\<exists>m1 m2. exec_mem True (text_bad64 (\<lambda>w a. Inl [])) 0x400 STRH
       [O_Reg (RW 0) [], O_MemOffset (RX 1) (Signed 0) []] demo_machine = (Val (), m1) \<and>
     exec_mem True (text_bad64 (\<lambda>w a. Inl [])) 0x404 LDRH
       [O_Reg (RW 2) [], O_MemOffset (RX 1) (Signed 0) []] m1 = (Val (), m2) \<and>
     get_x (ctx m2) 2 = 0x7788"
proof -
  have acc: "accessible demo_machine 0x1000 2"
    using demo_accessible [of 2 "ctx demo_machine"] by simp
  have "access_pair 2 0 2 = ((STRH, RW 0), (LDRH, RW 2))" by (simp add: access_pair_def)
  from store_load_roundtrip [OF _ _ _ _ demo_machine_wf this _ acc, of 1 True "Signed 0"
      "text_bad64 (\<lambda>w a. Inl [])" "0x400" "[]" "[]" "0x404" "[]" "[]"]
  show ?thesis by (simp add: demo_machine_regs ck_sadd_def take_bit_eq_mask mask_eq_exp_minus_1)
qed

subsection \<open>A faulting access\<close>

lemma load_m_unmapped:
  assumes "wf_mem (mem m)" and "low_range a (unat n)" and "i < unat n"
    and "guest_byte (mem m) (a + of_nat i) = None"
  shows "load_m oc pc a n m =
    (Fail (InterpreterError pc ''Memory error'' (Some (MemoryError ''out of mapped bounds'' a n))), m)"
proof -
  have "mem_read oc (mem m) a n = spec_read (mem m) a (unat n)"
    using assms(1,2) by (simp add: mem_read_spec low_range_def)
  also have "\<dots> = Fail (MemoryError ''out of mapped bounds'' a n)"
    using assms(3,4) by (auto simp: spec_read_def)
  finally show ?thesis by (simp add: load_m_def load_def map_err_def m_err_def)
qed

text \<open>A pre-indexed load from an unmapped address stops the interpreter with the memory
  error at its pc, and has already written the new address to the base register: the
  faulting instruction is not restartable.\<close>

theorem preindex_load_fault_writes_back:
  assumes "d < 31" and "b < 31" and "wf_cpu (ctx m)" and "wf_mem (mem m)"
    and "ck_sadd oc (get_x (ctx m) b) (imm_to_i64 imm) = Val a"
    and "low_range a 8" and "guest_byte (mem m) a = None"
  shows "\<exists>m'. exec_mem oc D pc LDR [O_Reg (RX d) x, O_MemPreIdx (RX b) imm y] m =
      (Fail (InterpreterError pc ''Memory error'' (Some (MemoryError ''out of mapped bounds'' a 8))), m') \<and>
    get_x (ctx m') b = a \<and> mem m' = mem m"
proof -
  let ?m = "m\<lparr>ctx := set_x b a (ctx m)\<rparr>"
  have "load_m oc pc a 8 ?m = (Fail (InterpreterError pc ''Memory error''
      (Some (MemoryError ''out of mapped bounds'' a 8))), ?m)"
    using assms(4,6,7) by (intro load_m_unmapped [where i = 0]) simp_all
  then have "exec_mem oc D pc LDR [O_Reg (RX d) x, O_MemPreIdx (RX b) imm y] m =
      (Fail (InterpreterError pc ''Memory error'' (Some (MemoryError ''out of mapped bounds'' a 8))), ?m)"
    using assms(1,2,5)
    by (simp add: exec_LDR_def with_reg_def with_addr_def ctx_comp_def bind_def)
  then show ?thesis using assms(2,3) by (simp add: get_x_set_same)
qed

theorem preindex_load_fault_writes_back_witness:
  "\<exists>m'. exec_mem True (text_bad64 (\<lambda>w a. Inl [])) 0x400 LDR
       [O_Reg (RX 0) [], O_MemPreIdx (RX 1) (Signed 0x1000) []] demo_machine =
      (Fail (InterpreterError 0x400 ''Memory error''
         (Some (MemoryError ''out of mapped bounds'' 0x2000 8))), m') \<and>
    get_x (ctx m') 1 = 0x2000"
proof -
  have "ck_sadd True (get_x (ctx demo_machine) 1) (imm_to_i64 (Signed 0x1000)) = Val 0x2000"
    by (simp add: demo_machine_regs ck_sadd_def signed_take_bit_eq_take_bit_shift take_bit_eq_mod)
  from preindex_load_fault_writes_back [OF _ _ demo_machine_wf _ this, of 0
      "text_bad64 (\<lambda>w a. Inl [])" "0x400" "[]" "[]"]
  show ?thesis
    by (auto simp: demo_machine_def demo_wf demo_guest_byte low_range_def RAW_BASE_def)
qed

subsection \<open>Store exclusive\<close>

text \<open>STXR and STLXR always succeed and store eight bytes, also for a W register: a
  32-bit store exclusive overwrites the four bytes behind the addressed word with zeros.\<close>

theorem stxr_w_stores_eight_bytes:
  assumes "r < 31" and "s < 31" and "b < 31" and "wf_cpu (ctx m)"
    and "accessible m (get_x (ctx m) b) 8"
  shows "\<exists>m'. exec_mem oc D pc STXR [O_Reg (RW r) x, O_Reg (RW s) y, O_MemReg (RX b)] m = (Val (), m') \<and>
    get_x (ctx m') r = 0 \<and>
    (\<forall>i<8. guest_byte (mem m') (get_x (ctx m) b + of_nat i) =
       Some (to_le_bytes (get_x (ctx m) s AND 0xFFFFFFFF) ! i))"
proof -
  let ?a = "get_x (ctx m) b" and ?v = "get_x (ctx m) s AND 0xFFFFFFFF"
  obtain t where st: "store_m oc pc ?a (to_le_bytes ?v) m = (Val (), m\<lparr>mem := t\<rparr>)"
    and view: "\<forall>x. guest_byte t x = (if in_range ?a 8 x then Some (to_le_bytes ?v ! (unat x - unat ?a))
      else guest_byte (mem m) x)"
    using store_m_accessible [of m ?a "to_le_bytes ?v" oc pc] assms(5) by auto
  have "guest_byte t (?a + of_nat i) = Some (to_le_bytes ?v ! i)" if "i < 8" for i
    using gm.in_range_offset [of ?a 8 i] view assms(5) that by (simp add: accessible_def)
  moreover have "exec_mem oc D pc STXR [O_Reg (RW r) x, O_Reg (RW s) y, O_MemReg (RX b)] m =
      (Val (), m\<lparr>mem := t, ctx := set_x r 0 (ctx m)\<rparr>)"
    using assms(1-3) st
    by (simp add: exec_STXR_def operand_val_def with_addr_def ctx_comp_def bind_def)
  ultimately show ?thesis using assms(1,4) by (simp add: get_x_set_same)
qed

theorem stxr_w_stores_eight_bytes_witness:
  "\<exists>m'. exec_mem True (text_bad64 (\<lambda>w a. Inl [])) 0x400 STXR
       [O_Reg (RW 2) [], O_Reg (RW 0) [], O_MemReg (RX 1)] demo_machine = (Val (), m') \<and>
     guest_byte (mem demo_machine) 0x1007 = Some 7 \<and> guest_byte (mem m') 0x1007 = Some 0"
proof -
  have acc: "accessible demo_machine (get_x (ctx demo_machine) 1) 8"
    using demo_accessible [of 8 "ctx demo_machine"] by (simp add: demo_machine_regs)
  obtain m' where m': "exec_mem True (text_bad64 (\<lambda>w a. Inl [])) 0x400 STXR
       [O_Reg (RW 2) [], O_Reg (RW 0) [], O_MemReg (RX 1)] demo_machine = (Val (), m')"
    and v: "\<forall>i<8. guest_byte (mem m') (get_x (ctx demo_machine) 1 + of_nat i) =
       Some (to_le_bytes (get_x (ctx demo_machine) 0 AND 0xFFFFFFFF) ! i)"
    using stxr_w_stores_eight_bytes [OF _ _ _ demo_machine_wf acc, of 2 0 True
        "text_bad64 (\<lambda>w a. Inl [])" "0x400" "[]" "[]"] by auto
  from spec [OF v, of 7] have "guest_byte (mem m') 0x1007 = Some 0"
    by (simp add: demo_machine_regs nth_to_le_bytes drop_bit_eq_div)
  moreover have "guest_byte (mem demo_machine) 0x1007 = Some 7"
    by (simp add: demo_machine_def demo_guest_byte)
  ultimately show ?thesis using m' by simp
qed

end
