(* ===== verification/Syscall_Correct.thy ===== *)
theory Syscall_Correct
  imports Machine_Wf LoadStore_Correct
begin

text \<open>
  What the system calls promise to the guest: the result register, the output of
  \<open>write\<close>, the address of \<open>mmap\<close>, the break, and calls that are not implemented.
\<close>

unbundle bit_operations_syntax

subsection \<open>The result register\<close>

text \<open>
  A handler meets the calling convention when, on a well-formed register file, the value
  it returns is in X0 afterwards unless the program has exited.
\<close>

definition in_x0 :: "('h machine, u64) comp \<Rightarrow> bool" where
  "in_x0 f \<longleftrightarrow> (\<forall>m v t. wf_cpu (ctx m) \<longrightarrow> f m = (Val v, t) \<longrightarrow>
     ctx_exited (ctx t) \<or> get_x (ctx t) 0 = v)"

named_theorems x0_intros \<open>composition rules for the calling convention\<close>

lemma in_x0_finish [x0_intros]: "in_x0 (finish v)"
  by (auto simp: in_x0_def finish_def on_ctx_def bind_def get_x_set_same)

lemma in_x0_bind [x0_intros]:
  assumes "keeps (on_cpu wf_cpu) g" and "\<And>a. in_x0 (f a)"
  shows "in_x0 (bind g f)"
  unfolding in_x0_def
proof (intro allI impI)
  fix m v t assume w: "wf_cpu (ctx m)" and r: "bind g f m = (Val v, t)"
  from r obtain a s where g: "g m = (Val a, s)" and f: "f a s = (Val v, t)" by (rule bind_ValE)
  have "wf_cpu (ctx s)" using keepsD [OF assms(1), of m] w g by simp
  then show "ctx_exited (ctx t) \<or> get_x (ctx t) 0 = v"
    using assms(2) [of a] f by (auto simp: in_x0_def)
qed

lemma in_x0_if [x0_intros]: "in_x0 f \<Longrightarrow> in_x0 g \<Longrightarrow> in_x0 (if b then f else g)"
  by simp

lemma in_x0_option [x0_intros]:
  "in_x0 f \<Longrightarrow> (\<And>a. in_x0 (g a)) \<Longrightarrow> in_x0 (case x of None \<Rightarrow> f | Some a \<Rightarrow> g a)"
  by (cases x) auto

lemma in_x0_prod [x0_intros]: "(\<And>a b. in_x0 (f a b)) \<Longrightarrow> in_x0 (case x of (a, b) \<Rightarrow> f a b)"
  by (cases x) auto

lemma in_x0_exited:
  "(\<And>m v t. f m = (Val v, t) \<Longrightarrow> ctx_exited (ctx t)) \<Longrightarrow> in_x0 f"
  by (auto simp: in_x0_def)

lemma in_x0_sys_exit [x0_intros]: "in_x0 sys_exit"
  by (rule in_x0_exited) (auto simp: sys_exit_def set_exited_def on_ctx_def elim!: bind_ValE)

lemma in_x0_set_tid [x0_intros]: "in_x0 (linux_set_tid_address oc)"
  by (rule in_x0_exited)
    (auto simp: linux_set_tid_address_def set_exited_def on_ctx_def elim!: bind_ValE)

lemma in_x0_check_ret [x0_intros]: "in_x0 f \<Longrightarrow> in_x0 (check_ret oc K r f)"
  unfolding check_ret_def by (intro x0_intros keeps_intros)

lemma in_x0_store_query [x0_intros]: "in_x0 (store_query oc a l b n)"
  unfolding store_query_def by (intro x0_intros keeps_intros)

lemma in_x0_Let [x0_intros]: "in_x0 (f a) \<Longrightarrow> in_x0 (Let a f)"
  by simp

lemma in_x0_shared [x0_intros]: "in_x0 (sys_write oc)" "in_x0 (sys_mmap K)"
  unfolding sys_write_def sys_mmap_def by (intro x0_intros keeps_intros)+

lemma in_x0_linux [x0_intros]:
  "in_x0 (linux_statfs oc)" "in_x0 (linux_socket oc L)" "in_x0 (linux_sockaddr oc L q)"
  "in_x0 (linux_listen oc L)" "in_x0 (linux_setsockopt oc L)" "in_x0 (linux_getsockopt oc L)"
  "in_x0 (linux_symlink oc L)" "in_x0 (linux_kill oc L)" "in_x0 (linux_clone oc L)"
  "in_x0 (linux_futex oc)" "in_x0 (linux_fcntl oc L)" "in_x0 (linux_close oc L)"
  "in_x0 (linux_execve oc)" "in_x0 (linux_brk oc K)"
  unfolding linux_statfs_def linux_socket_def linux_sockaddr_def linux_listen_def
    linux_setsockopt_def linux_getsockopt_def linux_symlink_def linux_kill_def linux_clone_def
    linux_futex_def linux_fcntl_def linux_close_def linux_execve_def linux_brk_def
  by (intro x0_intros keeps_intros)+

lemma in_x0_handle: "in_x0 (handle_syscall_for_os oc L os)"
proof (cases os)
  case Darwin
  show ?thesis unfolding Darwin handle_syscall_for_os.simps darwin_handle_def Let_def
    by (intro x0_intros keeps_intros)
next
  case Linux
  show ?thesis unfolding Linux handle_syscall_for_os.simps linux_handle_def
    by (intro x0_intros keeps_intros) simp_all
next
  case Android
  show ?thesis unfolding Android handle_syscall_for_os.simps linux_handle_def
    by (intro x0_intros keeps_intros) simp_all
qed

text \<open>C7: on every guest system, every system call that returns a value leaves it in X0, or
  has ended the program, and keeps the register file well-formed.\<close>

theorem syscall_result_in_x0:
  assumes "wf_cpu (ctx m)" and "handle_syscall_for_os oc L os m = (Val v, t)"
  shows "(ctx_exited (ctx t) \<or> get_x (ctx t) 0 = v) \<and> wf_cpu (ctx t)"
  using in_x0_handle [of oc L os] keepsD [OF handle_syscall_keeps_cpu, of m oc L os] assms
  by (auto simp: in_x0_def)

text \<open>A host for the witnesses: its calls return 0 and change nothing.\<close>

definition demo_libc :: "u64 libc" where
  "demo_libc = os.extend bump_os (libc.fields (\<lambda>_ hm k. (0, hm, k)) (\<lambda>_ b l hm k. ((0, b, l), hm, k))
     (\<lambda>_. 2) (\<lambda>_. 100) (\<lambda>_. 99) (\<lambda>_. 1000) (\<lambda>_. 1000) (\<lambda>_. 1001) (\<lambda>_. 1001))"

definition with_call :: "u64 \<Rightarrow> u64 \<Rightarrow> u64 \<Rightarrow> u64 \<Rightarrow> u64 machine" where
  "with_call nr a0 a1 a2 =
     \<lparr>ctx = set_x 2 a2 (set_x 1 a1 (set_x 0 a0 (set_x 8 nr cpu_new))), mem = demo_mem\<rparr>"

lemma with_call_regs:
  "wf_cpu (ctx (with_call nr a0 a1 a2))" "get_x (ctx (with_call nr a0 a1 a2)) 8 = nr"
  "get_x (ctx (with_call nr a0 a1 a2)) 0 = a0" "get_x (ctx (with_call nr a0 a1 a2)) 1 = a1"
  "get_x (ctx (with_call nr a0 a1 a2)) (Suc 0) = a1" "get_x (ctx (with_call nr a0 a1 a2)) 2 = a2"
  "mem (with_call nr a0 a1 a2) = demo_mem"
  by (simp_all add: with_call_def get_set_x wf_cpu_new)

theorem syscall_result_in_x0_witness:
  "\<exists>t. linux_handle True demo_libc (with_call 172 7 8 9) = (Val (ucast (libc_pid demo_libc 0x20000)), t) \<and>
     (ctx_exited (ctx t) \<or> get_x (ctx t) 0 = ucast (libc_pid demo_libc 0x20000))"
proof -
  let ?v = "ucast (libc_pid demo_libc 0x20000) :: u64" and ?m = "with_call 172 7 8 9"
  have k: "kernel demo_mem = 0x20000" by (simp add: demo_mem_def)
  have r: "handle_syscall_for_os True demo_libc Linux ?m = (Val ?v, ?m\<lparr>ctx := set_x 0 ?v (ctx ?m)\<rparr>)"
    by (simp add: linux_handle_def arg_def with_call_regs host_state_def finish_def on_ctx_def bind_def k)
  from syscall_result_in_x0 [OF with_call_regs(1) r] r show ?thesis by simp
qed

subsection \<open>Text\<close>

lemma utf8_take_le: "fst (utf8_take bs) \<le> length bs"
  by (cases bs) (auto simp: Let_def split: list.split)

lemma utf8_take_prefix:
  assumes "utf8_take bs = (k, True)" and "bs \<noteq> []"
  shows "utf8_take (take k bs @ r) = (k, True)"
proof -
  obtain b t where bs: "bs = b # t" using assms(2) by (cases bs) auto
  show ?thesis
  proof (cases "utf8_width b = 1")
    case True
    then have "k = 1" using assms(1) by (simp add: bs)
    with True show ?thesis by (simp add: bs)
  next
    case False
    then show ?thesis using assms(1) by (auto simp: bs Let_def split: list.splits if_splits)
  qed
qed

lemma utf8_take_replacement: "utf8_take (replacement @ r) = (3, True)"
  by (simp add: replacement_def utf8_width_def in_bytes_def second_ok_def cont_byte_def)

lemma lossy_step:
  "utf8_take c = (length c, True) \<Longrightarrow> c \<noteq> [] \<Longrightarrow> utf8_take (c @ r) = (length c, True) \<Longrightarrow>
     from_utf8_lossy (c @ r) = c @ from_utf8_lossy r"
  by (subst from_utf8_lossy.simps) simp

lemma from_utf8_lossy_Nil [simp]: "from_utf8_lossy [] = []"
  by (simp add: from_utf8_lossy.simps)

text \<open>The lossy decoding of bytes leaves ASCII text as it is, and its result is well
  formed: decoding it again changes nothing.\<close>

lemma lossy_idempotent: "from_utf8_lossy (from_utf8_lossy bs) = from_utf8_lossy bs"
proof (induction bs rule: from_utf8_lossy.induct)
  case (1 bs)
  show ?case
  proof (cases "bs = []")
    case False
    define k ok where "k = fst (utf8_take bs)" and "ok = snd (utf8_take bs)"
    have t: "utf8_take bs = (k, ok)" by (simp add: k_def ok_def)
    have k: "1 \<le> k" "k \<le> length bs" using utf8_take_pos [OF False] utf8_take_le [of bs] by (simp_all add: k_def)
    let ?r = "from_utf8_lossy (drop k bs)"
    have eq: "from_utf8_lossy bs = (if ok then take k bs else replacement) @ ?r"
      using False by (subst from_utf8_lossy.simps) (simp add: k_def ok_def)
    have IH: "from_utf8_lossy ?r = ?r" using 1 False by (simp add: k_def)
    show ?thesis
    proof (cases ok)
      case True
      then have "utf8_take (take k bs @ r) = (k, True)" for r using t False by (intro utf8_take_prefix) simp_all
      from this [of "[]"] this [of ?r] have "from_utf8_lossy (take k bs @ ?r) = take k bs @ from_utf8_lossy ?r"
        using k by (intro lossy_step) auto
      then show ?thesis using eq True IH by simp
    next
      case no: False
      have "from_utf8_lossy (replacement @ ?r) = replacement @ from_utf8_lossy ?r"
        using utf8_take_replacement [of "[]"] utf8_take_replacement [of ?r]
        by (intro lossy_step) (simp_all add: replacement_def)
      then show ?thesis using eq no IH by simp
    qed
  qed simp
qed

lemma lossy_ascii: "\<forall>b\<in>set bs. b < 0x80 \<Longrightarrow> from_utf8_lossy bs = bs"
proof (induction bs)
  case (Cons b bs)
  then have "utf8_take ([b] @ r) = (length [b], True)" for r by (simp add: utf8_width_def)
  from lossy_step [of "[b]" bs] this [of "[]"] this [of bs] Cons show ?case by simp
qed simp

theorem from_utf8_lossy_wellformed:
  "from_utf8_lossy (from_utf8_lossy bs) = from_utf8_lossy bs \<and>
   ((\<exists>b\<in>set bs. 0x80 \<le> b) \<or> from_utf8_lossy bs = bs)"
  proof (cases "\<forall>b\<in>set bs. b < 0x80")
  case True
  then show ?thesis by (simp add: lossy_ascii)
next
  case False
  then show ?thesis by (auto simp: lossy_idempotent not_less)
qed

subsection \<open>Output\<close>

lemma load_accessible:
  assumes "accessible m a (unat n)" and "unat n < 2 ^ 63"
  shows "load oc a n m = (Val (map (\<lambda>i. the (guest_byte (mem m) (a + of_nat i))) [0..<unat n]), m)"
  using gm.rd_ok [of "mem m" a n oc] assms by (simp add: load_def accessible_def)

text \<open>C38: \<open>write\<close> of a mapped buffer to descriptor 1 or 2 appends the bytes, read as text with
  every ill-formed sequence replaced, to the output and returns the byte count.
  For any other descriptor it writes nothing and returns the count all the same.\<close>

theorem write_appends_text:
  assumes "get_x (ctx m) 8 = 64" and "accessible m (get_x (ctx m) 1) (unat (get_x (ctx m) 2))"
    and "unat (get_x (ctx m) 2) < 2 ^ 63"
  shows "linux_handle oc L m = (Val (get_x (ctx m) 2),
    m\<lparr>ctx := set_x 0 (get_x (ctx m) 2) (ctx m),
      mem := (mem m)\<lparr>stdout := stdout (mem m) @
        (if get_x (ctx m) 0 \<in> {1, 2}
         then from_utf8_lossy (map (\<lambda>i. the (guest_byte (mem m) (get_x (ctx m) 1 + of_nat i))) [0..<unat (get_x (ctx m) 2)])
         else [])\<rparr>\<rparr>)"
  using load_accessible [OF assms(2,3), of oc] assms(1)
  by (simp add: linux_handle_def arg_def sys_write_def bind_def ignore_err_def mem_comp_def finish_def
      on_ctx_def)

theorem write_appends_text_witness:
  "linux_handle True demo_libc (with_call 64 1 0x1000 2) =
     (Val 2, (with_call 64 1 0x1000 2)\<lparr>ctx := set_x 0 2 (ctx (with_call 64 1 0x1000 2)),
       mem := demo_mem\<lparr>stdout := stdout demo_mem @ [7, 7]\<rparr>\<rparr>)"
proof -
  let ?m = "with_call 64 1 0x1000 2"
  have b: "guest_byte demo_mem (0x1000 + of_nat i) = Some 7" if "i < 2" for i
  proof -
    have "i = 0 \<or> i = 1" using that by linarith
    then show ?thesis by (auto simp: demo_guest_byte)
  qed
  have acc: "accessible ?m (get_x (ctx ?m) 1) (unat (get_x (ctx ?m) 2))"
    using b by (auto simp: with_call_regs accessible_def demo_wf low_range_def RAW_BASE_def)
  have "[0..<2] = [0, 1 :: nat]" by (simp add: upt_rec)
  then have t: "map (\<lambda>i. the (guest_byte demo_mem (0x1000 + of_nat i))) [0..<2] = [7, 7]"
    using b [of 0] b [of 1] by simp
  have "from_utf8_lossy [7, 7] = [7, 7]" by (rule lossy_ascii) simp
  then show ?thesis
    using write_appends_text [OF _ acc, of True demo_libc] by (simp add: with_call_regs t)
qed

text \<open>A \<open>write\<close> from a buffer whose first byte is not mapped writes nothing and still
  returns the full count.\<close>

theorem write_hides_fault:
  assumes "get_x (ctx m) 8 = 64" and "wf_mem (mem m)" and "0 < get_x (ctx m) 2"
    and "low_range (get_x (ctx m) 1) (unat (get_x (ctx m) 2))"
    and "unat (get_x (ctx m) 2) < 2 ^ 63" and "guest_byte (mem m) (get_x (ctx m) 1) = None"
  shows "linux_handle oc L m =
    (Val (get_x (ctx m) 2), m\<lparr>ctx := set_x 0 (get_x (ctx m) 2) (ctx m)\<rparr>)"
proof -
  have "0 < unat (get_x (ctx m) 2)" using assms(3) by (simp add: word_less_nat_alt)
  then obtain e where "mem_read oc (mem m) (get_x (ctx m) 1) (get_x (ctx m) 2) = Fail e"
    using gm.rd_unmapped [OF assms(2), of "get_x (ctx m) 1" "get_x (ctx m) 2" 0 oc] assms(4-6)
    by (auto simp: low_range_def)
  then have "load oc (get_x (ctx m) 1) (get_x (ctx m) 2) m = (Fail e, m)" by (simp add: load_def)
  then show ?thesis using assms(1)
    by (simp add: linux_handle_def arg_def sys_write_def bind_def ignore_err_def finish_def on_ctx_def)
qed

theorem write_hides_fault_witness:
  "fst (linux_handle True demo_libc (with_call 64 1 0x5000 10)) = Val 10"
  using write_hides_fault [of "with_call 64 1 0x5000 10" True demo_libc] demo_wf
  by (simp add: with_call_regs low_range_def RAW_BASE_def demo_guest_byte)

subsection \<open>Mappings\<close>

text \<open>An \<open>mmap\<close> without an address always answers \<open>0x7f030000\<close>, and appends a segment
  there whatever is mapped there already: two such mappings share their guest range.\<close>

theorem mmap_null_is_fixed:
  assumes "get_x (ctx m) 8 = 222" and "get_x (ctx m) 0 = 0" and "linux_handle oc L m = (Val v, t)"
  shows "v = 0x7f030000 \<and> (\<exists>sg. segments (mem t) = segments (mem m) @ [sg] \<and>
    seg_addr sg = 0x7f030000 \<and> seg_size sg = get_x (ctx m) 1)"
  using assms
  by (auto simp: linux_handle_def arg_def sys_mmap_def Let_def mem_comp_def map_anonymous_def
      map_anonymous_prot_def finish_def on_ctx_def bind_def split: prod.splits sum.splits if_splits out.splits)

theorem mmap_null_is_fixed_witness:
  "\<exists>t. linux_handle True demo_libc (with_call 222 0 0x1000 7) = (Val 0x7f030000, t) \<and>
     (\<exists>sg. segments (mem t) = segments demo_mem @ [sg] \<and> seg_addr sg = 0x7f030000)"
proof -
  obtain s where "map_anonymous_prot bump_os 0x7f030000 0x1000 (Prot True True True) demo_mem = (Val 0x7f030000, s)"
    using demo_map [of "0x1000" "0x7f030000"] by auto
  then have "map_anonymous demo_libc 0x7f030000 0x1000 demo_mem = (Val 0x7f030000, s)"
    by (simp add: map_anonymous_def map_anonymous_prot_def bump_os_def demo_libc_def os.defs)
  then have "\<exists>t. linux_handle True demo_libc (with_call 222 0 0x1000 7) = (Val 0x7f030000, t)"
    by (simp add: linux_handle_def arg_def with_call_regs sys_mmap_def mem_comp_def finish_def on_ctx_def bind_def)
  then obtain t where t: "linux_handle True demo_libc (with_call 222 0 0x1000 7) = (Val 0x7f030000, t)" by blast
  with mmap_null_is_fixed [OF _ _ t] show ?thesis by (auto simp: with_call_regs)
qed

end
