(* ===== verification/Float_Correct.thy ===== *)
theory Float_Correct
  imports Interp_Float Interp_Branch Operand_Props
begin

text \<open>
  Floating-point comparison against the values the bit patterns stand for, and the
  conversions between registers of different sizes.
\<close>

unbundle bit_operations_syntax

subsection \<open>The value of a pattern\<close>

text \<open>
  The absolute value of the non-NaN double with magnitude bits \<open>m\<close>, as a multiple of
  \<open>2^-1074\<close>, the least positive double; infinity comes out above every finite value.
\<close>

definition scaled_abs :: "nat \<Rightarrow> nat" where
  "scaled_abs m =
     (let e = m div 2 ^ 52; frac = m mod 2 ^ 52
      in if e = 0 then frac else (2 ^ 52 + frac) * 2 ^ (e - 1))"

definition f64_scaled :: "u64 \<Rightarrow> int" where
  "f64_scaled w = (if is_neg w then - int (scaled_abs (f_magnitude w)) else int (scaled_abs (f_magnitude w)))"

lemma scaled_abs_Suc: "scaled_abs m < scaled_abs (Suc m)"
proof -
  define e f where "e = m div 2 ^ 52" and "f = m mod 2 ^ 52"
  have m: "m = e * 2 ^ 52 + f" and f: "f < 2 ^ 52" by (simp_all add: e_def f_def)
  show ?thesis
  proof (cases "Suc f < 2 ^ 52")
    case True
    have d: "Suc m div 2 ^ 52 = e" "Suc m mod 2 ^ 52 = Suc f"
      using m True by (simp_all add: div_nat_eqI mod_nat_eqI)
    show ?thesis unfolding scaled_abs_def Let_def d using e_def f_def by auto
  next
    case False
    with f have f2: "f = 2 ^ 52 - 1" by linarith
    then have "Suc m = (e + 1) * 2 ^ 52" using m by simp
    then have d: "Suc m div 2 ^ 52 = e + 1" "Suc m mod 2 ^ 52 = 0" by simp_all
    have "(2 ^ 52 + f) * 2 ^ (e - 1) < 2 ^ 52 * 2 ^ e" if "0 < e"
    proof -
      have "2 ^ e = 2 * (2 :: nat) ^ (e - 1)" using that by (cases e) simp_all
      then have "2 ^ 52 * 2 ^ e = (2 * 2 ^ 52) * (2 :: nat) ^ (e - 1)" by simp
      moreover have "2 ^ 52 + f < 2 * 2 ^ 52" using f by simp
      ultimately show ?thesis by simp
    qed
    then show ?thesis unfolding scaled_abs_def Let_def d using e_def f_def f by auto
  qed
qed

lemma scaled_abs_less_iff: "scaled_abs m < scaled_abs n \<longleftrightarrow> m < n"
  by (rule lift_Suc_mono_less_iff) (rule scaled_abs_Suc)

lemma scaled_abs_0 [simp]: "scaled_abs 0 = 0"
  by (simp add: scaled_abs_def)

lemma scaled_abs_pos: "0 < n \<Longrightarrow> 0 < scaled_abs n"
  using scaled_abs_less_iff [of 0 n] by simp

lemma scaled_key_less: "f64_scaled a < f64_scaled b \<longleftrightarrow> f_key a < f_key b"
  using scaled_abs_less_iff [of "f_magnitude a" "f_magnitude b"]
    scaled_abs_less_iff [of "f_magnitude b" "f_magnitude a"]
    scaled_abs_pos [of "f_magnitude a"] scaled_abs_pos [of "f_magnitude b"]
  by (cases "f_magnitude a = 0"; cases "f_magnitude b = 0") (auto simp: f64_scaled_def f_key_def)

lemma scaled_key_eq: "f64_scaled a = f64_scaled b \<longleftrightarrow> f_key a = f_key b"
  using scaled_key_less [of a b] scaled_key_less [of b a] by linarith

text \<open>A floating-point unit for the witnesses: every result is 0.\<close>

definition demo_fpu :: fpu where
  "demo_fpu = \<lparr>f64_arith = (\<lambda>_ _ _. 0), f32_arith = (\<lambda>_ _ _. 0), f64_sqrt = (\<lambda>_. 0),
     f32_sqrt = (\<lambda>_. 0), f32_to_f64 = (\<lambda>_. 0), f64_to_f32 = (\<lambda>_. 0), int_to_f64 = (\<lambda>_. 0),
     int_to_f32 = (\<lambda>_. 0)\<rparr>"

subsection \<open>Comparison and branch\<close>

text \<open>What a conditional branch after FCMP tests on ordered operands.\<close>

fun fcmp_spec :: "branch_op \<Rightarrow> int \<Rightarrow> int \<Rightarrow> bool" where
  "fcmp_spec B_EQ a b \<longleftrightarrow> a = b"
| "fcmp_spec B_NE a b \<longleftrightarrow> a \<noteq> b"
| "fcmp_spec B_MI a b \<longleftrightarrow> a < b"
| "fcmp_spec B_CC a b \<longleftrightarrow> a < b"
| "fcmp_spec B_LT a b \<longleftrightarrow> a < b"
| "fcmp_spec B_LS a b \<longleftrightarrow> a \<le> b"
| "fcmp_spec B_LE a b \<longleftrightarrow> a \<le> b"
| "fcmp_spec B_GT a b \<longleftrightarrow> b < a"
| "fcmp_spec B_HI a b \<longleftrightarrow> b < a"
| "fcmp_spec B_GE a b \<longleftrightarrow> b \<le> a"
| "fcmp_spec B_CS a b \<longleftrightarrow> b \<le> a"
| "fcmp_spec B_PL a b \<longleftrightarrow> b \<le> a"
| "fcmp_spec B_VC a b \<longleftrightarrow> True"
| "fcmp_spec _ a b \<longleftrightarrow> False"

text \<open>The conditions that hold of unordered operands, whose flags are 0011.\<close>

definition fcmp_unordered :: "branch_op set" where
  "fcmp_unordered = {B_NE, B_CS, B_PL, B_VS, B_HI, B_LT, B_LE}"

lemma exec_FCMP_flags:
  assumes "d < 32" and "e < 32"
  shows "exec_FCMP [O_Reg (RD d) x, O_Reg (RD e) y] c =
    (let (n, z, cf, v) = f_compare 52 (get_f64 c d) (get_f64 c e) in set_nzcv n z cf v c)"
  using assms by (simp add: exec_FCMP_def vec_idx_def)

text \<open>C36: a branch after FCMP of two doubles, on any of the fourteen conditions: for two
  numbers it is taken exactly when the relation holds between their values (less for MI, CC
  and LT, less or equal for LS and LE, greater for GT and HI, greater or equal for GE, CS
  and PL), zeros of both signs being equal; with a NaN the conditions NE, CS, PL, VS, HI, LT
  and LE are taken and EQ, CC, MI, VC, LS, GE and GT are not.\<close>

theorem fcmp_then_branch:
  assumes "d < 32" and "e < 32"
  shows "exec_B_cond D r [O_Label target] next_pc (exec_FCMP [O_Reg (RD d) x, O_Reg (RD e) y] c) =
    (if (if f_is_nan 52 (get_f64 c d) \<or> f_is_nan 52 (get_f64 c e) then r \<in> fcmp_unordered
         else fcmp_spec r (f64_scaled (get_f64 c d)) (f64_scaled (get_f64 c e)))
     then imm_to_u64 target else next_pc)"
  by (cases r)
    (auto simp: exec_B_cond_def exec_FCMP_flags [OF assms] f_compare_def
      fcmp_unordered_def scaled_key_less scaled_key_eq linorder_not_less le_less)

theorem fcmp_then_branch_witness:
  "exec_B_cond (text_bad64 (\<lambda>w a. Inl [])) B_EQ [O_Label (Unsigned 0x400)] 0x104
     (exec_FCMP [O_Reg (RD 0) [], O_Reg (RD 1) []] (set_v_bytes 1 (replicate 7 0 @ [0x80] @ replicate 8 0) cpu_new)) = 0x400"
proof -
  let ?c = "set_v_bytes 1 (replicate 7 0 @ [0x80] @ replicate 8 0) cpu_new"
  have v: "ctx_v ?c ! 0 = replicate 16 0" "ctx_v ?c ! 1 = replicate 7 0 @ [0x80] @ replicate 8 0"
    by (simp_all add: v_set_v_bytes wf_cpu_new, simp add: cpu_new_def)
  have r: "replicate 8 (0 :: u8) = [0, 0, 0, 0, 0, 0, 0, 0]" "replicate 7 (0 :: u8) = [0, 0, 0, 0, 0, 0, 0]"
    by (simp_all add: numeral_nat)
  have f: "get_f64 ?c 0 = 0" "get_f64 ?c 1 = 0x8000000000000000"
    by (simp_all only: get_f64_def v) (simp_all add: r push_bit_eq_mult)
  have m: "f_magnitude (0 :: u64) = 0" "f_magnitude (0x8000000000000000 :: u64) = 0"
    by (simp_all add: f_magnitude_def take_bit_eq_mod)
  have z: "f64_scaled (0 :: u64) = 0" "f64_scaled (0x8000000000000000 :: u64) = 0"
    "\<not> f_is_nan 52 (0 :: u64)" "\<not> f_is_nan 52 (0x8000000000000000 :: u64)"
    by (simp_all add: f64_scaled_def f_is_nan_def m)
  show ?thesis
    using fcmp_then_branch [of 0 1 "(text_bad64 (\<lambda>w a. Inl []))" B_EQ "Unsigned 0x400" "0x104" "[]" "[]" ?c]
    unfolding f by (simp add: z)
qed

subsection \<open>Conversion to integers\<close>

lemma magnitude_fields:
  "f_magnitude (w :: u64) div 2 ^ 52 = unat (take_bit 11 (drop_bit 52 w))"
  "f_magnitude w mod 2 ^ 52 = unat (take_bit 52 w)"
proof -
  have "take_bit 11 (drop_bit 52 w) = drop_bit 52 (take_bit 63 w)"
    by (rule bit_word_eqI) (auto simp: bit_take_bit_iff bit_drop_bit_eq)
  moreover have "unat (drop_bit 52 (take_bit 63 w)) = unat (take_bit 63 w) div 2 ^ 52"
  proof -
    have "unat (take_bit 63 w) mod 2 ^ 64 = unat (take_bit 63 w)"
      using unsigned_less [of "take_bit 63 w"] by (intro mod_less) simp
    then show ?thesis by (simp only: unsigned_drop_bit_eq) (simp add: drop_bit_eq_div take_bit_eq_mod)
  qed
  ultimately show "f_magnitude w div 2 ^ 52 = unat (take_bit 11 (drop_bit 52 w))"
    by (simp add: f_magnitude_def)
  have "take_bit 52 (take_bit 63 (unat w)) = take_bit 52 (unat w)" by (simp add: take_bit_take_bit)
  then show "f_magnitude w mod 2 ^ 52 = unat (take_bit 52 w)"
    unfolding f_magnitude_def take_bit_eq_mod [symmetric] by (simp add: unsigned_take_bit_eq)
qed

lemma div_pow_cancel: "k \<le> n \<Longrightarrow> (a * 2 ^ k) div 2 ^ n = a div (2 :: nat) ^ (n - k)"
proof -
  assume "k \<le> n"
  then have "(2 :: nat) ^ n = 2 ^ k * 2 ^ (n - k)" by (simp flip: power_add)
  then show ?thesis by (simp add: ac_simps)
qed

lemma scale_then_truncate:
  "(if n + 1 \<le> e then sig * 2 ^ (e - (n + 1)) else sig div 2 ^ (n + 1 - max e 1)) =
    sig * 2 ^ (max e 1 - 1) div (2 :: nat) ^ n"
proof (cases "n + 1 \<le> e")
  case True
  then have "max e 1 - 1 = n + (e - (n + 1))" by simp
  then have "(2 :: nat) ^ (max e 1 - 1) = 2 ^ n * 2 ^ (e - (n + 1))" by (simp only: power_add)
  then show ?thesis using True by simp
next
  case False
  then have "max e 1 - 1 \<le> n" "n - (max e 1 - 1) = n + 1 - max e 1" by auto
  then show ?thesis using False div_pow_cancel [of "max e 1 - 1" n sig] by simp
qed

text \<open>The integer part of a double, from its value.\<close>

lemma f64_trunc_value:
  "f64_trunc w = (if is_neg w then - int (scaled_abs (f_magnitude w) div 2 ^ 1074)
     else int (scaled_abs (f_magnitude w) div 2 ^ 1074))"
proof -
  define e frac where "e = unat (take_bit 11 (drop_bit 52 w))" and "frac = unat (take_bit 52 w)"
  define sig where "sig = (if e = 0 then frac else 2 ^ 52 + frac)"
  have sc: "scaled_abs (f_magnitude w) = sig * 2 ^ (max e 1 - 1)"
    unfolding scaled_abs_def Let_def magnitude_fields e_def [symmetric] frac_def [symmetric]
    by (simp add: sig_def max_def)
  have n: "1074 + 1 = (1075 :: nat)" by simp
  show ?thesis
    unfolding f64_trunc_def Let_def e_def [symmetric] frac_def [symmetric] sig_def [symmetric] sc
      scale_then_truncate [of 1074 e sig, unfolded n] by (rule refl)
qed

definition clamp_i64 :: "int \<Rightarrow> int" where
  "clamp_i64 i = max (- (2 ^ 63)) (min (2 ^ 63 - 1) i)"

lemma sint_clamp: "sint (word_of_int (clamp_i64 i) :: u64) = clamp_i64 i"
  unfolding sint_sbintrunc' by (intro signed_take_bit_int_eq_self) (auto simp: clamp_i64_def)

text \<open>C37: FCVTZS from a double to an X register gives the value rounded towards zero and
  saturated to 64 bits, and 0 for a NaN; to a W register it gives the low 32 bits of that,
  not the value saturated to 32 bits.\<close>

theorem fcvtzs_value:
  assumes "wf_cpu c" and "d < 31" and "n < 32"
  shows "let v = get_f64 c n;
      i = (if f_is_nan 52 v then 0
           else clamp_i64 (sgn (f64_scaled v) * (\<bar>f64_scaled v\<bar> div 2 ^ 1074)))
    in sint (get_x (exec_FCVTZ F D FCVTZS [O_Reg (RX d) x, O_Reg (RD n) y] c) d) = i \<and>
       get_x (exec_FCVTZ F D FCVTZS [O_Reg (RW d) x, O_Reg (RD n) y] c) d = take_bit 32 (word_of_int i)"
proof -
  let ?v = "get_f64 c n"
  have t: "f64_trunc ?v = sgn (f64_scaled ?v) * (\<bar>f64_scaled ?v\<bar> div 2 ^ 1074)"
    by (cases "scaled_abs (f_magnitude ?v) = 0")
      (auto simp: f64_trunc_value f64_scaled_def zdiv_int)
  have i: "f64_to_i64 ?v = word_of_int (if f_is_nan 52 ?v then 0
      else clamp_i64 (sgn (f64_scaled ?v) * (\<bar>f64_scaled ?v\<bar> div 2 ^ 1074)))"
    by (simp add: f64_to_i64_def t clamp_i64_def)
  have X: "get_x (exec_FCVTZ F D FCVTZS [O_Reg (RX d) x, O_Reg (RD n) y] c) d = f64_to_i64 ?v"
    "get_x (exec_FCVTZ F D FCVTZS [O_Reg (RW d) x, O_Reg (RD n) y] c) d = take_bit 32 (f64_to_i64 ?v)"
    using assms by (simp_all add: exec_FCVTZ_def vec_idx_def Let_def get_x_set_same low32_mask take_bit_eq_mask)
  show ?thesis unfolding Let_def X unfolding i by (simp add: sint_clamp)
qed

theorem fcvtzs_value_witness:
  "sint (get_x (exec_FCVTZ demo_fpu (text_bad64 (\<lambda>w a. Inl [])) FCVTZS [O_Reg (RX 3) [], O_Reg (RD 1) []]
     (set_v_bytes 1 (replicate 6 0 @ [0x0c, 0xc0] @ replicate 8 0) cpu_new)) 3) = - 3"
proof -
  let ?c = "set_v_bytes 1 (replicate 6 0 @ [0x0c, 0xc0] @ replicate 8 0) cpu_new"
  have wf: "wf_cpu ?c" by (simp add: wf_cpu_new)
  have v: "ctx_v ?c ! 1 = replicate 6 0 @ [0x0c, 0xc0] @ replicate 8 0"
    by (simp add: v_set_v_bytes wf_cpu_new)
  have r: "replicate 8 (0 :: u8) = [0, 0, 0, 0, 0, 0, 0, 0]" "replicate 6 (0 :: u8) = [0, 0, 0, 0, 0, 0]"
    by (simp_all add: numeral_nat)
  have f: "get_f64 ?c 1 = 0xc00c000000000000"
    by (simp only: get_f64_def v) (simp add: r push_bit_eq_mult)
  have m: "f_magnitude (0xc00c000000000000 :: u64) = 0x400c000000000000"
    by (simp add: f_magnitude_def take_bit_eq_mod)
  have n: "is_neg (0xc00c000000000000 :: u64)" by (simp add: is_neg_def signed_take_bit_eq_take_bit_shift take_bit_eq_mod)
  have "scaled_abs 0x400c000000000000 = 7 * 2 ^ 1073"
    by (simp add: scaled_abs_def)
  then have "f64_scaled (0xc00c000000000000 :: u64) = - (7 * 2 ^ 1073)"
    by (simp add: f64_scaled_def m n)
  then have "sgn (f64_scaled (0xc00c000000000000 :: u64)) * (\<bar>f64_scaled (0xc00c000000000000 :: u64)\<bar> div 2 ^ 1074) = - 3"
    by simp
  then show ?thesis
    using fcvtzs_value [OF wf, of 3 1 demo_fpu "(text_bad64 (\<lambda>w a. Inl []))" "[]" "[]"] unfolding f
    by (simp add: f_is_nan_def f_infinity_def m clamp_i64_def Let_def)
qed

subsection \<open>Conversion from integers\<close>

text \<open>SCVTF from a W register converts its low 32 bits as an unsigned number, so that a
  negative 32-bit value becomes a large positive double.\<close>

theorem scvtf_w_is_unsigned:
  assumes "wf_cpu c" and "d < 32" and "n < 31"
  shows "get_f64 (exec_SCVTF F D SCVTF [O_Reg (RD d) x, O_Reg (RW n) y] c) d =
    int_to_f64 F (uint (take_bit 32 (get_x c n)))"
proof -
  have l: "length (ctx_v c ! d) = 16" using assms by (simp add: wf_cpu_v)
  have "sint (take_bit 32 (get_x c n)) = uint (take_bit 32 (get_x c n))"
    by (simp add: signed_eq_0_iff sint_uint signed_take_bit_take_bit unsigned_take_bit_eq
        signed_take_bit_eq_if_positive bit_take_bit_iff)
  then show ?thesis
    using assms l
    by (simp add: exec_SCVTF_def vec_idx_def Let_def put_low_def get_f64_def v_set_v_bytes copy_at_def
        from_to_le_bytes low32_mask take_bit_eq_mask)
qed

end
