(* ===== verification/Footprint.thy ===== *)
theory Footprint
  imports Machine_Wf
begin

text \<open>
  What a step may change in memory: the ranges an instruction stores to, computed from its
  operands and the registers before it, and the proof that every other byte of the host
  stays as it was. An instruction without such a range leaves the whole memory alone.
\<close>

unbundle bit_operations_syntax

subsection \<open>The host bytes behind a guest range\<close>

definition host_bytes :: "'h sys \<Rightarrow> u64 \<Rightarrow> nat \<Rightarrow> u64 set" where
  "host_bytes s a n =
     (if RAW_BASE \<le> a then {a + of_nat i |i. i < n}
      else {p. \<exists>i<n. host_addr (segments s) (a + of_nat i) = Some p})"

lemma host_bytes_mono: "k \<le> n \<Longrightarrow> host_bytes s a k \<subseteq> host_bytes s a n"
  by (auto simp: host_bytes_def split: if_splits) (meson less_le_trans)+

text \<open>The bytes of \<open>P\<close> may differ; maps, break, kernel, output and all other bytes are kept.\<close>

definition changes_only :: "u64 set \<Rightarrow> 'h sys \<Rightarrow> 'h sys \<Rightarrow> bool" where
  "changes_only P s t \<longleftrightarrow> same_map s t \<and> (\<forall>p. p \<notin> P \<longrightarrow> host_mem t p = host_mem s p)"

lemma changes_only_refl [simp]: "changes_only P s s"
  by (simp add: changes_only_def)

lemma changes_nothing: "changes_only {} s t \<Longrightarrow> t = s"
  by (cases s; cases t) (auto simp: changes_only_def same_map_def)

text \<open>At the level of the guest: the bytes outside the ranges read as before.\<close>

lemma changes_only_guest:
  assumes wf: "wf_mem s" and ch: "changes_only (\<Union>(a, n) \<in> R. host_bytes s a n) s t"
    and low: "\<And>a n. (a, n) \<in> R \<Longrightarrow> unat a + n \<le> unat RAW_BASE"
    and x: "\<And>a n. (a, n) \<in> R \<Longrightarrow> \<not> in_range a n x"
  shows "guest_byte t x = guest_byte s x"
proof (cases "lookup_seg (segments s) x")
  case None
  then show ?thesis using ch by (simp add: guest_byte_def host_addr_def changes_only_def same_map_def)
next
  case (Some g)
  let ?p = "seg_ptr g + (x - seg_addr g)"
  have "?p \<notin> host_bytes s a n" if r: "(a, n) \<in> R" for a n
  proof
    assume p: "?p \<in> host_bytes s a n"
    have small: "unat a + n \<le> 0x500000000000" using low [OF r] by (simp add: RAW_BASE_def)
    show False
    proof (cases "n = 0")
      case True
      with p show False by (simp add: host_bytes_def split: if_splits)
    next
      case False
      then have "\<not> RAW_BASE \<le> a" using small by (simp add: RAW_BASE_def word_le_unat)
      with p obtain i where i: "i < n" and h: "host_addr (segments s) (a + of_nat i) = Some ?p"
        by (auto simp: host_bytes_def)
      then obtain g' where "lookup_seg (segments s) (a + of_nat i) = Some g'"
        "seg_ptr g' + (a + of_nat i - seg_addr g') = ?p" by (auto simp: host_addr_def)
      from host_addr_inj [OF wf this(1) Some this(2)] have e: "x = a + of_nat i" by simp
      have "unat x = unat a + i" unfolding e using small i by (intro unat_add_of_nat) simp
      with i have "in_range a n x" by (simp add: in_range_def word_le_unat)
      with x [OF r] show False by simp
    qed
  qed
  then have "?p \<notin> (\<Union>(a, n) \<in> R. host_bytes s a n)" by auto
  with ch have "host_mem t ?p = host_mem s ?p" by (auto simp: changes_only_def)
  moreover have "segments t = segments s" using ch by (simp add: changes_only_def same_map_def)
  ultimately show ?thesis using Some by (simp add: guest_byte_def host_addr_def)
qed

subsection \<open>Writes\<close>

lemma hstore_frame:
  "hstore hm p bs = Some hm' \<Longrightarrow> (\<And>i. i < length bs \<Longrightarrow> q \<noteq> p + of_nat i) \<Longrightarrow> hm' q = hm q"
proof (induction hm p bs rule: hstore.induct)
  case (1 hm p)
  then show ?case by simp
next
  case (2 hm p b bs)
  then obtain c where c: "hm p = Some c" "cell_wr c"
    and st: "hstore (hm(p \<mapsto> Cell b (cell_rd c) True)) (p + 1) bs = Some hm'"
    by (auto split: option.splits if_splits)
  have "q \<noteq> p + 1 + of_nat i" if "i < length bs" for i
    using 2(3) [of "Suc i"] that by (simp add: add.assoc)
  with 2(1) [OF c st] have "hm' q = (hm(p \<mapsto> Cell b (cell_rd c) True)) q" by blast
  moreover have "q \<noteq> p" using 2(3) [of 0] by simp
  ultimately show ?case by simp
qed

lemma write_loop_frame:
  assumes wf: "wf_mem t"
  shows "write_loop oc (segments t) a data k hm = (r, hm') \<Longrightarrow>
    (\<And>i. i < length data \<Longrightarrow> host_addr (segments t) (a + of_nat i) \<noteq> Some q) \<Longrightarrow> hm' q = hm q"
proof (induction "length data - k" arbitrary: k hm rule: less_induct)
  case less
  from less.prems(1) consider "hm' = hm"
    | cur s n hm1 where "k < length data" "ck_add oc a (of_nat k) = Val cur"
        "find_seg oc (segments t) cur = Val (Some s)" "n = chunk_len s cur (length data - k)" "n \<noteq> 0"
        "hstore hm (seg_ptr s + (cur - seg_addr s)) (slice_at k n data) = Some hm1"
        "write_loop oc (segments t) a data (k + n) hm1 = (r, hm')"
    unfolding write_loop.simps [of oc "segments t" a data k hm] Let_def
    by (auto simp: bindO_Val_iff split: if_splits out.splits option.splits prod.splits)
  then show ?case
  proof cases
    case 1
    then show ?thesis by simp
  next
    case 2
    have cur: "cur = a + of_nat k" using 2(2) by (simp add: ck_add_def split: if_splits)
    have lk: "lookup_seg (segments t) cur = Some s" using 2(3) wf_mem_find_seg [OF wf] by simp
    have n: "k + n \<le> length data" using 2(1,4) by (simp add: chunk_len_def)
    have "q \<noteq> seg_ptr s + (cur - seg_addr s) + of_nat j" if "j < length (slice_at k n data)" for j
    proof -
      have j: "j < n" using that n by simp
      note c = chunk_in_seg [OF wf lk j [unfolded 2(4)]]
      have "host_addr (segments t) (a + of_nat (k + j)) =
          Some (seg_ptr s + (cur - seg_addr s) + of_nat j)"
        using c(1,2) by (simp add: host_addr_def cur add.assoc)
      with less.prems(2) [of "k + j"] j n show ?thesis by auto
    qed
    with hstore_frame [OF 2(6)] have "hm1 q = hm q" by blast
    moreover have "length data - (k + n) < length data - k" using 2(1,5) n by linarith
    from less.hyps [OF this 2(7) less.prems(2)] have "hm' q = hm1 q" .
    ultimately show ?thesis by simp
  qed
qed

lemma mem_write_changes:
  assumes "wf_mem t"
  shows "changes_only (host_bytes t a (length bs)) t (snd (mem_write oc a bs t))"
proof -
  have "host_mem (snd (mem_write oc a bs t)) q = host_mem t q" if "q \<notin> host_bytes t a (length bs)" for q
  proof (cases "RAW_BASE \<le> a")
    case True
    show ?thesis
    proof (cases "hstore (host_mem t) a bs")
      case None
      then show ?thesis using True by (simp add: mem_write_def)
    next
      case (Some hm)
      have "hm q = host_mem t q"
        by (rule hstore_frame [OF Some]) (use that True in \<open>auto simp: host_bytes_def\<close>)
      then show ?thesis using True Some by (simp add: mem_write_def)
    qed
  next
    case False
    obtain r hm where l: "write_loop oc (segments t) a bs 0 (host_mem t) = (r, hm)" by fastforce
    have "hm q = host_mem t q"
      by (rule write_loop_frame [OF assms l]) (use that False in \<open>auto simp: host_bytes_def\<close>)
    then show ?thesis using False l by (simp add: mem_write_def)
  qed
  moreover have "same_map t (snd (mem_write oc a bs t))"
    by (rule keepsD [OF keeps_same_map_write]) simp
  ultimately show ?thesis by (simp add: changes_only_def)
qed

lemma keeps_store_changes:
  assumes "wf_mem s" and "host_bytes s a (length bs) \<subseteq> P"
  shows "keeps (on_mem (changes_only P s)) (store oc a bs)"
  unfolding store_def
proof (rule keeps_mem_comp_mem)
  have "changes_only P s (snd (mem_write oc a bs t))" if t: "changes_only P s t" for t
  proof -
    have m: "same_map s t" using t by (simp add: changes_only_def)
    then have seg: "segments t = segments s" by (simp add: same_map_def)
    have hb: "host_bytes t a k = host_bytes s a k" for a k by (simp add: host_bytes_def seg)
    have w: "changes_only (host_bytes s a (length bs)) t (snd (mem_write oc a bs t))"
      using mem_write_changes [OF same_map_wf_mem [OF m assms(1)], of a bs oc] hb by simp
    then have "same_map s (snd (mem_write oc a bs t))"
      using m by (simp add: changes_only_def same_map_def)
    moreover have "host_mem (snd (mem_write oc a bs t)) p = host_mem s p" if "p \<notin> P" for p
      using w t that assms(2) unfolding changes_only_def by (metis subsetD)
    ultimately show ?thesis by (simp add: changes_only_def)
  qed
  then show "keeps (changes_only P s) (mem_write oc a bs)" by (simp add: keeps_def)
qed

lemma keeps_store_m_changes:
  "wf_mem s \<Longrightarrow> length bs \<le> n \<Longrightarrow> host_bytes s a n \<subseteq> P \<Longrightarrow>
     keeps (on_mem (changes_only P s)) (store_m oc pc a bs)"
  by (intro keeps_store_m keeps_store_changes) (use host_bytes_mono [of "length bs" n s a] in auto)

subsection \<open>The ranges of an instruction\<close>

text \<open>The address of a memory operand; the code's evaluation also writes the base back.\<close>

fun effective_addr :: "'x bad64 \<Rightarrow> 'x operand \<Rightarrow> cpu_context \<Rightarrow> u64 option" where
  "effective_addr D (O_Reg r x) c = Some (get_reg_val D r c)"
| "effective_addr D (O_QualReg r x) c = Some (get_reg_val D r c)"
| "effective_addr D (O_MemReg r) c = Some (get_reg_val D r c)"
| "effective_addr D (O_MemOffset r offset x) c = Some (get_reg_val D r c + imm_to_i64 offset)"
| "effective_addr D (O_MemPreIdx r imm x) c = Some (get_reg_val D r c + imm_to_i64 imm)"
| "effective_addr D (O_MemPostIdxImm r imm x) c = Some (get_reg_val D r c)"
| "effective_addr D (O_MemPostIdxReg r r1) c = Some (get_reg_val D r c)"
| "effective_addr D (O_MemExt r r1 (Some sh) x) c =
     Some (get_reg_val D r c + eval_shift_reg D r1 sh c)"
| "effective_addr D (O_MemExt r r1 None x) c =
     Some (get_reg_val D r c +
       (if is_w_reg r1 then take_bit 32 (get_reg_val D r1 c) else get_reg_val D r1 c))"
| "effective_addr D (O_Label imm) c = Some (imm_to_u64 imm)"
| "effective_addr D _ c = None"

lemma ck_sadd_Val: "ck_sadd oc a b = Val c \<Longrightarrow> c = a + b"
  by (auto simp: ck_sadd_def split: if_splits)

lemma ucast_low_32: "(ucast (ucast (w :: u64) :: u32) :: u64) = take_bit 32 w"
  by (rule bit_word_eqI) (auto simp: bit_ucast_iff bit_take_bit_iff)

lemma eval_mem_addr_effective:
  "eval_mem_addr oc D op c = (Val (Some a), c') \<Longrightarrow> effective_addr D op c = Some a"
proof (induction oc D op c rule: eval_mem_addr.induct)
  case (7 oc D r0 r1 sh x c)
  then show ?case by (cases sh) (auto simp: Let_def ucast_low_32)
qed (auto simp: Let_def bind_def bindO_Val_iff dest!: ck_sadd_Val split: out.splits)

text \<open>How many bytes a store of a register writes.\<close>

definition store_width :: "'x bad64 \<Rightarrow> reg \<Rightarrow> nat" where
  "store_width D r = (if is_w_reg r then 4 else if v_reg_idx r \<noteq> None then reg_size D r else 8)"

definition pair_width :: "'x bad64 \<Rightarrow> 'x operand list \<Rightarrow> nat" where
  "pair_width D ops =
     (let r1 = (case get_op_reg (ops ! 0) of Some r \<Rightarrow> r | None \<Rightarrow> XZR);
          r2 = (case get_op_reg (ops ! 1) of Some r \<Rightarrow> r | None \<Rightarrow> XZR)
      in if v_reg_idx r1 \<noteq> None \<and> v_reg_idx r2 \<noteq> None then reg_size D r1
         else if is_w_reg r1 then 4 else 8)"

text \<open>
  The shape of a store: the operand that gives the address, the width of one access and the
  number of consecutive accesses. Loads and malformed operands have none.
\<close>

definition store_shape :: "'x bad64 \<Rightarrow> mem_op \<Rightarrow> 'x operand list \<Rightarrow> (nat \<times> nat \<times> nat) option" where
  "store_shape D opc ops =
     (if length ops < 2 then None
      else if opc \<in> {STR_op, STUR, STLR}
      then map_option (\<lambda>r. (1, store_width D r, 1)) (get_op_reg (ops ! 0))
      else if opc \<in> {STRH, STURH} then Some (1, 2, 1)
      else if opc \<in> {STRB, STURB, STLRB} then Some (1, 1, 1)
      else if opc = ST1
      then Some (1, if is_64bit_vector D (ops ! 0) then 8 else 16, length (get_multi_regs (ops ! 0)))
      else if length ops < 3 then None
      else if opc \<in> {STXR, STLXR} then Some (2, 8, 1)
      else if opc \<in> {STXRB, STLXRB} then Some (2, 1, 1)
      else if opc = STP then Some (2, pair_width D ops, 2)
      else None)"

definition store_ranges ::
  "'x bad64 \<Rightarrow> mem_op \<Rightarrow> 'x operand list \<Rightarrow> cpu_context \<Rightarrow> (u64 \<times> nat) list" where
  "store_ranges D opc ops c =
     (case store_shape D opc ops of
        None \<Rightarrow> []
      | Some (i, w, k) \<Rightarrow>
          (case effective_addr D (ops ! i) c of
             None \<Rightarrow> []
           | Some a \<Rightarrow> map (\<lambda>j. (a + of_nat (j * w), w)) [0..<k]))"

definition ranges_bytes :: "'h sys \<Rightarrow> (u64 \<times> nat) list \<Rightarrow> u64 set" where
  "ranges_bytes s R = (\<Union>(a, n) \<in> set R. host_bytes s a n)"

subsection \<open>The stores stay in their ranges\<close>

lemma with_addr_changes:
  assumes "\<And>a. effective_addr D op (ctx m) = Some a \<Longrightarrow> keeps (on_mem (changes_only P (mem m))) (f a)"
  shows "changes_only P (mem m) (mem (snd (with_addr oc D op f m)))"
proof -
  obtain r c' where e: "eval_mem_addr oc D op (ctx m) = (r, c')" by fastforce
  show ?thesis
  proof (cases "\<exists>a. r = Val (Some a)")
    case True
    then obtain a where a: "r = Val (Some a)" by blast
    have "keeps (on_mem (changes_only P (mem m))) (f a)"
      by (rule assms) (rule eval_mem_addr_effective [OF e [unfolded a]])
    from keepsD [OF this, of "m\<lparr>ctx := c'\<rparr>"] show ?thesis
      by (simp add: with_addr_def ctx_comp_def e a bind_def)
  next
    case False
    then show ?thesis
      by (cases r) (auto simp: with_addr_def ctx_comp_def e bind_def ret_def split: option.splits)
  qed
qed

lemma ranges_bytes_one [simp]: "ranges_bytes s [(a, n)] = host_bytes s a n"
  by (simp add: ranges_bytes_def)

lemma range_subset: "(a, n) \<in> set R \<Longrightarrow> host_bytes s a n \<subseteq> ranges_bytes s R"
  by (auto simp: ranges_bytes_def)

lemma keeps_st1_regs_changes:
  assumes "wf_mem s"
    and "\<And>j. j < length regs \<Longrightarrow> host_bytes s (addr + of_nat (j * sz)) sz \<subseteq> P"
  shows "keeps (on_mem (changes_only P s)) (st1_regs oc pc sz regs addr)"
  using assms(2)
proof (induction regs arbitrary: addr)
  case Nil
  then show ?case by (simp add: keeps_intros)
next
  case (Cons r regs)
  have one: "host_bytes s addr sz \<subseteq> P" using Cons.prems [of 0] by simp
  have "keeps (on_mem (changes_only P s)) (st1_regs oc pc sz regs (addr + of_nat sz))"
  proof (rule Cons.IH)
    fix j assume "j < length regs"
    with Cons.prems [of "Suc j"] show "host_bytes s (addr + of_nat sz + of_nat (j * sz)) sz \<subseteq> P"
      by (simp add: algebra_simps)
  qed
  then have rest: "keeps (on_mem (changes_only P s))
      (bind (lift (ck_add oc addr (of_nat sz))) (st1_regs oc pc sz regs))"
    by (cases "ck_add oc addr (of_nat sz)") (auto simp: keeps_def ck_add_def split: if_splits)
  show ?case
    unfolding st1_regs.simps
    by (intro keeps_bind keeps_option keeps_gets keeps_ret keeps_store_m_changes [OF assms(1) _ one] rest) simp
qed

text \<open>The single access of most stores, at its effective address.\<close>

lemma single_store_changes:
  assumes wf: "wf_mem (mem m)" and shape: "store_shape D opc ops = Some (i, w, 1)"
    and f: "\<And>a. keeps (on_mem (changes_only (host_bytes (mem m) a w) (mem m))) (f a)"
  shows "changes_only (ranges_bytes (mem m) (store_ranges D opc ops (ctx m))) (mem m)
    (mem (snd (with_addr oc D (ops ! i) f m)))"
  by (rule with_addr_changes) (use f in \<open>simp add: store_ranges_def shape\<close>)

lemma exec_STR_changes:
  assumes wf: "wf_mem (mem m)" and opc: "opc \<in> {STR_op, STUR, STLR}"
  shows "changes_only (ranges_bytes (mem m) (store_ranges D opc ops (ctx m))) (mem m)
    (mem (snd (exec_STR oc D pc ops m)))"
proof (cases "length ops < 2 \<or> get_op_reg (ops ! 0) = None")
  case True
  then show ?thesis by (auto simp: exec_STR_def with_reg_def ret_def)
next
  case False
  then obtain r where r: "get_op_reg (ops ! 0) = Some r" and l: "\<not> length ops < 2" by auto
  let ?f = "\<lambda>addr. if is_w_reg r then store_m oc pc addr (to_le_bytes (ucast (get_operand_val D (ops ! 0) (ctx m)) :: u32))
       else case v_reg_idx r of
         Some idx \<Rightarrow> bind (gets (\<lambda>m. ctx_v (ctx m) ! idx)) (\<lambda>v. store_m oc pc addr (take (reg_size D r) v))
       | None \<Rightarrow> store_m oc pc addr (to_le_bytes (get_operand_val D (ops ! 0) (ctx m)))"
  have "changes_only (ranges_bytes (mem m) (store_ranges D opc ops (ctx m))) (mem m)
      (mem (snd (with_addr oc D (ops ! 1) ?f m)))"
  proof (rule single_store_changes [OF wf])
    show "store_shape D opc ops = Some (1, store_width D r, 1)"
      using l r opc by (simp add: store_shape_def)
    show "keeps (on_mem (changes_only (host_bytes (mem m) a (store_width D r)) (mem m))) (?f a)" for a
      by (auto simp: store_width_def simp del: bind_gets split: option.split
          intro!: keeps_store_m_changes [OF wf] keeps_bind keeps_gets
          dest: subsetD [OF host_bytes_mono [OF min.cobounded2]])
  qed
  then show ?thesis using l r by (simp add: exec_STR_def with_reg_def operand_val_def)
qed

lemma narrow_store_changes:
  assumes wf: "wf_mem (mem m)"
  shows "opc \<in> {STRH, STURH} \<Longrightarrow> changes_only (ranges_bytes (mem m) (store_ranges D opc ops (ctx m))) (mem m)
      (mem (snd (exec_STRH oc D pc ops m)))"
    and "opc \<in> {STRB, STURB, STLRB} \<Longrightarrow> changes_only (ranges_bytes (mem m) (store_ranges D opc ops (ctx m))) (mem m)
      (mem (snd (exec_STRB oc D pc ops m)))"
  unfolding exec_STRH_def exec_STRB_def operand_val_def bind_gets
  by (cases "length ops < 2"; auto simp: ret_def store_shape_def
      intro!: single_store_changes [OF wf] keeps_store_m_changes [OF wf])+

lemma exclusive_store_changes:
  assumes wf: "wf_mem (mem m)"
  shows "opc \<in> {STXR, STLXR} \<Longrightarrow> changes_only (ranges_bytes (mem m) (store_ranges D opc ops (ctx m))) (mem m)
      (mem (snd (exec_STXR oc D pc ops m)))"
    and "opc \<in> {STXRB, STLXRB} \<Longrightarrow> changes_only (ranges_bytes (mem m) (store_ranges D opc ops (ctx m))) (mem m)
      (mem (snd (exec_STXRB oc D pc ops m)))"
  unfolding exec_STXR_def exec_STXRB_def operand_val_def bind_gets
  by (cases "length ops < 3"; cases "plain_reg (ops ! 0)"; auto simp: ret_def store_shape_def
      intro!: single_store_changes [OF wf] keeps_store_m_changes [OF wf] keeps_bind keeps_set_reg_mem)+

lemma exec_STP_changes:
  fixes m :: "'h machine"
  assumes wf: "wf_mem (mem m)"
  shows "changes_only (ranges_bytes (mem m) (store_ranges D STP ops (ctx m))) (mem m)
    (mem (snd (exec_STP oc D pc ops m)))"
proof (cases "length ops < 3")
  case True
  then show ?thesis by (simp add: exec_STP_def ret_def)
next
  case False
  let ?w = "pair_width D ops"
  let ?R = "store_ranges D STP ops (ctx m)"
  have shape: "store_shape D STP ops = Some (2, ?w, 2)" using False by (simp add: store_shape_def)
  have two: "[0..<2] = [0, 1 :: nat]" by (simp add: upt_rec)
  have R: "host_bytes (mem m) a ?w \<subseteq> ranges_bytes (mem m) ?R"
    "host_bytes (mem m) (a + of_nat ?w) ?w \<subseteq> ranges_bytes (mem m) ?R"
    if "effective_addr D (ops ! 2) (ctx m) = Some a" for a
    using that by (auto simp: store_ranges_def shape two ranges_bytes_def)
  have st: "keeps (on_mem (changes_only (ranges_bytes (mem m) ?R) (mem m)))
      (bind (store_m oc pc a b1) (\<lambda>_. bind (lift (ck_add oc a (of_nat ?w))) (\<lambda>a2. store_m oc pc a2 b2)))"
    if "effective_addr D (ops ! 2) (ctx m) = Some a" "length b1 \<le> ?w" "length b2 \<le> ?w" for a b1 b2
  proof (rule keeps_bind [OF keeps_store_m_changes [OF wf that(2) R(1) [OF that(1)]]])
    show "keeps (on_mem (changes_only (ranges_bytes (mem m) ?R) (mem m)))
        (bind (lift (ck_add oc a (of_nat ?w))) (\<lambda>a2. store_m oc pc a2 b2))" for u :: unit
      using keeps_store_m_changes [OF wf that(3) R(2) [OF that(1)], of oc pc]
      by (cases "ck_add oc a (of_nat ?w)") (auto simp: keeps_def ck_add_def split: if_splits)
  qed
  let ?r1 = "case get_op_reg (ops ! 0) of Some r \<Rightarrow> r | None \<Rightarrow> XZR"
  let ?r2 = "case get_op_reg (ops ! 1) of Some r \<Rightarrow> r | None \<Rightarrow> XZR"
  let ?words = "\<lambda>addr. bind (operand_val D (ops ! 0)) (\<lambda>v1. bind (operand_val D (ops ! 1)) (\<lambda>v2.
      if is_w_reg ?r1 then
        bind (store_m oc pc addr (to_le_bytes (ucast v1 :: u32))) (\<lambda>_.
        bind (lift (ck_add oc addr 4)) (\<lambda>addr2. store_m oc pc addr2 (to_le_bytes (ucast v2 :: u32))))
      else
        bind (store_m oc pc addr (to_le_bytes v1)) (\<lambda>_.
        bind (lift (ck_add oc addr 8)) (\<lambda>addr2. store_m oc pc addr2 (to_le_bytes v2)))))"
  let ?vecs = "\<lambda>i j addr. bind (gets (\<lambda>m. (ctx_v (ctx m) ! i, ctx_v (ctx m) ! j))) (\<lambda>(b1, b2).
      bind (store_m oc pc addr (take (reg_size D ?r1) b1)) (\<lambda>_.
      bind (lift (ck_add oc addr (of_nat (reg_size D ?r1)))) (\<lambda>addr2.
      store_m oc pc addr2 (take (reg_size D ?r1) b2))))"
  show ?thesis
  proof (cases "v_reg_idx ?r1 \<noteq> None \<and> v_reg_idx ?r2 \<noteq> None")
    case True
    then obtain i j where ij: "v_reg_idx ?r1 = Some i" "v_reg_idx ?r2 = Some j" by auto
    then have w: "?w = reg_size D ?r1" by (simp add: pair_width_def Let_def)
    have "changes_only (ranges_bytes (mem m) ?R) (mem m) (mem (snd (with_addr oc D (ops ! 2) (?vecs i j) m)))"
      by (rule with_addr_changes, rule keeps_bind [OF keeps_gets], simp only: case_prod_beta,
          rule st [unfolded w]) simp_all
    then show ?thesis using False ij by (simp add: exec_STP_def Let_def)
  next
    case none: False
    have k: "keeps (on_mem (changes_only (ranges_bytes (mem m) ?R) (mem m))) (?words a)"
      if a: "effective_addr D (ops ! 2) (ctx m) = Some a" for a
    proof (cases "is_w_reg ?r1")
      case True
      with none have w: "of_nat ?w = (4 :: u64)" "?w = 4" by (auto simp: pair_width_def Let_def)
      show ?thesis using True st [OF a, unfolded w]
        by (auto intro!: keeps_bind [OF keeps_operand_val])
    next
      case False
      with none have w: "of_nat ?w = (8 :: u64)" "?w = 8" by (auto simp: pair_width_def Let_def)
      show ?thesis using False st [OF a, unfolded w]
        by (auto intro!: keeps_bind [OF keeps_operand_val])
    qed
    have "changes_only (ranges_bytes (mem m) ?R) (mem m) (mem (snd (with_addr oc D (ops ! 2) ?words m)))"
      by (rule with_addr_changes) (rule k)
    moreover have "(case (v_reg_idx ?r1, v_reg_idx ?r2) of (Some i, Some j) \<Rightarrow> f i j | _ \<Rightarrow> g) = g"
      for f and g :: "('h machine, unit) comp"
      using none by (auto split: option.split)
    ultimately show ?thesis using False by (simp add: exec_STP_def Let_def)
  qed
qed

lemma exec_ST1_changes:
  assumes wf: "wf_mem (mem m)"
  shows "changes_only (ranges_bytes (mem m) (store_ranges D ST1 ops (ctx m))) (mem m)
    (mem (snd (exec_ST1 oc D pc ops m)))"
proof (cases "length ops < 2")
  case True
  then show ?thesis by (simp add: exec_ST1_def ret_def)
next
  case False
  let ?sz = "if is_64bit_vector D (ops ! 0) then 8 else 16 :: nat"
  let ?regs = "get_multi_regs (ops ! 0)"
  let ?R = "store_ranges D ST1 ops (ctx m)"
  have shape: "store_shape D ST1 ops = Some (1, ?sz, length ?regs)"
    using False by (simp add: store_shape_def)
  have "keeps (on_mem (changes_only (ranges_bytes (mem m) ?R) (mem m)))
      (bind (st1_regs oc pc ?sz ?regs a) (\<lambda>_. post_index oc D ops 0 True))"
    if a: "effective_addr D (ops ! 1) (ctx m) = Some a" for a
  proof (rule keeps_bind [OF keeps_st1_regs_changes [OF wf] keeps_post_index_mem])
    fix j assume "j < length ?regs"
    then have "(a + of_nat (j * ?sz), ?sz) \<in> set ?R" using a by (auto simp: store_ranges_def shape)
    then show "host_bytes (mem m) (a + of_nat (j * ?sz)) ?sz \<subseteq> ranges_bytes (mem m) ?R"
      by (rule range_subset)
  qed
  then show ?thesis using False by (simp only: exec_ST1_def if_False with_addr_changes)
qed

text \<open>Loads write no memory.\<close>

lemma loads_keep_mem:
  "keeps (on_mem P) (exec_LDR oc D pc ops)" "keeps (on_mem P) (exec_LDRSW oc D pc ops)"
  "keeps (on_mem P) (exec_LDRH oc D pc ops)" "keeps (on_mem P) (exec_LDRSH oc D pc ops)"
  "keeps (on_mem P) (exec_LDRB oc D pc ops)" "keeps (on_mem P) (exec_LDRSB oc D pc ops)"
  "keeps (on_mem P) (exec_LDP oc D pc ops)" "keeps (on_mem P) (exec_LD1 oc D pc repl ops)"
  "keeps (on_mem P) (exec_LDn oc D ops)"
  unfolding load_store_defs exec_LD1_def exec_LDn_def
  by (intro keeps_intros keeps_ld1_regs_mem)+

lemma exec_mem_changes:
  fixes m :: "'h machine"
  assumes wf: "wf_mem (mem m)"
  shows "changes_only (ranges_bytes (mem m) (store_ranges D opc ops (ctx m))) (mem m)
    (mem (snd (exec_mem oc D pc opc ops m)))"
proof -
  have ld: "changes_only P (mem m) (mem (snd (f m)))"
    if "keeps (on_mem (changes_only P (mem m))) f" for P and f :: "('h machine, unit) comp"
    using keepsD [OF that, of m] by simp
  show ?thesis
    by (cases opc)
      (simp_all add: exec_STR_changes [OF wf] narrow_store_changes [OF wf] exclusive_store_changes [OF wf]
        exec_STP_changes [OF wf] exec_ST1_changes [OF wf] ld [OF loads_keep_mem(1)]
        ld [OF loads_keep_mem(2)] ld [OF loads_keep_mem(3)] ld [OF loads_keep_mem(4)]
        ld [OF loads_keep_mem(5)] ld [OF loads_keep_mem(6)] ld [OF loads_keep_mem(7)]
        ld [OF loads_keep_mem(8)] ld [OF loads_keep_mem(9)])
qed

subsection \<open>Steps\<close>

definition insn_ranges :: "'x bad64 \<Rightarrow> 'x instruction \<Rightarrow> cpu_context \<Rightarrow> (u64 \<times> nat) list" where
  "insn_ranges D inst c =
     (case inst_op inst of Op_mem opc \<Rightarrow> store_ranges D opc (inst_operands inst) c | _ \<Rightarrow> [])"

definition word_ranges :: "'x bad64 \<Rightarrow> u32 \<Rightarrow> cpu_context \<Rightarrow> (u64 \<times> nat) list" where
  "word_ranges D ins c =
     (if is_dc_zva ins then [(get_x c (unat (ins AND 0x1f)) AND NOT 63, 64)]
      else case decode D ins (ctx_pc c) of Inl e \<Rightarrow> [] | Inr inst \<Rightarrow> insn_ranges D inst c)"

text \<open>The ranges the next step may store to.\<close>

definition step_ranges :: "('h, 'x) env \<Rightarrow> 'h machine \<Rightarrow> (u64 \<times> nat) list" where
  "step_ranges E m =
     (if ctx_exited (ctx m) then []
      else case mem_read (env_oc E) (mem m) (ctx_pc (ctx m)) 4 of
        Val bs \<Rightarrow> word_ranges (env_dis E) (from_le_bytes bs) (ctx m)
      | _ \<Rightarrow> [])"

lemma snd_bind_keeps_mem:
  assumes "changes_only P s (mem (snd (f m)))" and "\<And>a. keeps (on_mem (changes_only P s)) (g a)"
  shows "changes_only P s (mem (snd (bind f g m)))"
proof (cases "f m")
  case (Pair r m')
  with assms(1) keepsD [OF assms(2), of m'] show ?thesis
    by (cases r) (simp_all add: bind_def)
qed

lemma execute_changes:
  assumes wf: "wf_mem (mem m)" and svc: "inst_op inst \<noteq> Op_sys SVC"
  shows "changes_only (ranges_bytes (mem m) (insn_ranges (env_dis E) inst (ctx m))) (mem m)
    (mem (snd (execute E pc inst np m)))"
proof (cases "\<exists>opc. inst_op inst = Op_mem opc")
  case True
  then obtain opc where o: "inst_op inst = Op_mem opc" by blast
  show ?thesis
    unfolding execute.simps Let_def o op.case insn_ranges_def
    by (rule snd_bind_keeps_mem, rule exec_mem_changes [OF wf], rule keeps_ret)
next
  case False
  then have "keeps (on_mem P) (execute E pc inst np)" for P
    unfolding execute.simps Let_def using svc
    by (cases "inst_op inst")
      (auto intro!: keeps_bind keeps_ret keeps_lift keeps_on_regs_mem exec_branch_keeps_mem)
  from keepsD [OF this, of "changes_only (ranges_bytes (mem m) (insn_ranges (env_dis E) inst (ctx m))) (mem m)" m]
  show ?thesis by simp
qed

lemma run_insn_changes:
  assumes wf: "wf_mem (mem m)"
    and svc: "\<And>inst. decode (env_dis E) ins (ctx_pc (ctx m)) = Inr inst \<Longrightarrow> inst_op inst \<noteq> Op_sys SVC"
    and zva: "\<not> is_dc_zva ins"
  shows "changes_only (ranges_bytes (mem m) (word_ranges (env_dis E) ins (ctx m))) (mem m)
    (mem (snd (run_insn E (ctx_pc (ctx m)) ins m)))"
proof (cases "decode (env_dis E) ins (ctx_pc (ctx m))")
  case (Inl e)
  have "keeps (on_mem P) (skip_insn oc pc)" for P oc pc
    unfolding skip_insn_def by (intro keeps_intros)
  from keepsD [OF this, of "changes_only {} (mem m)" m] Inl zva show ?thesis
    by (auto simp: run_insn_def Decoder_decode_def word_ranges_def ranges_bytes_def)
next
  case (Inr inst)
  let ?P = "ranges_bytes (mem m) (insn_ranges (env_dis E) inst (ctx m))"
  have "keeps (on_mem Q) (case np of None \<Rightarrow> ret False | Some p \<Rightarrow> bind (set_pc p) (\<lambda>_. ret True))"
    for Q and np :: "u64 option" by (intro keeps_intros)
  then have "changes_only ?P (mem m) (mem (snd (bind (execute E pc inst np) (\<lambda>np.
     case np of None \<Rightarrow> ret False | Some p \<Rightarrow> bind (set_pc p) (\<lambda>_. ret True)) m)))" for pc np
    by (rule snd_bind_keeps_mem [rotated]) (rule execute_changes [OF wf svc [OF Inr]])
  then show ?thesis using Inr zva
    by (cases "ck_add (env_oc E) (ctx_pc (ctx m)) 4")
      (simp_all add: run_insn_def Decoder_decode_def word_ranges_def)
qed

lemma step_changes:
  assumes wf: "wf_mem (mem m)"
    and svc: "\<And>bs inst. \<lbrakk>\<not> ctx_exited (ctx m); mem_read (env_oc E) (mem m) (ctx_pc (ctx m)) 4 = Val bs;
      \<not> is_dc_zva (from_le_bytes bs); decode (env_dis E) (from_le_bytes bs) (ctx_pc (ctx m)) = Inr inst\<rbrakk> \<Longrightarrow>
      inst_op inst \<noteq> Op_sys SVC"
  shows "changes_only (ranges_bytes (mem m) (step_ranges E m)) (mem m) (mem (snd (step E m)))"
proof (cases "ctx_exited (ctx m)")
  case True
  then show ?thesis by (simp add: step_def)
next
  case ne: False
  show ?thesis
  proof (cases "mem_read (env_oc E) (mem m) (ctx_pc (ctx m)) 4")
    case (Val bs)
    let ?ins = "from_le_bytes bs :: u32"
    have l: "load_m (env_oc E) (ctx_pc (ctx m)) (ctx_pc (ctx m)) 4 m = (Val bs, m)"
      using Val by (simp add: load_m_def load_def map_err_def)
    show ?thesis
    proof (cases "is_dc_zva ?ins")
      case True
      let ?a = "get_x (ctx m) (unat (?ins AND 0x1f)) AND NOT 63"
      have "keeps (on_mem (changes_only (host_bytes (mem m) ?a 64) (mem m)))
          (bind (ignore_err (store oc ?a (replicate 64 0))) (\<lambda>_. skip_insn oc pc))" for oc pc
        unfolding skip_insn_def
        by (intro keeps_bind keeps_ignore_err keeps_store_changes [OF wf] keeps_lift keeps_set_pc_mem
            keeps_ret) simp
      from keepsD [OF this, of m] True Val l ne show ?thesis
        by (simp add: step_def Let_def bind_Val exec_DC_ZVA_def step_ranges_def word_ranges_def)
    next
      case False
      with run_insn_changes [OF wf svc [OF ne Val False] False] l ne Val show ?thesis
        by (simp add: step_def Let_def bind_Val step_ranges_def)
    qed
  next
    case (Fail e)
    then show ?thesis using ne by (simp add: step_def Let_def bind_def load_m_def load_def map_err_def)
  next
    case (Crash c)
    then show ?thesis using ne by (simp add: step_def Let_def bind_def load_m_def load_def map_err_def)
  qed
qed

end
