(* ===== verification/Interp_Correct.thy ===== *)
theory Interp_Correct
  imports Syscall_Correct Float_Correct Footprint
begin

text \<open>
  Whole steps and runs: where the next pc comes from, what a step keeps, how the two
  drivers relate, how a program ends, and the call and return protocol.
\<close>

unbundle bit_operations_syntax

subsection \<open>Fetching\<close>

text \<open>The word at the pc of a running machine decodes to \<open>inst\<close>.\<close>

definition at_insn :: "('h, 'x) env \<Rightarrow> 'h machine \<Rightarrow> 'x instruction \<Rightarrow> bool" where
  "at_insn E m inst \<longleftrightarrow> \<not> ctx_exited (ctx m) \<and>
     (\<exists>bs. mem_read (env_oc E) (mem m) (ctx_pc (ctx m)) 4 = Val bs \<and>
       \<not> is_dc_zva (from_le_bytes bs) \<and>
       decode (env_dis E) (from_le_bytes bs) (ctx_pc (ctx m)) = Inr inst)"

definition no_wrap :: "u64 \<Rightarrow> bool" where
  "no_wrap pc \<longleftrightarrow> unat pc + 4 < 2 ^ 64"

lemma ck_add_4: "no_wrap pc \<Longrightarrow> ck_add oc pc (4 :: u64) = Val (pc + 4)"
  by (simp add: ck_add_def no_wrap_def)

lemma step_at_insn:
  assumes "at_insn E m inst" and "no_wrap (ctx_pc (ctx m))"
  shows "step E m = bind (execute E (ctx_pc (ctx m)) inst (ctx_pc (ctx m) + 4)) (\<lambda>np.
     case np of None \<Rightarrow> ret False | Some p \<Rightarrow> bind (set_pc p) (\<lambda>_. ret True)) m"
proof -
  obtain bs where bs: "mem_read (env_oc E) (mem m) (ctx_pc (ctx m)) 4 = Val bs"
    "\<not> is_dc_zva (from_le_bytes bs)"
    "decode (env_dis E) (from_le_bytes bs) (ctx_pc (ctx m)) = Inr inst" "\<not> ctx_exited (ctx m)"
    using assms(1) by (auto simp: at_insn_def)
  then have "load_m (env_oc E) (ctx_pc (ctx m)) (ctx_pc (ctx m)) 4 m = (Val bs, m)"
    by (simp add: load_m_def load_def map_err_def)
  with bs assms(2) show ?thesis
    by (simp add: step_def Let_def bind_Val run_insn_def Decoder_decode_def ck_add_4)
qed

lemma set_pc_ret [simp]: "bind (set_pc p) (\<lambda>_. ret b) m = (Val b, m\<lparr>ctx := (ctx m)\<lparr>ctx_pc := p\<rparr>\<rparr>)"
  by (simp add: bind_def set_pc_def on_ctx_def)

subsection \<open>The next pc\<close>

definition falls_through :: "op \<Rightarrow> bool" where
  "falls_through opc \<longleftrightarrow> (case opc of Op_branch _ \<Rightarrow> False | Op_other _ \<Rightarrow> False | Op_sys k \<Rightarrow> k \<noteq> SVC | _ \<Rightarrow> True)"

lemma execute_falls_through:
  "falls_through (inst_op inst) \<Longrightarrow> execute E pc inst np m = (Val r, t) \<Longrightarrow> r = Some np"
  by (auto simp: falls_through_def execute.simps Let_def on_regs_def elim!: bind_ValE
      split: op.splits if_splits)

subsection \<open>A machine for the witnesses\<close>

text \<open>
  A machine at a two-instruction program; the decoder tells the two apart by their
  addresses.
\<close>

definition demo_env :: "string instruction \<Rightarrow> string instruction \<Rightarrow> (u64, string) env" where
  "demo_env i j = \<lparr>env_oc = True, env_fpu = demo_fpu,
     env_dis = text_bad64 (\<lambda>w a. if a = 0x1000 then Inr i else Inr j), env_libc = demo_libc\<rparr>"

definition demo_nop :: "string instruction" where
  "demo_nop = \<lparr>inst_op = Op_sys NOP, inst_operands = []\<rparr>"

definition demo_at :: "u64 \<Rightarrow> u64 machine" where
  "demo_at p = demo_machine\<lparr>ctx := (ctx demo_machine)\<lparr>ctx_pc := p\<rparr>\<rparr>"

lemma demo_fetch:
  assumes "p = 0x1000 \<or> p = 0x1004"
  shows "mem_read oc demo_mem p 4 = Val [7, 7, 7, 7]"
proof -
  have read: "mem_read oc demo_mem p 4 = spec_read demo_mem p 4"
    using mem_read_spec [OF demo_wf, of p 4 oc] assms by (auto simp: RAW_BASE_def)
  have "guest_byte demo_mem (p + of_nat i) = Some 7" if "i < 4" for i
  proof -
    have "unat (p + of_nat i) = unat p + i"
      using assms that by (auto simp: unat_word_ariths unsigned_of_nat take_bit_eq_mod)
    then show ?thesis
      using assms that by (auto simp: demo_guest_byte word_le_nat_alt word_less_nat_alt)
  qed
  note b = this
  have "[0..<4] = [0, 1, 2, 3 :: nat]" by (simp add: upt_rec)
  with read b show ?thesis using b [of 0] b [of 1] b [of 2] b [of 3] by (simp add: spec_read_def)
qed

lemma demo_at_simps [simp]:
  "ctx_pc (ctx (demo_at p)) = p" "mem (demo_at p) = demo_mem" "ctx_exited (ctx (demo_at p)) = False"
  "get_x (ctx (demo_at p)) n = get_x (ctx demo_machine) n"
  by (simp_all add: demo_at_def demo_machine_def cpu_new_def set_x_def get_x_def)

lemma demo_env_simps [simp]:
  "env_oc (demo_env i j) = True" "env_fpu (demo_env i j) = demo_fpu"
  "env_libc (demo_env i j) = demo_libc"
  "decode (env_dis (demo_env i j)) w a = (if a = 0x1000 then Inr i else Inr j)"
  by (simp_all add: demo_env_def text_bad64_def)

lemma demo_wf_at: "wf_cpu (ctx (demo_at p))" "wf_mem (mem (demo_at p))"
  using demo_machine_wf demo_wf by (simp_all add: demo_at_def wf_cpu_def demo_machine_def)

lemma at_demo_insn:
  assumes "p = 0x1000 \<or> p = 0x1004" and "ctx_pc (ctx m) = p" and "\<not> ctx_exited (ctx m)"
    and "mem m = demo_mem"
  shows "at_insn (demo_env i j) m (if p = 0x1000 then i else j)"
  using assms demo_fetch [OF assms(1), of True]
  by (auto simp: at_insn_def is_dc_zva_def from_le_bytes_def)

subsection \<open>The next pc of an instruction\<close>

text \<open>C23: an instruction that is neither a branch nor a system call either stops the
  interpreter with an error or continues at the next word.\<close>

theorem sequential_step:
  assumes "at_insn E m inst" and "no_wrap (ctx_pc (ctx m))" and "falls_through (inst_op inst)"
    and "step E m = (Val b, t)"
  shows "b \<and> ctx_pc (ctx t) = ctx_pc (ctx m) + 4"
  using assms(4) unfolding step_at_insn [OF assms(1,2)]
  by (auto dest!: execute_falls_through [OF assms(3)] elim!: bind_ValE)

theorem sequential_step_witness:
  "ctx_pc (ctx (snd (step (demo_env \<lparr>inst_op = Op_arith ADD,
      inst_operands = [O_Reg (RX 2) [], O_Reg (RX 1) [], O_Imm64 (Unsigned 5) None]\<rparr> demo_nop) (demo_at 0x1000))))
   = 0x1004"
proof -
  let ?i = "\<lparr>inst_op = Op_arith ADD,
      inst_operands = [O_Reg (RX 2) [], O_Reg (RX 1) [], O_Imm64 (Unsigned 5) None]\<rparr> :: string instruction"
  let ?E = "demo_env ?i demo_nop"
  have a: "at_insn ?E (demo_at 0x1000) ?i"
    using at_demo_insn [of "0x1000" "demo_at 0x1000" ?i demo_nop] by simp
  have w: "no_wrap (ctx_pc (ctx (demo_at 0x1000)))" by (simp add: no_wrap_def)
  obtain t where "step ?E (demo_at 0x1000) = (Val True, t)"
    unfolding step_at_insn [OF a w]
    by (simp add: execute.simps on_regs_def on_ctx_out_def bind_def exec_ADD_def
        set_pc_def on_ctx_def)
  moreover from sequential_step [OF a w _ this] have "ctx_pc (ctx t) = 0x1004"
    by (simp add: falls_through_def)
  ultimately show ?thesis by simp
qed

subsection \<open>Call and return\<close>

lemma execute_BL:
  assumes "inst_op inst = Op_branch opc" and "opc = BL \<or> opc = BLR"
    and "inst_operands inst = q # ops" and "no_wrap pc"
  shows "execute E pc inst np m =
    (let c = set_x 30 (pc + 4) (ctx m)
     in (Val (Some (get_operand_val (env_dis E) q c)), m\<lparr>ctx := c\<rparr>))"
  using assms by (auto simp: execute.simps Let_def exec_BL_def bind_def ctx_comp_def ck_add_4)

lemma step_BL:
  assumes "at_insn E m inst" and "inst_op inst = Op_branch opc" and "opc = BL \<or> opc = BLR"
    and "inst_operands inst = q # ops" and "no_wrap (ctx_pc (ctx m))"
  shows "step E m =
    (let c = set_x 30 (ctx_pc (ctx m) + 4) (ctx m)
     in (Val True, m\<lparr>ctx := c\<lparr>ctx_pc := get_operand_val (env_dis E) q c\<rparr>\<rparr>))"
  unfolding step_at_insn [OF assms(1,5)] by (simp add: bind_def execute_BL [OF assms(2-5)] Let_def
      set_pc_def on_ctx_def)

lemma step_RET:
  assumes "at_insn E m inst" and "inst_op inst = Op_branch RET" and "no_wrap (ctx_pc (ctx m))"
  shows "step E m = (Val True, m\<lparr>ctx := (ctx m)\<lparr>ctx_pc := get_x (ctx m) 30\<rparr>\<rparr>)"
  unfolding step_at_insn [OF assms(1,3)]
  by (simp add: bind_def execute.simps assms(2) Let_def exec_RET_def set_pc_def on_ctx_def)

lemma get_x_ctx_pc [simp]: "get_x (c\<lparr>ctx_pc := p\<rparr>) n = get_x c n"
  by (simp add: get_x_def)

lemma ctx_pc_set_x [simp]: "ctx_pc (set_x n v c) = ctx_pc c"
  by (simp add: set_x_def)

text \<open>C9: a call followed by a body of any length that leaves X30 as the call set it, and
  then RET, continues after the call.\<close>

theorem call_return:
  assumes "at_insn E m call" and "inst_op call = Op_branch BL" and "inst_operands call = [O_Label l]"
    and "no_wrap (ctx_pc (ctx m))" and "wf_cpu (ctx m)" and "step E m = (Val True, m1)"
    and "run_max_steps E n m1 = (Val False, m2)" and "get_x (ctx m2) 30 = get_x (ctx m1) 30"
    and "at_insn E m2 rt" and "inst_op rt = Op_branch RET" and "no_wrap (ctx_pc (ctx m2))"
  shows "ctx_pc (ctx m1) = imm_to_u64 l \<and>
    run_max_steps E (n + 2) m = (Val False, m2\<lparr>ctx := (ctx m2)\<lparr>ctx_pc := ctx_pc (ctx m) + 4\<rparr>\<rparr>)"
proof -
  from step_BL [OF assms(1,2) _ assms(3,4)] assms(5,6)
  have m1: "ctx_pc (ctx m1) = imm_to_u64 l" "get_x (ctx m1) 30 = ctx_pc (ctx m) + 4"
    by (auto simp: Let_def get_x_set_same)
  have "run_max_steps E (n + 1) m1 = (Val False, m2\<lparr>ctx := (ctx m2)\<lparr>ctx_pc := ctx_pc (ctx m) + 4\<rparr>\<rparr>)"
    using assms(7,8) m1(2) step_RET [OF assms(9-11)]
    by (simp add: run_max_steps_def max_steps_split del: add_Suc_right add_Suc add_0_right max_steps.simps(2))
      (simp add: One_nat_def)
  then show ?thesis using assms(6) m1(1) by (simp add: run_max_steps_def)
qed

text \<open>BLR through X30 is a jump to the next instruction: the link register is written
  before the target is read from it.\<close>

theorem blr_x30_falls_through:
  assumes "at_insn E m inst" and "inst_op inst = Op_branch BLR" and "inst_operands inst = [O_Reg (RX 30) x]"
    and "no_wrap (ctx_pc (ctx m))" and "wf_cpu (ctx m)"
  shows "\<exists>t. step E m = (Val True, t) \<and> ctx_pc (ctx t) = ctx_pc (ctx m) + 4"
  using step_BL [OF assms(1,2) _ assms(3,4)] assms(5) by (simp add: Let_def get_x_set_same)

theorem blr_x30_falls_through_witness:
  "\<exists>t. step (demo_env \<lparr>inst_op = Op_branch BLR, inst_operands = [O_Reg (RX 30) []]\<rparr> demo_nop) (demo_at 0x1000)
     = (Val True, t) \<and> ctx_pc (ctx t) = 0x1004"
  using blr_x30_falls_through [OF at_demo_insn [of "0x1000"], of "demo_at 0x1000"
      "\<lparr>inst_op = Op_branch BLR, inst_operands = [O_Reg (RX 30) []]\<rparr>" demo_nop] demo_wf_at(1) [of "0x1000"]
  by (simp add: no_wrap_def)

theorem call_return_witness:
  "ctx_pc (ctx (snd (run_max_steps
     (demo_env \<lparr>inst_op = Op_branch BL, inst_operands = [O_Label (Unsigned 0x1004)]\<rparr>
       \<lparr>inst_op = Op_branch RET, inst_operands = []\<rparr>) 2 (demo_at 0x1000)))) = 0x1004"
proof -
  let ?bl = "\<lparr>inst_op = Op_branch BL, inst_operands = [O_Label (Unsigned 0x1004)]\<rparr> :: string instruction"
  let ?rt = "\<lparr>inst_op = Op_branch RET, inst_operands = []\<rparr> :: string instruction"
  let ?E = "demo_env ?bl ?rt"
  let ?m1 = "(demo_at 0x1000)\<lparr>ctx := (set_x 30 0x1004 (ctx (demo_at 0x1000)))\<lparr>ctx_pc := 0x1004\<rparr>\<rparr>"
  have bl: "at_insn ?E (demo_at 0x1000) ?bl" using at_demo_insn [of "0x1000" "demo_at 0x1000" ?bl ?rt] by simp
  have rt: "at_insn ?E ?m1 ?rt"
    using at_demo_insn [of "0x1004" ?m1 ?bl ?rt] demo_at_simps(3) [of "0x1000"] by (simp add: set_x_def)
  have s: "step ?E (demo_at 0x1000) = (Val True, ?m1)"
    using step_BL [OF bl, of BL] by (simp add: no_wrap_def Let_def)
  have "run_max_steps ?E 0 ?m1 = (Val False, ?m1)" by (simp add: run_max_steps_def)
  from call_return [OF bl _ _ _ demo_wf_at(1) s this _ rt, of "Unsigned 0x1004"]
  have "run_max_steps ?E (0 + 2) (demo_at 0x1000) =
      (Val False, ?m1\<lparr>ctx := (ctx ?m1)\<lparr>ctx_pc := 0x1004\<rparr>\<rparr>)" by (simp add: no_wrap_def)
  then show ?thesis by (simp only: add_0) simp
qed

subsection \<open>How a program ends\<close>

text \<open>The exit call of each guest system.\<close>

definition exit_call :: "cpu_context \<Rightarrow> bool" where
  "exit_call c \<longleftrightarrow> (case ctx_target_os c of
     Darwin \<Rightarrow> get_x c 16 AND 0x00FFFFFF = 1
   | _ \<Rightarrow> get_x c 8 = 93 \<or> get_x c 8 = 94)"

definition exited_with :: "u32 \<Rightarrow> 'h machine \<Rightarrow> 'h machine" where
  "exited_with code m = m\<lparr>ctx := (ctx m)\<lparr>ctx_exited := True, ctx_exit_code := code\<rparr>\<rparr>"

lemma handle_exit_call:
  "exit_call (ctx m) \<Longrightarrow>
     handle_syscall_for_os oc K (ctx_target_os (ctx m)) m =
       (Val (scast (ucast (get_x (ctx m) 0) :: u32)), exited_with (ucast (get_x (ctx m) 0)) m)"
  by (cases "ctx_target_os (ctx m)")
    (auto simp: exit_call_def linux_handle_def darwin_handle_def sys_exit_def arg_def arg32_def
      set_exited_def on_ctx_def exited_with_def bind_def)

lemma step_exit_call:
  assumes "at_insn E m inst" and "inst_op inst = Op_sys SVC" and "no_wrap (ctx_pc (ctx m))"
    and "exit_call (ctx m)"
  shows "step E m = (Val False, exited_with (ucast (get_x (ctx m) 0)) m)"
  unfolding step_at_insn [OF assms(1,3)]
  by (simp add: bind_def execute.simps assms(2) exec_SVC_def handle_exit_call [OF assms(4)]
      exited_with_def)

text \<open>C10: when a run reaches an exit call after \<open>n\<close> steps, \<open>run\<close> returns, the program has
  exited with the low 32 bits of X0, and nothing else has changed since; running again
  changes nothing.\<close>

theorem exit_call_ends_run:
  assumes "run_max_steps E n m = (Val False, m1)" and "at_insn E m1 inst"
    and "inst_op inst = Op_sys SVC" and "no_wrap (ctx_pc (ctx m1))" and "exit_call (ctx m1)"
  shows "run E m = Some (Val (), exited_with (ucast (get_x (ctx m1) 0)) m1) \<and>
    run E (exited_with (ucast (get_x (ctx m1) 0)) m1) =
      Some (Val (), exited_with (ucast (get_x (ctx m1) 0)) m1)"
proof -
  let ?t = "exited_with (ucast (get_x (ctx m1) 0)) m1"
  have "max_steps (step E) (n + 1) m = (Val True, ?t)"
    using assms(1) step_exit_call [OF assms(2-5)]
    by (simp add: run_max_steps_def max_steps_split del: add_Suc_right add_Suc add_0_right max_steps.simps(2))
      (simp add: One_nat_def)
  then have "run E m = Some (Val (), ?t)"
    unfolding run_def by (subst st.run_iff_max_steps) blast
  moreover have "run E ?t = Some (Val (), ?t)"
    unfolding run_def by (rule st.run_halted) (simp add: exited_with_def)
  ultimately show ?thesis by simp
qed

definition demo_exit :: "u64 machine" where
  "demo_exit = (demo_at 0x1000)\<lparr>ctx := set_x 8 93 (set_x 0 7 (ctx (demo_at 0x1000)))\<rparr>"

lemma demo_exit_simps:
  "ctx_exited (ctx demo_exit) = False" "ctx_pc (ctx demo_exit) = 0x1000" "mem demo_exit = demo_mem"
  "exit_call (ctx demo_exit)" "get_x (ctx demo_exit) 0 = 7"
proof -
  have os: "ctx_target_os (ctx demo_exit) = Linux"
    by (simp add: demo_exit_def demo_at_def demo_machine_def cpu_new_def set_x_def)
  show "ctx_exited (ctx demo_exit) = False" "ctx_pc (ctx demo_exit) = 0x1000" "mem demo_exit = demo_mem"
    using demo_at_simps(3) [of "0x1000"] by (simp_all add: demo_exit_def set_x_def)
  show "exit_call (ctx demo_exit)" "get_x (ctx demo_exit) 0 = 7"
    using demo_wf_at(1) [of "0x1000"] os
    by (simp_all add: exit_call_def, simp_all add: demo_exit_def get_set_x)
qed

theorem exit_call_ends_run_witness:
  "run (demo_env \<lparr>inst_op = Op_sys SVC, inst_operands = []\<rparr> demo_nop) demo_exit =
     Some (Val (), exited_with 7 demo_exit)"
proof -
  let ?i = "\<lparr>inst_op = Op_sys SVC, inst_operands = []\<rparr> :: string instruction"
  have "at_insn (demo_env ?i demo_nop) demo_exit ?i"
    using at_demo_insn [of "0x1000" demo_exit ?i demo_nop] by (simp add: demo_exit_simps)
  from exit_call_ends_run [OF _ this, of 0 demo_exit] show ?thesis
    by (simp add: run_max_steps_def no_wrap_def demo_exit_simps)
qed

subsection \<open>The drivers\<close>

text \<open>C16: \<open>run\<close> and \<open>run_max_steps\<close> agree: \<open>run\<close> returns normally exactly when some bound
  suffices, both then leave the same machine, it has exited, and a larger bound changes
  nothing; a bound that did not suffice can be continued.\<close>

theorem drivers_agree:
  fixes m t :: "'h machine"
  shows "(run E m = Some (Val (), t)) = (\<exists>n. run_max_steps E n m = (Val True, t)) \<and>
    {u. run E m = Some (Val (), u)} \<subseteq> {u. ctx_exited (ctx u) \<and> run E u = Some (Val (), u)} \<and>
    run_max_steps E (n + k) m =
      (case run_max_steps E n m of (Val False, u) \<Rightarrow> run_max_steps E k u | r \<Rightarrow> r)"
proof (intro conjI)
  show "(run E m = Some (Val (), t)) = (\<exists>n. run_max_steps E n m = (Val True, t))"
    unfolding run_def run_max_steps_def by (rule st.run_iff_max_steps)
  show "{u. run E m = Some (Val (), u)} \<subseteq> {u. ctx_exited (ctx u) \<and> run E u = Some (Val (), u)}"
    unfolding run_def using st.run_ends_halted [of E m] st.run_idempotent [of E m] by blast
  show "run_max_steps E (n + k) m =
      (case run_max_steps E n m of (Val False, u) \<Rightarrow> run_max_steps E k u | r \<Rightarrow> r)"
    unfolding run_max_steps_def max_steps_split
    by (auto split: prod.splits out.splits bool.splits)
qed

subsection \<open>What a step changes in memory\<close>

definition fetches_svc :: "('h, 'x) env \<Rightarrow> 'h machine \<Rightarrow> bool" where
  "fetches_svc E m \<longleftrightarrow> (\<exists>inst. at_insn E m inst \<and> inst_op inst = Op_sys SVC)"

text \<open>C15: every step that does not execute an SVC (DC ZVA, skipped hints, words that do not
  decode, failing steps and steps of an ended program included) leaves segments, break,
  kernel and output as they are, keeps the accessibility of every host byte and the memory
  well-formed, and changes only host bytes behind the ranges the instruction stores to: the
  effective address and the width of STR, STRH, STRB, STXR, STXRB, both halves of STP, the
  registers of ST1, the 64-byte block of DC ZVA. A step of anything else leaves the whole
  memory as it is; and when the ranges lie below the raw region, every guest byte outside
  them reads as before.\<close>

theorem step_store_footprint:
  assumes "wf_mem (mem m)" and "\<not> fetches_svc E m"
  shows "changes_only (ranges_bytes (mem m) (step_ranges E m)) (mem m) (mem (snd (step E m))) \<and>
    wf_mem (mem (snd (step E m))) \<and>
    (step_ranges E m = [] \<longrightarrow> mem (snd (step E m)) = mem m) \<and>
    ((\<forall>(a, n) \<in> set (step_ranges E m). unat a + n \<le> unat RAW_BASE) \<longrightarrow>
      (\<forall>x. (\<forall>(a, n) \<in> set (step_ranges E m). \<not> in_range a n x) \<longrightarrow>
         guest_byte (mem (snd (step E m))) x = guest_byte (mem m) x))"
proof -
  have c: "changes_only (ranges_bytes (mem m) (step_ranges E m)) (mem m) (mem (snd (step E m)))"
    by (rule step_changes [OF assms(1)]) (use assms(2) in \<open>auto simp: fetches_svc_def at_insn_def\<close>)
  then have "wf_mem (mem (snd (step E m)))"
    using same_map_wf_mem assms(1) by (auto simp: changes_only_def)
  moreover have "mem (snd (step E m)) = mem m" if "step_ranges E m = []"
    using c that by (intro changes_nothing) (simp add: ranges_bytes_def)
  moreover note changes_only_guest [OF assms(1) c [unfolded ranges_bytes_def]]
  ultimately show ?thesis using c by (auto split: prod.splits)
qed

theorem step_store_footprint_witness:
  "guest_byte (mem (snd (step (demo_env \<lparr>inst_op = Op_mem STRB,
     inst_operands = [O_Reg (RW 0) [], O_MemReg (RX 1)]\<rparr> demo_nop) (demo_at 0x1000)))) 0x1004 = Some 7"
proof -
  let ?i = "\<lparr>inst_op = Op_mem STRB, inst_operands = [O_Reg (RW 0) [], O_MemReg (RX 1)]\<rparr> :: string instruction"
  let ?E = "demo_env ?i demo_nop"
  have "\<not> fetches_svc ?E (demo_at 0x1000)" by (auto simp: fetches_svc_def at_insn_def)
  moreover have "\<not> is_dc_zva (from_le_bytes [7, 7, 7, 7])" by (simp add: is_dc_zva_def from_le_bytes_def)
  then have "step_ranges ?E (demo_at 0x1000) = [(0x1000, 1)]"
    using demo_fetch [of "0x1000" True] demo_machine_regs
    by (simp add: step_ranges_def word_ranges_def insn_ranges_def store_ranges_def store_shape_def
        get_reg_val_def)
  moreover have "wf_mem (mem (demo_at 0x1000))" using demo_wf by simp
  ultimately have "guest_byte (mem (snd (step ?E (demo_at 0x1000)))) 0x1004 = guest_byte demo_mem 0x1004"
    using step_store_footprint [of "demo_at 0x1000" ?E] by (auto simp: in_range_def RAW_BASE_def)
  then show ?thesis by (simp add: demo_guest_byte)
qed

subsection \<open>Words that do not decode\<close>

text \<open>A word that does not decode is skipped when it lies in the hint or system space,
  with no other effect, and stops the interpreter with the decode error otherwise.\<close>

theorem undecodable_step:
  assumes "\<not> ctx_exited (ctx m)" and "mem_read (env_oc E) (mem m) (ctx_pc (ctx m)) 4 = Val bs"
    and "\<not> is_dc_zva (from_le_bytes bs)" and "no_wrap (ctx_pc (ctx m))"
    and "decode (env_dis E) (from_le_bytes bs) (ctx_pc (ctx m)) = Inl e"
  shows "step E m =
    (if is_hint (from_le_bytes bs) then (Val True, m\<lparr>ctx := (ctx m)\<lparr>ctx_pc := ctx_pc (ctx m) + 4\<rparr>\<rparr>)
     else (Fail (DecodeError (ctx_pc (ctx m)) e), m))"
proof -
  have "load_m (env_oc E) (ctx_pc (ctx m)) (ctx_pc (ctx m)) 4 m = (Val bs, m)"
    using assms(2) by (simp add: load_m_def load_def map_err_def)
  with assms show ?thesis
    by (simp add: step_def Let_def bind_Val run_insn_def Decoder_decode_def skip_insn_def ck_add_4)
qed

theorem undecodable_step_witness:
  "step ((demo_env demo_nop demo_nop)\<lparr>env_dis := text_bad64 (\<lambda>w a. Inl ''bad'')\<rparr>) (demo_at 0x1000) =
     (Fail (DecodeError 0x1000 ''bad''), demo_at 0x1000)"
  using undecodable_step [of "demo_at 0x1000" "(demo_env demo_nop demo_nop)\<lparr>env_dis := text_bad64 (\<lambda>w a. Inl ''bad'')\<rparr>"
      "[7, 7, 7, 7]" "''bad''"] demo_fetch [of "0x1000"]
  by (simp add: is_dc_zva_def is_hint_def no_wrap_def text_bad64_def)

subsection \<open>Cache-line clearing\<close>

lemma store_accessible:
  assumes "accessible m a (length bs)"
  shows "\<exists>s. store oc a bs m = (Val (), m\<lparr>mem := s\<rparr>) \<and> wf_mem s \<and>
    (\<forall>x. guest_byte s x = (if in_range a (length bs) x then Some (bs ! (unat x - unat a))
       else guest_byte (mem m) x))"
proof -
  from gm.wr_ok [of "mem m" a bs oc] assms obtain s where
    "mem_write oc a bs (mem m) = (Val (), s)" "wf_mem s"
    "\<forall>x. guest_byte s x = (if in_range a (length bs) x then Some (bs ! (unat x - unat a))
       else guest_byte (mem m) x)"
    by (auto simp: accessible_def)
  then show ?thesis by (auto simp: store_def mem_comp_def)
qed

text \<open>DC ZVA clears the 64-byte block that holds the address in its register, changes
  no other byte of the guest and no register but the pc.\<close>

theorem dc_zva_clears_block:
  assumes "accessible m (get_x (ctx m) (unat (ins AND 0x1f)) AND NOT 63) 64" and "no_wrap pc"
  shows "\<exists>s. exec_DC_ZVA oc pc ins m = (Val True, m\<lparr>ctx := (ctx m)\<lparr>ctx_pc := pc + 4\<rparr>, mem := s\<rparr>) \<and>
    (\<forall>x. guest_byte s x =
       (if in_range (get_x (ctx m) (unat (ins AND 0x1f)) AND NOT 63) 64 x then Some 0
        else guest_byte (mem m) x))"
proof -
  let ?a = "get_x (ctx m) (unat (ins AND 0x1f)) AND NOT 63"
  obtain s where s: "store oc ?a (replicate 64 0) m = (Val (), m\<lparr>mem := s\<rparr>)"
    and v: "\<forall>x. guest_byte s x = (if in_range ?a 64 x then Some (replicate 64 0 ! (unat x - unat ?a))
       else guest_byte (mem m) x)"
    using store_accessible [of m ?a "replicate 64 0" oc] assms(1) by auto
  have "ignore_err (store oc ?a (replicate 64 0)) m = (Val (), m\<lparr>mem := s\<rparr>)"
    using s by (simp add: ignore_err_def)
  then have "exec_DC_ZVA oc pc ins m = (Val True, m\<lparr>ctx := (ctx m)\<lparr>ctx_pc := pc + 4\<rparr>, mem := s\<rparr>)"
    by (simp add: exec_DC_ZVA_def bind_Val skip_insn_def ck_add_4 [OF assms(2)])
  moreover have "guest_byte s x = (if in_range ?a 64 x then Some 0 else guest_byte (mem m) x)" for x
    using v by (auto simp: in_range_def)
  ultimately show ?thesis by blast
qed

theorem dc_zva_clears_block_witness:
  "\<exists>c (s :: u64 sys). accessible \<lparr>ctx = c, mem = s\<rparr> 0x4040 64 \<and>
     (\<exists>t. exec_DC_ZVA True 0x400 0xd50b7421 \<lparr>ctx = c, mem = s\<rparr> =
        (Val True, \<lparr>ctx = c\<lparr>ctx_pc := 0x404\<rparr>, mem = t\<rparr>) \<and>
        guest_byte t 0x4050 = Some 0 \<and> guest_byte t 0x1000 = Some 7)"
proof -
  let ?c = "set_x 1 0x4050 cpu_new"
  obtain s where r: "map_anonymous_prot bump_os 0x4000 0x1000 (Prot True True False) demo_mem = (Val 0x4000, s)"
    using demo_map [of "0x1000" "0x4000"] by auto
  have "guest_free demo_mem 0x4000 0x1000"
    by (simp add: guest_free_def demo_mem_def demo_seg_def ranges_disjoint_def)
  from map_anonymous_prot_ok [OF demo_wf bump_os_contract this _ _ _ _ r] have
    s: "wf_mem s" "\<And>a. guest_byte s a = (if in_range 0x4000 0x1000 a then Some 0 else guest_byte demo_mem a)"
    by auto
  have in4: "in_range 0x4000 0x1000 (0x4040 + of_nat i :: u64)" if "i < 64" for i
  proof -
    have "unat (0x4040 + of_nat i :: u64) = 0x4040 + i"
      using that by (simp add: unat_word_ariths unsigned_of_nat take_bit_eq_mod)
    with that show ?thesis by (simp add: in_range_def word_le_nat_alt)
  qed
  have acc: "accessible \<lparr>ctx = ?c, mem = s\<rparr> 0x4040 64"
    using s in4 by (auto simp: accessible_def low_range_def RAW_BASE_def)
  have x1: "get_x (set_x (Suc 0) 0x4050 cpu_new) (Suc 0) = 0x4050" by (simp add: get_set_x wf_cpu_new)
  have "accessible \<lparr>ctx = ?c, mem = s\<rparr>
      (get_x (ctx \<lparr>ctx = ?c, mem = s\<rparr>) (unat ((0xd50b7421 :: u32) AND 0x1f)) AND NOT 63) 64"
    using acc by (simp add: x1)
  from dc_zva_clears_block [OF this, of "0x400" True] obtain t where
    "exec_DC_ZVA True 0x400 0xd50b7421 \<lparr>ctx = ?c, mem = s\<rparr> = (Val True, \<lparr>ctx = ?c\<lparr>ctx_pc := 0x404\<rparr>, mem = t\<rparr>)"
    "\<forall>x. guest_byte t x = (if in_range 0x4040 64 x then Some 0 else guest_byte s x)"
    by (auto simp: x1 no_wrap_def)
  moreover from this(2) have "guest_byte t 0x4050 = Some 0" "guest_byte t 0x1000 = Some 7"
    by (simp_all add: in_range_def s(2) demo_guest_byte)
  ultimately show ?thesis using acc by blast
qed

subsection \<open>Host thunks\<close>

text \<open>At an address with a host thunk, the thunk runs instead of the instruction; when it
  succeeds, does not end the program and leaves the pc alone, the guest continues at its
  return address, and an error of the thunk becomes an interpreter error at the pc.\<close>

theorem thunk_step:
  assumes "\<not> ctx_exited (ctx m)" and "T (ctx_pc (ctx m)) = Some f" and "f m = (r, t)"
    and "ctx_pc (ctx m) \<noteq> 0x4cffb4" and "ctx_pc (ctx t) = ctx_pc (ctx m)" and "\<not> ctx_exited (ctx t)"
  shows "step_with_thunk_lookup E T m =
    (case r of Inl e \<Rightarrow> (Fail (InterpreterError (ctx_pc (ctx m)) e None), t)
     | Inr _ \<Rightarrow> (Val True, t\<lparr>ctx := (ctx t)\<lparr>ctx_pc := get_x (ctx t) 30\<rparr>\<rparr>))"
  using assms by (simp add: step_with_thunk_lookup_def Let_def thunk_trace_def split: sum.split)

theorem thunk_step_witness:
  "step_with_thunk_lookup (demo_env demo_nop demo_nop)
     (\<lambda>a. if a = 0x1000 then Some (\<lambda>m. (Inr (), m\<lparr>ctx := set_x 0 42 (ctx m)\<rparr>)) else None) (demo_at 0x1000)
   = (Val True, (demo_at 0x1000)\<lparr>ctx := (set_x 0 42 (ctx (demo_at 0x1000)))
       \<lparr>ctx_pc := get_x (set_x 0 42 (ctx (demo_at 0x1000))) 30\<rparr>\<rparr>)"
  using thunk_step [of "demo_at 0x1000" "\<lambda>a. if a = 0x1000
      then Some (\<lambda>m. (Inr (), m\<lparr>ctx := set_x 0 42 (ctx m)\<rparr>)) else None"
      "\<lambda>m. (Inr (), m\<lparr>ctx := set_x 0 42 (ctx m)\<rparr>)" "Inr ()"
      "(demo_at 0x1000)\<lparr>ctx := set_x 0 42 (ctx (demo_at 0x1000))\<rparr>" "demo_env demo_nop demo_nop"]
    demo_at_simps(3) [of "0x1000"]
  by (simp add: set_x_def)

end
