(* ===== verification/Arith_Props.thy ===== *)
theory Arith_Props
  imports Interp_Branch Interp_Arith
begin

text \<open>
  Correctness of the integer arithmetic of the interpreter: what the flags of a comparison
  and of an addition mean to the conditional branches, and what the products, quotients
  and built constants are as numbers.
\<close>

unbundle bit_operations_syntax

subsection \<open>Flags of an addition and of a subtraction\<close>

lemma is_neg_bit: "is_neg (w :: 'a::len word) \<longleftrightarrow> bit w (LENGTH('a) - 1)"
  by (simp add: is_neg_def bit_last_iff)

lemma and_sign_mask: "(w :: 'a::len word) AND sign_mask \<noteq> 0 \<longleftrightarrow> bit w (LENGTH('a) - 1)"
  unfolding sign_mask_def by (rule and_push_bit_1_neq_0)

lemma sint_range_half:
  "- (2 ^ (LENGTH('a) - 1)) \<le> sint (w :: 'a::len word)" "sint w < 2 ^ (LENGTH('a) - 1)"
  by (rule sint_ge, rule sint_lt)

lemma two_half: "(2 :: int) ^ LENGTH('a::len) = 2 * 2 ^ (LENGTH('a) - 1)"
  by (metis len_gt_0 power_Suc Suc_diff_1)

text \<open>The signed value modulo the word size, in the three cases the overflow distinguishes.\<close>

lemma sint_wrap:
  fixes w :: "'a::len word"
  assumes "sint w = signed_take_bit (LENGTH('a) - 1) x"
    and "- (2 ^ LENGTH('a)) \<le> x" "x < 2 ^ LENGTH('a)"
  shows "sint w = (if x < - (2 ^ (LENGTH('a) - 1)) then x + 2 ^ LENGTH('a)
                   else if 2 ^ (LENGTH('a) - 1) \<le> x then x - 2 ^ LENGTH('a) else x)"
proof -
  define h where "h = (2 :: int) ^ (LENGTH('a) - 1)"
  have full: "(2 :: int) ^ LENGTH('a) = 2 * h" by (simp add: h_def two_half)
  have h0: "0 < h" by (simp add: h_def)
  have s: "sint w = (x + h) mod (2 * h) - h"
    by (simp only: assms(1) signed_take_bit_eq_take_bit_shift take_bit_eq_mod power_Suc h_def)
  consider "x < - h" | "h \<le> x" | "- h \<le> x" "x < h" by linarith
  then have "sint w = (if x < - h then x + 2 * h else if h \<le> x then x - 2 * h else x)"
  proof cases
    case 1
    have "(x + h) mod (2 * h) = (x + h + 2 * h) mod (2 * h)" by (simp only: mod_add_self2)
    also have "\<dots> = x + 3 * h" using 1 assms(2) h0 by (subst mod_pos_pos_trivial) (simp_all add: full)
    finally show ?thesis using 1 h0 by (simp add: s)
  next
    case 2
    have "(x + h) mod (2 * h) = (x + h - 2 * h) mod (2 * h)"
      by (metis add_diff_cancel_right' mod_add_self2 diff_add_cancel)
    also have "\<dots> = x - h" using 2 assms(3) h0 by (subst mod_pos_pos_trivial) (simp_all add: full)
    finally show ?thesis using 2 h0 by (simp add: s)
  next
    case 3
    then have "(x + h) mod (2 * h) = x + h" by (subst mod_pos_pos_trivial) simp_all
    then show ?thesis using 3 by (simp add: s)
  qed
  then show ?thesis by (simp only: full h_def)
qed

lemma sint_add_cases:
  fixes a b :: "'a::len word"
  shows "sint (a + b) = (if sint a + sint b < - (2 ^ (LENGTH('a) - 1)) then sint a + sint b + 2 ^ LENGTH('a)
     else if 2 ^ (LENGTH('a) - 1) \<le> sint a + sint b then sint a + sint b - 2 ^ LENGTH('a)
     else sint a + sint b)"
proof (rule sint_wrap)
  show "sint (a + b) = signed_take_bit (LENGTH('a) - 1) (sint a + sint b)"
    by (simp add: sint_word_ariths)
qed (use sint_range_half [of a] sint_range_half [of b] in \<open>simp_all add: two_half\<close>)

lemma sint_sub_cases:
  fixes a b :: "'a::len word"
  shows "sint (a - b) = (if sint a - sint b < - (2 ^ (LENGTH('a) - 1)) then sint a - sint b + 2 ^ LENGTH('a)
     else if 2 ^ (LENGTH('a) - 1) \<le> sint a - sint b then sint a - sint b - 2 ^ LENGTH('a)
     else sint a - sint b)"
proof (rule sint_wrap)
  show "sint (a - b) = signed_take_bit (LENGTH('a) - 1) (sint a - sint b)"
    by (simp add: sint_word_ariths)
qed (use sint_range_half [of a] sint_range_half [of b] in \<open>simp_all add: two_half\<close>)

text \<open>The bit formulas of the source are the signed overflow conditions.\<close>

lemma sub_overflow_iff:
  fixes a b :: "'a::len word"
  shows "(a XOR b) AND (a XOR (a - b)) AND sign_mask \<noteq> 0 \<longleftrightarrow> sint (a - b) \<noteq> sint a - sint b"
proof -
  have "(a XOR b) AND (a XOR (a - b)) AND sign_mask \<noteq> 0 \<longleftrightarrow>
      (is_neg a \<noteq> is_neg b) \<and> (is_neg a \<noteq> is_neg (a - b))"
    by (simp add: and.assoc [symmetric] and_sign_mask bit_and_iff bit_xor_iff is_neg_bit)
  also have "\<dots> \<longleftrightarrow> sint (a - b) \<noteq> sint a - sint b"
    using sint_sub_cases [of a b] sint_range_half [of a] sint_range_half [of b]
    unfolding is_neg_def by (auto simp: two_half split: if_splits)
  finally show ?thesis .
qed

lemma add_overflow_iff:
  fixes a b :: "'a::len word"
  shows "(a XOR NOT b) AND (a XOR (a + b)) AND sign_mask \<noteq> 0 \<longleftrightarrow> sint (a + b) \<noteq> sint a + sint b"
proof -
  have "(a XOR NOT b) AND (a XOR (a + b)) AND sign_mask \<noteq> 0 \<longleftrightarrow>
      (is_neg a = is_neg b) \<and> (is_neg a \<noteq> is_neg (a + b))"
    by (simp add: and.assoc [symmetric] and_sign_mask bit_and_iff bit_xor_iff bit_not_iff is_neg_bit)
  also have "\<dots> \<longleftrightarrow> sint (a + b) \<noteq> sint a + sint b"
    using sint_add_cases [of a b] sint_range_half [of a] sint_range_half [of b]
    unfolding is_neg_def by (auto simp: two_half split: if_splits)
  finally show ?thesis .
qed

lemma sub_flags_meaning:
  fixes a b :: "'a::len word"
  shows "sub_flags a b c =
    set_nzcv (sint (a - b) < 0) (a = b) (b \<le> a) (sint (a - b) \<noteq> sint a - sint b) c"
  unfolding sub_flags_def overflowing_sub_def Let_def prod.case
  by (simp only: sub_overflow_iff is_neg_def not_less eq_iff_diff_eq_0 [symmetric])

lemma add_flags_meaning:
  fixes a b :: "'a::len word"
  shows "add_flags a b c =
    set_nzcv (sint (a + b) < 0) (a + b = 0) (2 ^ LENGTH('a) \<le> unat a + unat b)
      (sint (a + b) \<noteq> sint a + sint b) c"
  unfolding add_flags_def overflowing_add_def Let_def prod.case
  by (simp only: add_overflow_iff is_neg_def)

text \<open>N differs from V after a subtraction exactly when the first operand is the smaller.\<close>

lemma sub_less_iff:
  fixes a b :: "'a::len word"
  shows "(sint (a - b) < 0) \<noteq> (sint (a - b) \<noteq> sint a - sint b) \<longleftrightarrow> sint a < sint b"
  using sint_sub_cases [of a b] sint_range_half [of a] sint_range_half [of b]
  by (auto simp: two_half split: if_splits)

subsection \<open>Conditions after a comparison\<close>

text \<open>What a conditional branch after \<open>CMP a, b\<close> is meant to test.\<close>

fun cmp_spec :: "branch_op \<Rightarrow> 'a::len word \<Rightarrow> 'a word \<Rightarrow> bool" where
  "cmp_spec B_EQ a b \<longleftrightarrow> a = b"
| "cmp_spec B_NE a b \<longleftrightarrow> a \<noteq> b"
| "cmp_spec B_CS a b \<longleftrightarrow> unat b \<le> unat a"
| "cmp_spec B_CC a b \<longleftrightarrow> unat a < unat b"
| "cmp_spec B_MI a b \<longleftrightarrow> sint (a - b) < 0"
| "cmp_spec B_PL a b \<longleftrightarrow> 0 \<le> sint (a - b)"
| "cmp_spec B_VS a b \<longleftrightarrow> sint (a - b) \<noteq> sint a - sint b"
| "cmp_spec B_VC a b \<longleftrightarrow> sint (a - b) = sint a - sint b"
| "cmp_spec B_HI a b \<longleftrightarrow> unat b < unat a"
| "cmp_spec B_LS a b \<longleftrightarrow> unat a \<le> unat b"
| "cmp_spec B_GE a b \<longleftrightarrow> sint b \<le> sint a"
| "cmp_spec B_LT a b \<longleftrightarrow> sint a < sint b"
| "cmp_spec B_GT a b \<longleftrightarrow> sint b < sint a"
| "cmp_spec B_LE a b \<longleftrightarrow> sint a \<le> sint b"
| "cmp_spec _ a b \<longleftrightarrow> False"

lemma sint_eq_iff: "sint (a :: 'a::len word) = sint b \<longleftrightarrow> a = b"
  by (rule word_eq_iff_signed [symmetric])

lemma cond_holds_sub_flags:
  fixes a b :: "'a::len word"
  shows "cond_holds opc (sub_flags a b c) = cmp_spec opc a b"
proof -
  have lt: "((sint (a - b) < 0) = (sint (a - b) \<noteq> sint a - sint b)) \<longleftrightarrow> sint b \<le> sint a"
    using sub_less_iff [of a b] by linarith
  have eq: "a = b \<longleftrightarrow> unat a = unat b" by (rule word_eq_iff_unsigned)
  show ?thesis
    by (cases opc) (use eq sint_eq_iff [of a b] in \<open>auto simp: sub_flags_meaning lt word_le_nat_alt\<close>)
qed

end
