(* ===== verification/Arith_Correct.thy ===== *)
theory Arith_Correct
  imports Arith_Props Operand_Props
begin

text \<open>
  The properties of the register views and of the integer arithmetic of the interpreter,
  stated on the handlers of \<open>interp/mod.rs\<close>.
\<close>

unbundle bit_operations_syntax

subsection \<open>Register views\<close>

text \<open>
  The storage behind a register name, and what a view of it reads back after a write.
  The zero registers and WSP have none: WSP is not an alias of SP for the interpreter.
\<close>

datatype reg_cell = Cell_X nat | Cell_SP | Cell_V nat | Cell_none

fun cell_of :: "reg \<Rightarrow> reg_cell" where
  "cell_of r = (case reg_idx r of Some n \<Rightarrow> Cell_X n
     | None \<Rightarrow> (case v_reg_idx r of Some n \<Rightarrow> Cell_V n
     | None \<Rightarrow> if r = SP then Cell_SP else Cell_none))"

fun view_width :: "reg \<Rightarrow> nat" where
  "view_width (RX n) = (if n < 31 then 64 else 0)"
| "view_width (RW n) = (if n < 31 then 32 else 0)"
| "view_width SP = 64"
| "view_width (RB n) = (if n < 32 then 8 else 0)"
| "view_width (RH n) = (if n < 32 then 16 else 0)"
| "view_width (RS n) = (if n < 32 then 32 else 0)"
| "view_width (RD n) = (if n < 32 then 64 else 0)"
| "view_width (RQ n) = (if n < 32 then 64 else 0)"
| "view_width (RV n) = (if n < 32 then 64 else 0)"
| "view_width _ = 0"

lemma view_width_vreg:
  assumes "fmt_reg_std D" and "v_reg_idx r = Some i"
  shows "view_width r = 8 * view_bytes D r"
  using assms(2) by (cases r) (auto simp: view_bytes_def reg_size_std [OF assms(1)] split: if_splits)

lemma get_set_same_view:
  assumes "wf_cpu c" and "fmt_reg_std D"
  shows "get_reg_val D r (set_reg_val D r v c) = take_bit (view_width r) v"
proof (cases "v_reg_idx r")
  case (Some i)
  then show ?thesis
    using get_set_vreg [OF assms(1) Some] view_width_vreg [OF assms(2) Some] by simp
next
  case None
  have m: "(v AND 0xFFFFFFFF) = take_bit 32 v" "take_bit 32 v AND 0xFFFFFFFF = take_bit 32 v"
    by (simp_all add: low32_mask take_bit_eq_mask and.assoc)
  have full: "take_bit 64 v = v" by (rule bit_word_eqI) (simp add: bit_take_bit_iff)
  from None show ?thesis
    by (cases r) (auto simp: get_reg_val_def set_reg_val_def get_set_x assms(1) m full split: if_splits)
qed

lemma get_set_other_cell:
  assumes "wf_cpu c" and "cell_of r' \<noteq> cell_of r"
  shows "get_reg_val D r' (set_reg_val D r v c) = get_reg_val D r' c"
proof -
  have x: "get_x (set_reg_val D r v c) n = get_x c n" if "cell_of r \<noteq> Cell_X n" for n
    using that by (auto simp: set_reg_val_def Let_def get_set_x assms(1) split: option.splits)
  have w: "ctx_v (set_reg_val D r v c) ! n = ctx_v c ! n" if "cell_of r \<noteq> Cell_V n" "n < 32" for n
    using that v_set_v_bytes [OF assms(1)] v_reg_idx_bound [of r]
    by (auto simp: set_reg_val_def Let_def split: option.splits)
  have s: "ctx_sp (set_reg_val D r v c) = ctx_sp c" if "cell_of r \<noteq> Cell_SP"
    using that by (auto simp: set_reg_val_def Let_def split: option.splits)
  from assms(2) show ?thesis
    by (auto simp: get_reg_val_def Let_def x w s v_reg_idx_bound split: option.splits if_splits)
qed

text \<open>C24: the register views of the interpreter. A read of a register after a write to it
  gives the low bits of the value that the view holds (64 for X registers and SP, 32 for
  W registers, up to 64 for the SIMD views, none for the zero registers and WSP); a write
  changes no register with other storage.\<close>

theorem register_views:
  assumes "wf_cpu c" and "fmt_reg_std D"
  shows "get_reg_val D r (set_reg_val D r v c) = take_bit (view_width r) v \<and>
    (\<forall>r'. cell_of r' \<noteq> cell_of r \<longrightarrow>
       get_reg_val D r' (set_reg_val D r v c) = get_reg_val D r' c)"
  using get_set_same_view [OF assms] get_set_other_cell [OF assms(1)] by blast

theorem register_views_witness:
  "get_reg_val (text_bad64 (\<lambda>w a. Inl [])) (RW 3)
     (set_reg_val (text_bad64 (\<lambda>w a. Inl [])) (RW 3) 0x1122334455667788 cpu_new) = 0x55667788"
  using register_views [OF wf_cpu_new text_bad64_std, of "\<lambda>w a. Inl []" "RW 3" "0x1122334455667788"]
  by (simp add: take_bit_eq_mask mask_eq_exp_minus_1)

subsection \<open>Comparison and branch\<close>

lemma exec_CMP_flags:
  "exec_SUB D CMP [a, b] c =
     sub_flags_sized (op_is_w a) (get_operand_val D a c) (get_operand_val D b c) c"
  by (simp add: exec_SUB_def)

text \<open>C8: a conditional branch after a comparison is taken exactly when the relation its
  condition names holds between the two operands, as unsigned numbers for CS, CC, HI, LS
  and as signed numbers for GE, LT, GT, LE, at 32 bits when the first operand is a W
  register and at 64 bits otherwise.\<close>

theorem cmp_then_branch:
  "exec_B_cond D opc [O_Label target] next_pc (exec_SUB D CMP [a, b] c) =
     (if (if op_is_w a
          then cmp_spec opc (ucast (get_operand_val D a c) :: u32) (ucast (get_operand_val D b c))
          else cmp_spec opc (get_operand_val D a c) (get_operand_val D b c))
      then imm_to_u64 target else next_pc)"
  by (simp add: exec_B_cond_def exec_CMP_flags sub_flags_sized_def cond_holds_sub_flags)

subsection \<open>ADDS\<close>

definition add_carry :: "'a::len word \<Rightarrow> 'a word \<Rightarrow> bool" where
  "add_carry a b \<longleftrightarrow> 2 ^ LENGTH('a) \<le> unat a + unat b"

definition add_signed_overflow :: "'a::len word \<Rightarrow> 'a word \<Rightarrow> bool" where
  "add_signed_overflow a b \<longleftrightarrow> sint (a + b) \<noteq> sint a + sint b"

text \<open>C25: ADDS on X registers writes the sum modulo \<open>2^64\<close> and sets N, Z, C and V to the
  sign, the zero test, the unsigned and the signed overflow of the 64-bit sum.\<close>

theorem adds_64:
  assumes "wf_cpu c" and "d < 31" and "\<not> op_is_w a"
  shows "let v1 = get_operand_val D a c; v2 = get_operand_val D b c;
      c' = exec_ADD D ADDS [O_Reg (RX d) x, a, b] c
    in get_x c' d = v1 + v2 \<and> get_n c' = (sint (v1 + v2) < 0) \<and> get_z c' = (v1 + v2 = 0) \<and>
       get_c c' = add_carry v1 v2 \<and> get_v c' = add_signed_overflow v1 v2"
  using assms
  by (simp add: exec_ADD_def add_flags_sized_def add_flags_meaning Let_def get_x_set_same
      add_carry_def add_signed_overflow_def)

theorem adds_64_witness:
  "let c' = exec_ADD (text_bad64 (\<lambda>w a. Inl [])) ADDS
        [O_Reg (RX 0) [], O_Imm64 (Unsigned 0xffffffffffffffff) None, O_Imm64 (Unsigned 1) None]
        cpu_new
   in get_x c' 0 = 0 \<and> get_z c' \<and> get_c c' \<and> \<not> get_v c'"
proof -
  have "\<not> op_is_w (O_Imm64 (Unsigned 0xffffffffffffffff) None :: string operand)"
    by (simp add: op_is_w_def)
  from adds_64 [OF wf_cpu_new _ this, of 0 "text_bad64 (\<lambda>w a. Inl [])" "O_Imm64 (Unsigned 1) None" "[]"]
  show ?thesis
    by (simp add: Let_def add_carry_def add_signed_overflow_def)
qed

subsection \<open>Products\<close>

lemma unat_mul_high:
  fixes a b :: u64
  shows "unat (ucast (drop_bit 64 ((ucast a :: u128) * ucast b)) :: u64) = unat a * unat b div 2 ^ 64"
proof -
  have "unat a < 2 ^ 64" "unat b < 2 ^ 64" using unsigned_less [of a] unsigned_less [of b] by simp_all
  then have lt: "unat a * unat b < 2 ^ 64 * 2 ^ 64" by (intro mult_strict_mono) auto
  have "unat (ucast a :: u128) = unat a" "unat (ucast b :: u128) = unat b"
    using \<open>unat a < 2 ^ 64\<close> \<open>unat b < 2 ^ 64\<close> by (simp_all add: unsigned_ucast_eq take_bit_eq_mod)
  with lt have "unat ((ucast a :: u128) * ucast b) = unat a * unat b"
    by (simp add: unat_word_ariths)
  then have "unat (drop_bit 64 ((ucast a :: u128) * ucast b)) = unat a * unat b div 2 ^ 64"
    using lt by (simp only: unsigned_drop_bit_eq) (simp add: drop_bit_eq_div take_bit_eq_mod)
  moreover have "unat a * unat b div 2 ^ 64 < 2 ^ 64" using lt by (simp add: less_mult_imp_div_less)
  ultimately show ?thesis by (simp add: unsigned_ucast_eq take_bit_eq_mod)
qed

text \<open>MUL and UMULH together give the full 128-bit product of two X registers.\<close>

theorem mul_umulh_product:
  assumes "wf_cpu c" and "d < 31" and "e < 31"
  shows "unat (get_x (exec_MUL D [O_Reg (RX d) x, a, b] c) d) +
     2 ^ 64 * unat (get_x (exec_UMULH D [O_Reg (RX e) y, a, b] c) e) =
     unat (get_operand_val D a c) * unat (get_operand_val D b c)"
  using assms
  by (simp add: exec_MUL_def exec_UMULH_def Let_def get_x_set_same unat_mul_high unat_word_ariths
      mod_mult_div_eq)

theorem mul_umulh_product_witness:
  "unat (get_x (exec_MUL (text_bad64 (\<lambda>w a. Inl []))
        [O_Reg (RX 0) [], O_Imm64 (Unsigned (- 1)) None, O_Imm64 (Unsigned (- 1)) None] cpu_new) 0) +
     2 ^ 64 * unat (get_x (exec_UMULH (text_bad64 (\<lambda>w a. Inl []))
        [O_Reg (RX 1) [], O_Imm64 (Unsigned (- 1)) None, O_Imm64 (Unsigned (- 1)) None] cpu_new) 1) =
     (2 ^ 64 - 1) * (2 ^ 64 - 1)"
proof -
  have "unat (- 1 :: u64) = 2 ^ 64 - 1" by (simp add: unsigned_minus_1_eq_mask mask_eq_exp_minus_1)
  then show ?thesis
    using mul_umulh_product [OF wf_cpu_new, of 0 1 "text_bad64 (\<lambda>w a. Inl [])" "[]"
        "O_Imm64 (Unsigned (- 1)) None" "O_Imm64 (Unsigned (- 1)) None" "[]"] by simp
qed

lemma sint_wide_product:
  fixes a b :: u64
  shows "sint ((scast a :: u128) * scast b) = sint a * sint b"
proof -
  have r: "- (2 ^ 63) \<le> sint a" "sint a < 2 ^ 63" "- (2 ^ 63) \<le> sint b" "sint b < 2 ^ 63"
    using sint_range_half [of a] sint_range_half [of b] by simp_all
  have abs: "\<bar>sint a\<bar> \<le> 2 ^ 63" "\<bar>sint b\<bar> \<le> 2 ^ 63" using r by linarith+
  have "\<bar>sint a * sint b\<bar> \<le> 2 ^ 63 * 2 ^ 63"
    unfolding abs_mult by (rule mult_mono) (use abs in auto)
  then have p: "- (2 ^ 127) \<le> sint a * sint b" "sint a * sint b < 2 ^ 127" by (simp_all add: abs_le_iff)
  have s: "sint (scast a :: u128) = sint a" "sint (scast b :: u128) = sint b"
    by (simp_all add: sint_up_scast is_up_def source_size_def target_size_def)
  have "sint ((scast a :: u128) * scast b) = signed_take_bit 127 (sint a * sint b)"
    by (simp add: sint_word_ariths s)
  also have "\<dots> = sint a * sint b" using p by (intro signed_take_bit_int_eq_self) simp_all
  finally show ?thesis .
qed

text \<open>MUL and SMULH together give the full signed 128-bit product of two X registers.\<close>

theorem mul_smulh_product:
  assumes "wf_cpu c" and "d < 31" and "e < 31"
  shows "int (unat (get_x (exec_MUL D [O_Reg (RX d) x, a, b] c) d)) +
     2 ^ 64 * sint (get_x (exec_SMULH D [O_Reg (RX e) y, a, b] c) e) =
     sint (get_operand_val D a c) * sint (get_operand_val D b c)"
proof -
  let ?a = "get_operand_val D a c" and ?b = "get_operand_val D b c"
  let ?p = "(scast ?a :: u128) * scast ?b"
  have p: "sint ?p = sint ?a * sint ?b" by (rule sint_wide_product)
  have hi: "sint (signed_drop_bit 64 ?p) = sint ?p div 2 ^ 64"
    by (simp add: sint_signed_drop_bit_eq drop_bit_eq_div)
  have bnd: "- (2 ^ 63) \<le> sint ?p div 2 ^ 64" "sint ?p div 2 ^ 64 < 2 ^ 63"
    using sint_range_half [of ?p] by simp_all
  have low: "sint (ucast w :: u64) = sint w" if "- (2 ^ 63) \<le> sint w" "sint w < 2 ^ 63" for w :: u128
  proof -
    have "sint (ucast w :: u64) = signed_take_bit 63 (uint w)"
      by (simp add: unsigned_ucast_eq signed_ucast_eq)
    also have "\<dots> = signed_take_bit 63 (take_bit 128 (sint w))" by (simp add: uint_sint)
    also have "\<dots> = signed_take_bit 63 (sint w)"
      by (simp add: signed_take_bit_take_bit)
    also have "\<dots> = sint w" using that by (intro signed_take_bit_int_eq_self) simp_all
    finally show ?thesis .
  qed
  have h: "sint (ucast (signed_drop_bit 64 ?p) :: u64) = sint ?p div 2 ^ 64"
    using low [of "signed_drop_bit 64 ?p"] hi bnd by simp
  have l: "int (unat (?a * ?b)) = (sint ?a * sint ?b) mod 2 ^ 64"
  proof -
    have "uint (?a * ?b) = take_bit 64 (sint ?a * sint ?b)"
      by (simp add: uint_sint sint_word_ariths take_bit_signed_take_bit)
    then show ?thesis by (simp add: take_bit_eq_mod)
  qed
  show ?thesis
    using assms h l p
    by (simp add: exec_MUL_def exec_SMULH_def Let_def get_x_set_same)
qed

theorem mul_smulh_product_witness:
  "int (unat (get_x (exec_MUL (text_bad64 (\<lambda>w a. Inl []))
        [O_Reg (RX 0) [], O_Imm64 (Signed (- 3)) None, O_Imm64 (Signed 5) None] cpu_new) 0)) +
     2 ^ 64 * sint (get_x (exec_SMULH (text_bad64 (\<lambda>w a. Inl []))
        [O_Reg (RX 1) [], O_Imm64 (Signed (- 3)) None, O_Imm64 (Signed 5) None] cpu_new) 1) = - 15"
  using mul_smulh_product [OF wf_cpu_new, of 0 1 "text_bad64 (\<lambda>w a. Inl [])" "[]"
      "O_Imm64 (Signed (- 3)) None" "O_Imm64 (Signed 5) None" "[]"] by simp

subsection \<open>Division\<close>

lemma trunc_div_range:
  assumes "- (2 ^ k) \<le> a" "a < 2 ^ k" "b \<noteq> 0" "\<not> (a = - (2 ^ k) \<and> b = - 1)"
  shows "- (2 ^ k) \<le> trunc_div a b \<and> trunc_div a b < 2 ^ k"
proof -
  have ab: "\<bar>a\<bar> \<le> 2 ^ k" and b1: "1 \<le> \<bar>b\<bar>" using assms by auto
  have q: "0 \<le> \<bar>a\<bar> div \<bar>b\<bar>" "\<bar>a\<bar> div \<bar>b\<bar> \<le> \<bar>a\<bar>"
    using zdiv_mono2 [of "\<bar>a\<bar>" 1 "\<bar>b\<bar>"] b1 by (simp_all add: pos_imp_zdiv_nonneg_iff)
  show ?thesis
  proof (cases "\<bar>a\<bar> div \<bar>b\<bar> < 2 ^ k")
    case True
    then show ?thesis using q by (auto simp: trunc_div_def sgn_if split: if_splits)
  next
    case False
    with q ab have full: "\<bar>a\<bar> div \<bar>b\<bar> = 2 ^ k" "\<bar>a\<bar> = 2 ^ k" by linarith+
    then have a: "a = - (2 ^ k)" using assms(2) by linarith
    have "\<bar>b\<bar> = 1"
    proof (rule ccontr)
      assume "\<bar>b\<bar> \<noteq> 1"
      with b1 have "2 \<le> \<bar>b\<bar>" by linarith
      then have "\<bar>a\<bar> div \<bar>b\<bar> \<le> \<bar>a\<bar> div 2" by (intro zdiv_mono2) simp_all
      moreover have "(0 :: int) < 2 ^ k" by simp
      ultimately show False using full by linarith
    qed
    then have "b = 1" using a assms(4) by linarith
    then show ?thesis using a full by (simp add: trunc_div_def)
  qed
qed

lemma ck_sdiv_spec:
  fixes a b :: "'a::len word"
  assumes "b \<noteq> 0"
  shows "ck_sdiv a b =
    (if sint a = - (2 ^ (LENGTH('a) - 1)) \<and> sint b = - 1 then Crash Panic
     else Val (word_of_int (trunc_div (sint a) (sint b))))"
proof -
  have b0: "sint b \<noteq> 0" using assms by (metis sint_0 word_eq_iff_signed)
  show ?thesis
  proof (cases "sint a = - (2 ^ (LENGTH('a) - 1)) \<and> sint b = - 1")
    case True
    then have q: "trunc_div (sint a) (sint b) = 2 ^ (LENGTH('a) - 1)" by (simp add: trunc_div_def)
    have "sint (word_of_int (2 ^ (LENGTH('a) - 1)) :: 'a word) \<noteq> 2 ^ (LENGTH('a) - 1)"
      using sint_lt [of "word_of_int (2 ^ (LENGTH('a) - 1)) :: 'a word"] by linarith
    with True q assms show ?thesis by (simp add: ck_sdiv_def Let_def)
  next
    case False
    have "- (2 ^ (LENGTH('a) - 1)) \<le> trunc_div (sint a) (sint b) \<and>
        trunc_div (sint a) (sint b) < 2 ^ (LENGTH('a) - 1)"
      using False b0 sint_range_half [of a] by (intro trunc_div_range) auto
    then have "sint (word_of_int (trunc_div (sint a) (sint b)) :: 'a word) =
        trunc_div (sint a) (sint b)"
      unfolding sint_sbintrunc' by (intro signed_take_bit_int_eq_self) auto
    with False assms show ?thesis by (auto simp: ck_sdiv_def Let_def)
  qed
qed

text \<open>C26: SDIV on X registers writes the quotient truncated towards zero, and 0 for a zero
  divisor. The one quotient that does not fit, of the least value by \<open>-1\<close>, kills the
  process instead of wrapping to the least value, with or without overflow checks.\<close>

theorem sdiv_64:
  assumes "d < 31"
  shows "exec_SDIV D [O_Reg (RX d) x, a, b] c =
    (let v1 = get_operand_val D a c; v2 = get_operand_val D b c
     in if v2 = 0 then Val (set_x d 0 c)
        else if sint v1 = - (2 ^ 63) \<and> sint v2 = - 1 then Crash Panic
        else Val (set_x d (word_of_int (trunc_div (sint v1) (sint v2))) c))"
  using assms by (simp add: exec_SDIV_def ck_sdiv_spec Let_def)

theorem sdiv_64_witness:
  "exec_SDIV (text_bad64 (\<lambda>w a. Inl [])) [O_Reg (RX 0) [], O_Imm64 (Signed 0x8000000000000000) None,
       O_Imm64 (Signed (- 1)) None] cpu_new = Crash Panic"
proof -
  have "sint (0x8000000000000000 :: u64) = - (2 ^ 63)" by (simp add: signed_take_bit_eq_take_bit_shift take_bit_eq_mod)
  then show ?thesis
    using sdiv_64 [of 0 "text_bad64 (\<lambda>w a. Inl [])" "[]" "O_Imm64 (Signed 0x8000000000000000) None"
        "O_Imm64 (Signed (- 1)) None" cpu_new] by (simp add: Let_def)
qed

subsection \<open>Building constants\<close>

lemma mask16: "(0xffff :: u64) = mask 16"
  by (simp add: mask_eq_exp_minus_1)

definition movk_val :: "u64 \<Rightarrow> u64 \<Rightarrow> nat \<Rightarrow> u64" where
  "movk_val cur imm s = (cur AND NOT (push_bit s 0xffff)) OR push_bit s (imm AND 0xffff)"

lemma exec_MOVK_RX:
  assumes "wf_cpu c" and "d < 31" and "unat s < 64"
  shows "exec_MOVK oc D [O_Reg (RX d) x, O_Imm64 (Unsigned i) (Some (Sh_LSL s))] (set_x d v c) =
    Val (set_x d (movk_val v i (unat s)) c)"
  using assms xreg.put_put [of c d]
  by (simp add: exec_MOVK_def ck_shl_def movk_val_def get_x_set_same Let_def)

lemma exec_MOVZ_RX:
  assumes "d < 31"
  shows "exec_MOVZ oc D [O_Reg (RX d) x, O_Imm64 (Unsigned i) None] c =
    Val (set_x d (i AND 0xffff) c)"
  using assms by (simp add: exec_MOVZ_def mov_imm_def ck_shl_def)

definition quad :: "u64 \<Rightarrow> u64 \<Rightarrow> u64 \<Rightarrow> u64 \<Rightarrow> u64" where
  "quad i0 i1 i2 i3 = (i0 AND 0xffff) OR push_bit 16 (i1 AND 0xffff) OR
     push_bit 32 (i2 AND 0xffff) OR push_bit 48 (i3 AND 0xffff)"

lemma movk_val_quad:
  "movk_val (movk_val (movk_val (i0 AND 0xffff) i1 16) i2 32) i3 48 = quad i0 i1 i2 i3"
  by (rule bit_word_eqI)
    (auto simp: movk_val_def quad_def mask16 bit_and_iff bit_or_iff bit_not_iff bit_push_bit_iff
      bit_mask_iff)

text \<open>C27: MOVZ followed by MOVK at 16, 32 and 48 builds the 64-bit constant of its four
  16-bit parts, whatever the register held, and never overflows a shift.\<close>

theorem movz_movk_chain:
  assumes "wf_cpu c" and "d < 31"
  shows "bindO (exec_MOVZ oc D [O_Reg (RX d) x, O_Imm64 (Unsigned i0) None] c) (\<lambda>c1.
      bindO (exec_MOVK oc D [O_Reg (RX d) x, O_Imm64 (Unsigned i1) (Some (Sh_LSL 16))] c1) (\<lambda>c2.
      bindO (exec_MOVK oc D [O_Reg (RX d) x, O_Imm64 (Unsigned i2) (Some (Sh_LSL 32))] c2) (\<lambda>c3.
      exec_MOVK oc D [O_Reg (RX d) x, O_Imm64 (Unsigned i3) (Some (Sh_LSL 48))] c3))) =
    Val (set_x d (quad i0 i1 i2 i3) c)"
  using assms by (simp add: exec_MOVZ_RX exec_MOVK_RX movk_val_quad)

theorem movz_movk_chain_witness:
  "bindO (exec_MOVZ True (text_bad64 (\<lambda>w a. Inl [])) [O_Reg (RX 5) [], O_Imm64 (Unsigned 0x4444) None] cpu_new) (\<lambda>c1.
      bindO (exec_MOVK True (text_bad64 (\<lambda>w a. Inl [])) [O_Reg (RX 5) [], O_Imm64 (Unsigned 0x3333) (Some (Sh_LSL 16))] c1) (\<lambda>c2.
      bindO (exec_MOVK True (text_bad64 (\<lambda>w a. Inl [])) [O_Reg (RX 5) [], O_Imm64 (Unsigned 0x2222) (Some (Sh_LSL 32))] c2) (\<lambda>c3.
      exec_MOVK True (text_bad64 (\<lambda>w a. Inl [])) [O_Reg (RX 5) [], O_Imm64 (Unsigned 0x1111) (Some (Sh_LSL 48))] c3))) =
    Val (set_x 5 0x1111222233334444 cpu_new)"
proof -
  have "quad 0x4444 0x3333 0x2222 0x1111 = 0x1111222233334444"
    by (simp add: quad_def push_bit_eq_mult)
  then show ?thesis
    using movz_movk_chain [OF wf_cpu_new, of 5 True "text_bad64 (\<lambda>w a. Inl [])" "[]"
        "0x4444" "0x3333" "0x2222" "0x1111"] by simp
qed

text \<open>MOVZ with the immediate shifted by 16, 32 or 48 writes zero, not the shifted
  immediate: the operand value is already shifted when the handler masks it to 16 bits.\<close>

theorem movz_shifted_is_zero:
  assumes "d < 31" and "i \<le> 0xffff" and "s \<in> {16, 32, 48}"
  shows "exec_MOVZ oc D [O_Reg (RX d) x, O_Imm64 (Unsigned i) (Some (Sh_LSL s))] c =
    Val (set_x d 0 c)"
proof -
  have s: "unat s < 64" "16 \<le> unat s" using assms(3) by auto
  have "push_bit (unat s) i AND 0xffff = 0"
    using s by (intro bit_word_eqI) (auto simp: mask16 bit_and_iff bit_push_bit_iff bit_mask_iff)
  then show ?thesis
    using assms(1) s by (simp add: exec_MOVZ_def mov_imm_def ck_shl_def wrapping_shl_def)
qed

theorem movz_shifted_is_zero_witness:
  "exec_MOVZ True (text_bad64 (\<lambda>w a. Inl []))
     [O_Reg (RX 0) [], O_Imm64 (Unsigned 0x1234) (Some (Sh_LSL 16))] cpu_new =
   Val (set_x 0 0 cpu_new)"
  by (rule movz_shifted_is_zero) simp_all

end
