(* ===== verification/Bits_Correct.thy ===== *)
theory Bits_Correct
  imports Interp_Bitfield Arith_Correct
begin

text \<open>
  What the shifts, bit-field and conditional-compare handlers compute, at both register
  sizes, bit by bit.
\<close>

unbundle bit_operations_syntax

subsection \<open>General-purpose registers at both sizes\<close>

definition gp_reg :: "bool \<Rightarrow> nat \<Rightarrow> reg" where
  "gp_reg w n = (if w then RW n else RX n)"

definition gp_bits :: "bool \<Rightarrow> nat" where
  "gp_bits w = (if w then 32 else 64)"

lemma gp_reg_simps [simp]:
  "get_op_reg (O_Reg (gp_reg w n) x) = Some (gp_reg w n)"
  "plain_reg (O_Reg (gp_reg w n) x) = Some (gp_reg w n)"
  "n < 31 \<Longrightarrow> is_w_reg (gp_reg w n) = w" "n < 31 \<Longrightarrow> reg_bits (gp_reg w n) = gp_bits w"
  "v_reg_idx (gp_reg w n) = None"
  by (simp_all add: gp_reg_def reg_bits_def gp_bits_def)

lemma and_low32_take: "(v :: u64) AND 0xFFFFFFFF = take_bit 32 v"
  by (simp add: low32_mask take_bit_eq_mask)

lemma take_bit_64 [simp]: "take_bit 64 (v :: u64) = v"
  by (rule bit_word_eqI) (simp add: bit_take_bit_iff)

lemma get_x_set_gp:
  "wf_cpu c \<Longrightarrow> n < 31 \<Longrightarrow> get_x (set_reg_val D (gp_reg w n) v c) n = take_bit (gp_bits w) v"
  by (simp add: gp_reg_def gp_bits_def get_x_set_same and_low32_take)

lemma get_x_set_gp_trunc:
  "wf_cpu c \<Longrightarrow> n < 31 \<Longrightarrow> get_x (set_reg_trunc D (gp_reg w n) v c) n = take_bit (gp_bits w) v"
  by (simp add: set_reg_trunc_def get_x_set_gp trunc_w_def gp_bits_def zext32_def zext_value(1)
      take_bit_take_bit)

text \<open>An immediate operand.\<close>

abbreviation imm_op :: "nat \<Rightarrow> 'x operand" where
  "imm_op n \<equiv> O_Imm32 (Unsigned (of_nat n)) None"

lemma bit_width_mask: "k < 64 \<Longrightarrow> bit (width_mask n w) k \<longleftrightarrow> n \<le> w \<or> k < w"
  by (auto simp: width_mask_def bit_not_iff bit_mask_iff simp flip: mask_eq_exp_minus_1
      simp: push_bit_of_1)

lemma unat_small: "n < 2 ^ 64 \<Longrightarrow> unat (of_nat n :: u64) = n"
  by (simp add: unsigned_of_nat take_bit_nat_eq_self)

lemma unat_and_63: "n < 64 \<Longrightarrow> unat ((of_nat n :: u64) AND 63) = n"
proof -
  assume n: "n < 64"
  have "(of_nat n :: u64) AND 63 = take_bit 6 (of_nat n)"
    by (simp add: take_bit_eq_mask mask_eq_exp_minus_1)
  with n show ?thesis by (simp add: take_bit_of_nat unat_small take_bit_nat_eq_self flip: of_nat_take_bit)
qed

lemma sign_extend_field:
  assumes "0 < k" and "k \<le> b" and "b \<le> 64"
  shows "take_bit b (let raw = y AND width_mask b k
      in if 0 < k \<and> raw AND push_bit (k - 1) 1 \<noteq> 0 then raw OR NOT (width_mask b k) else raw) =
    take_bit b (signed_take_bit (k - 1) (y :: u64))"
proof (rule bit_word_eqI)
  fix n assume "n < LENGTH(64)"
  moreover from assms have "k - 1 < 64" "k - 1 < k" by simp_all
  moreover have "min (k - Suc 0) n = (if n < k then n else k - 1)" using assms(1) by (auto simp: min_def)
  ultimately show "bit (take_bit b (let raw = y AND width_mask b k
      in if 0 < k \<and> raw AND push_bit (k - 1) 1 \<noteq> 0 then raw OR NOT (width_mask b k) else raw)) n =
    bit (take_bit b (signed_take_bit (k - 1) y)) n"
    using assms
    by (auto simp: Let_def push_bit_of_1 and_exp_eq_0_iff_not_bit bit_take_bit_iff bit_and_iff
        bit_or_iff bit_not_iff bit_width_mask bit_signed_take_bit_iff min.commute)
qed

subsection \<open>Field extraction\<close>

lemma exec4_gp:
  assumes "wf_cpu c" and "d < 31" and "l < 2 ^ 64" and "k < 2 ^ 64"
  shows "get_x (exec4 D [O_Reg (gp_reg w d) x, a, imm_op l, imm_op k] f c) d =
    take_bit (gp_bits w) (f (gp_reg w d) (get_operand_val D a c) (of_nat l) (of_nat k))"
  using assms by (simp add: exec4_def get_x_set_gp_trunc)

text \<open>C32: UBFX and SBFX of \<open>width\<close> bits at \<open>lsb\<close> write the field zero-extended and
  sign-extended, for every field inside the register, at both sizes; the one excluded
  width is 64.\<close>

theorem bitfield_extract:
  assumes "wf_cpu c" and "d < 31" and "0 < width" and "width < 64" and "lsb + width \<le> gp_bits w"
  shows "let ops = [O_Reg (gp_reg w d) x, a, imm_op lsb, imm_op width]; v = get_operand_val D a c
    in \<exists>u s. exec_logic oc D UBFX ops c = Val u \<and> exec_logic oc D SBFX ops c = Val s \<and>
      get_x u d = take_bit width (drop_bit lsb v) \<and>
      get_x s d = take_bit (gp_bits w) (signed_take_bit (width - 1) (drop_bit lsb v))"
proof -
  let ?v = "get_operand_val D a c"
  have b: "gp_bits w \<le> 64" "lsb < gp_bits w" "lsb < 64" using assms(3,5) by (auto simp: gp_bits_def split: if_splits)
  have n: "unat ((of_nat lsb :: u64) AND 63) mod gp_bits w = lsb" "unat ((of_nat width :: u64) AND 63) = width"
    using b assms(4) by (simp_all add: unat_and_63)
  have u: "take_bit (gp_bits w) (ubfx_val (gp_reg w d) ?v (of_nat lsb) (of_nat width)) =
      take_bit width (drop_bit lsb ?v)"
    using assms(2,5) b(1)
    by (intro bit_word_eqI) (auto simp: ubfx_val_def n bit_take_bit_iff bit_and_iff bit_width_mask)
  have s: "take_bit (gp_bits w) (sbfx_val (gp_reg w d) ?v (of_nat lsb) (of_nat width)) =
      take_bit (gp_bits w) (signed_take_bit (width - 1) (drop_bit lsb ?v))"
    using sign_extend_field [OF assms(3) _ b(1), of "drop_bit lsb ?v"] assms(2,5)
    by (simp add: sbfx_val_def n Let_def)
  have lt: "lsb < 2 ^ 64" "width < 2 ^ 64" using b assms(4) by simp_all
  show ?thesis
    unfolding Let_def exec_logic.simps out.inject
    using exec4_gp [OF assms(1,2) lt, of D w x a ubfx_val, unfolded u]
      exec4_gp [OF assms(1,2) lt, of D w x a sbfx_val, unfolded s] by blast
qed

theorem bitfield_extract_witness:
  "\<exists>u s. exec_logic True (text_bad64 (\<lambda>w a. Inl [])) UBFX [O_Reg (RW 0) [], O_Imm64 (Unsigned 0x80f0) None, imm_op 4, imm_op 12] cpu_new = Val u \<and>
     exec_logic True (text_bad64 (\<lambda>w a. Inl [])) SBFX [O_Reg (RW 0) [], O_Imm64 (Unsigned 0x80f0) None, imm_op 4, imm_op 12] cpu_new = Val s \<and>
     get_x u 0 = 0x80f \<and> get_x s 0 = 0xfffff80f"
  using bitfield_extract [OF wf_cpu_new, where d = 0 and width = 12 and lsb = 4 and w = True and x = "[]"
      and a = "O_Imm64 (Unsigned 0x80f0) None" and oc = True and D = "text_bad64 (\<lambda>w a. Inl [])"]
  by (simp add: Let_def gp_bits_def gp_reg_def take_bit_eq_mask mask_eq_exp_minus_1 signed_take_bit_def drop_bit_eq_div)

lemma take_width_mask: "(v :: u64) AND width_mask 64 k = take_bit k v"
  by (rule bit_word_eqI) (auto simp: bit_and_iff bit_width_mask bit_take_bit_iff)

lemma exec_UBFIZ_imm:
  assumes "d < 31" and "bfiz_fields oc (gp_bits w) (of_nat l) (of_nat k) = Val (lsb, width)" and "lsb < 64"
  shows "exec_BFIZ oc D UBFIZ [O_Reg (gp_reg w d) x, a, imm_op l, imm_op k] c =
    Val (set_reg_val D (gp_reg w d) (push_bit lsb (take_bit width (get_operand_val D a c))) c)"
  using assms by (simp add: exec_BFIZ_def bfiz_val_def bfiz_negative_def Let_def take_width_mask ck_shl_def)

lemma bfiz_fields_imm:
  assumes "l < 64" and "k < 64"
  shows "bfiz_fields oc (gp_bits w) (of_nat l) (of_nat k) =
    Val (if l + k < gp_bits w then (l, k)
         else ((gp_bits w - l mod gp_bits w) mod gp_bits w, k mod gp_bits w + 1))"
proof -
  have s: "unat (of_nat l + of_nat k :: u64) = l + k"
    using assms by (simp add: unat_small flip: of_nat_add)
  have "ck_add oc (of_nat l) (of_nat k :: u64) = Val (of_nat l + of_nat k)"
    using assms by (simp add: ck_add_def unat_small)
  with s assms show ?thesis by (simp add: bfiz_fields_def Let_def unat_small)
qed

text \<open>UBFIZ with lsb and width below the register size puts the field in place; when the
  field ends at the top bit the two operands are taken for the encoded fields instead, and
  one more bit is inserted, at \<open>width\<close> instead of \<open>lsb\<close>.\<close>

theorem ubfiz_insert:
  assumes "wf_cpu c" and "d < 31" and "0 < lsb" and "0 < width" and "lsb + width \<le> gp_bits w"
  shows "\<exists>c'. exec_logic oc D UBFIZ [O_Reg (gp_reg w d) x, a, imm_op lsb, imm_op width] c = Val c' \<and>
    get_x c' d =
      (if lsb + width < gp_bits w
       then push_bit lsb (take_bit width (get_operand_val D a c))
       else take_bit (gp_bits w) (push_bit width (take_bit (width + 1) (get_operand_val D a c))))"
proof -
  have n: "gp_bits w \<le> 64" "lsb < 64" "width < 64" using assms(3-5) by (auto simp: gp_bits_def split: if_splits)
  show ?thesis
  proof (cases "lsb + width < gp_bits w")
    case True
    then have "take_bit (gp_bits w) (push_bit lsb (take_bit width v)) = push_bit lsb (take_bit width v)" for v :: u64
      by (intro bit_word_eqI) (auto simp: bit_take_bit_iff bit_push_bit_iff)
    with True n assms(1,2) show ?thesis
      by (simp add: exec_UBFIZ_imm bfiz_fields_imm get_x_set_gp)
  next
    case False
    with assms(3-5) have "(gp_bits w - lsb mod gp_bits w) mod gp_bits w = width"
      "width mod gp_bits w = width" by auto
    with False n assms(1,2) show ?thesis
      by (simp add: exec_UBFIZ_imm bfiz_fields_imm get_x_set_gp)
  qed
qed

theorem ubfiz_insert_witness:
  "\<exists>c'. exec_logic True (text_bad64 (\<lambda>w a. Inl [])) UBFIZ [O_Reg (RX 0) [], O_Imm64 (Unsigned 0x1ff) None, imm_op 60, imm_op 4] cpu_new = Val c' \<and>
     get_x c' 0 = 0x1f0"
  using ubfiz_insert [OF wf_cpu_new, where d = 0 and lsb = 60 and width = 4 and w = False and x = "[]"
      and a = "O_Imm64 (Unsigned 0x1ff) None" and oc = True and D = "text_bad64 (\<lambda>w a. Inl [])"]
  by (simp add: gp_bits_def gp_reg_def take_bit_eq_mask mask_eq_exp_minus_1 push_bit_eq_mult)

subsection \<open>Rotation, insertion, extraction from a pair\<close>

lemma bit_rotate:
  fixes v :: "'a::len word"
  assumes "n < LENGTH('a)" and "k < LENGTH('a)"
  shows "bit (drop_bit k v OR push_bit (LENGTH('a) - k) v) n \<longleftrightarrow>
    bit v (if n + k < LENGTH('a) then n + k else n + k - LENGTH('a))"
proof (cases "n + k < LENGTH('a)")
  case True
  then have "\<not> LENGTH('a) - k \<le> n" using assms(2) by linarith
  then show ?thesis using True assms(1) by (simp add: bit_or_iff bit_drop_bit_eq bit_push_bit_iff add.commute)
next
  case False
  then have le: "LENGTH('a) - k \<le> n" "n - (LENGTH('a) - k) = n + k - LENGTH('a)" using assms by linarith+
  have "\<not> bit v (n + k)" using False by (metis bit_imp_le_length)
  then show ?thesis using False assms le by (simp add: bit_or_iff bit_drop_bit_eq bit_push_bit_iff add.commute)
qed

lemma bit_rotate_right:
  fixes v :: "'a::len word"
  assumes "n < LENGTH('a)"
  shows "bit (rotate_right v k) n \<longleftrightarrow> bit v ((n + unat k) mod LENGTH('a))"
proof -
  have "(n + unat k) mod LENGTH('a) = (n + unat k mod LENGTH('a)) mod LENGTH('a)"
    by (simp add: mod_add_right_eq)
  also have "\<dots> = (if n + unat k mod LENGTH('a) < LENGTH('a) then n + unat k mod LENGTH('a)
      else n + unat k mod LENGTH('a) - LENGTH('a))"
  proof -
    have "unat k mod LENGTH('a) < LENGTH('a)" by simp
    with assms have "n + unat k mod LENGTH('a) - LENGTH('a) < LENGTH('a)" by linarith
    then show ?thesis by (simp add: le_mod_geq)
  qed
  finally show ?thesis
    using bit_rotate [OF assms, of "unat k mod LENGTH('a)" v] by (simp add: rotate_right_def Let_def)
qed

text \<open>BFI takes its operands \<open>lsb\<close> and \<open>width\<close> for the encoded rotation and top bit: it
  replaces the low \<open>width + 1\<close> bits of the destination by bits of the source from \<open>lsb\<close> on,
  where the instruction inserts the low \<open>width\<close> bits of the source at \<open>lsb\<close>.\<close>

theorem bfi_writes_low_bits:
  assumes "wf_cpu c" and "d < 31" and "lsb < 64" and "width < 63" and "n < 64"
  shows "\<exists>c'. exec_logic oc D BFI [O_Reg (RX d) x, a, imm_op lsb, imm_op width] c = Val c' \<and>
    bit (get_x c' d) n =
      (if n \<le> width then bit (get_operand_val D a c) ((n + lsb) mod 64) else bit (get_x c d) n)"
proof -
  have r: "gp_reg False d = RX d" by (simp add: gp_reg_def)
  have lt: "lsb < 2 ^ 64" "width < 2 ^ 64" using assms by simp_all
  have l: "unat (ucast ((of_nat lsb :: u64) AND 63) :: u32) = lsb"
    using assms(3) by (simp add: unsigned_ucast_eq unat_and_63 take_bit_nat_eq_self)
  have w: "unat ((of_nat width :: u64) AND 63) = width" using assms(4) by (simp add: unat_and_63)
  have m: "bit (bfm_mask (RX d) (of_nat width)) n \<longleftrightarrow> n \<le> width"
  proof -
    have "push_bit (width + 1) (1 :: u64) - 1 = mask (width + 1)"
      by (simp only: push_bit_of_1 mask_eq_exp_minus_1)
    then have "bfm_mask (RX d) (of_nat width) = mask (width + 1)"
      using assms(4) by (simp only: bfm_mask_def Let_def) (simp add: w)
    then show ?thesis using assms(5) by (auto simp: bit_mask_iff)
  qed
  have "get_x (exec_BFM D [O_Reg (RX d) x, a, imm_op lsb, imm_op width] c) d =
      bfm_val (get_x c d) (RX d) (get_operand_val D a c) (of_nat lsb) (of_nat width)"
    using exec4_gp [OF assms(1,2) lt, of D False x a] assms(2)
    by (simp add: exec_BFM_def r gp_bits_def)
  moreover have "bit (bfm_val (get_x c d) (RX d) (get_operand_val D a c) (of_nat lsb) (of_nat width)) n =
      (if n \<le> width then bit (get_operand_val D a c) ((n + lsb) mod 64) else bit (get_x c d) n)"
    using assms(5) by (simp add: bfm_val_def bit_or_iff bit_and_iff bit_not_iff m rotated_def bit_rotate_right l)
  ultimately show ?thesis by simp
qed

theorem bfi_writes_low_bits_witness:
  "\<exists>c'. exec_logic True (text_bad64 (\<lambda>w a. Inl [])) BFI [O_Reg (RX 0) [], O_Imm64 (Unsigned 0xff00) None, imm_op 8, imm_op 8] cpu_new = Val c' \<and>
     bit (get_x c' 0) 0 = True"
  using bfi_writes_low_bits [OF wf_cpu_new, where d = 0 and lsb = 8 and width = 8 and n = 0 and x = "[]"
      and a = "O_Imm64 (Unsigned 0xff00) None" and oc = True and D = "text_bad64 (\<lambda>w a. Inl [])"]
  by simp

lemma extr_val_X:
  assumes "lsb < 64" and "d < 31"
  shows "\<exists>r. extr_val oc (RX d) vn vm (of_nat lsb) = Val r \<and>
    (\<forall>n<64. bit r n = (if n + lsb < 64 then bit vm (n + lsb) else bit vn (n + lsb - 64)))"
proof -
  have l: "unat (of_nat lsb :: u32) = lsb" using assms(1) by (simp add: unsigned_of_nat take_bit_nat_eq_self)
  show ?thesis using assms(1)
    by (auto simp: extr_val_def l ck_shr_def bit_ucast_iff bit_drop_bit_eq bit_or_iff bit_push_bit_iff
        add.commute dest: bit_imp_le_length)
qed

text \<open>EXTR takes 64 bits of the pair of its two sources from \<open>lsb\<close> on; with one source
  twice it is ROR.\<close>

theorem extr_pair:
  assumes "wf_cpu c" and "d < 31" and "lsb < 64"
  shows "\<exists>c'. exec_logic oc D EXTR [O_Reg (RX d) x, a, b, imm_op lsb] c = Val c' \<and>
    (\<forall>n\<in>{..<64}. bit (get_x c' d) n =
      (if n + lsb < 64 then bit (get_operand_val D b c) (n + lsb)
       else bit (get_operand_val D a c) (n + lsb - 64))) \<and>
    (a \<noteq> b \<or> exec_logic oc D ROR [O_Reg (RX d) x, a, imm_op lsb] c = Val c')"
proof -
  let ?vn = "get_operand_val D a c" and ?vm = "get_operand_val D b c"
  obtain r where r: "extr_val oc (RX d) ?vn ?vm (of_nat lsb) = Val r"
    and bits: "\<And>n. n < 64 \<Longrightarrow> bit r n = (if n + lsb < 64 then bit ?vm (n + lsb) else bit ?vn (n + lsb - 64))"
    using extr_val_X [OF assms(3,2), of oc ?vn ?vm] by blast
  have l: "unat (shift_amount (RX d) (of_nat lsb)) = lsb"
  proof -
    have "(of_nat lsb :: u32) AND 63 = take_bit 6 (of_nat lsb)"
      by (simp add: take_bit_eq_mask mask_eq_exp_minus_1)
    then show ?thesis
      using assms(2,3) by (simp add: shift_amount_def unsigned_take_bit_eq unsigned_of_nat take_bit_take_bit take_bit_nat_eq_self)
  qed
  have "r = rotate_right ?vn (shift_amount (RX d) (of_nat lsb))" if "a = b"
    using that assms(3) by (intro bit_word_eqI) (auto simp: bits bit_rotate_right l mod_if)
  moreover have "(ucast (of_nat lsb :: u64) :: u32) = of_nat lsb"
    using assms(3) by (simp add: unsigned_of_nat take_bit_nat_eq_self)
  ultimately show ?thesis
    using assms r bits
    by (auto simp: exec_EXTR_def exec_ROR_def exec3_def sized_shift_def get_x_set_same)
qed

theorem extr_pair_witness:
  "\<exists>c'. exec_logic True (text_bad64 (\<lambda>w a. Inl [])) EXTR [O_Reg (RX 0) [], O_Imm64 (Unsigned 0xf1) None, O_Imm64 (Unsigned 0xf1) None, imm_op 4] cpu_new = Val c' \<and>
     exec_logic True (text_bad64 (\<lambda>w a. Inl [])) ROR [O_Reg (RX 0) [], O_Imm64 (Unsigned 0xf1) None, imm_op 4] cpu_new = Val c' \<and>
     bit (get_x c' 0) 60"
  using extr_pair [OF wf_cpu_new, where d = 0 and lsb = 4 and x = "[]" and oc = True
      and a = "O_Imm64 (Unsigned 0xf1) None" and b = "O_Imm64 (Unsigned 0xf1) None" and D = "text_bad64 (\<lambda>w a. Inl [])"]
  by auto

subsection \<open>Shifts\<close>

lemma unat_shift_amount:
  assumes "d < 31"
  shows "unat (shift_amount (gp_reg w d) v) = unat v mod gp_bits w"
proof -
  have m: "(63 :: u32) = mask 6" "(31 :: u32) = mask 5" by (simp_all add: mask_eq_exp_minus_1)
  have t: "unat (take_bit k (ucast v :: u32)) = take_bit k (unat v)" if "k \<le> 32" for k
    using that by (simp add: unsigned_take_bit_eq unsigned_ucast_eq take_bit_take_bit)
  have n: "take_bit 6 n = n mod 64" "take_bit 5 n = n mod 32" for n :: nat
    by (simp_all add: take_bit_eq_mod)
  have "shift_amount (gp_reg w d) v = take_bit (if w then 5 else 6) (ucast v)"
    using assms by (simp add: shift_amount_def m take_bit_eq_mask)
  then show ?thesis by (simp add: t n gp_bits_def)
qed

text \<open>LSL, LSR and ASR on X registers multiply by and divide by a power of two: unsigned
  with truncation to 64 bits for LSL, unsigned for LSR, signed and rounding down for ASR.
  The amount is taken modulo 64.\<close>

theorem shift_values:
  assumes "wf_cpu c" and "d < 31"
  shows "let ops = [O_Reg (RX d) x, a, b]; v = get_operand_val D a c;
      k = unat (get_operand_val D b c) mod 64
    in \<exists>l r s. exec_logic oc D LSL ops c = Val l \<and> exec_logic oc D LSR ops c = Val r \<and>
      exec_logic oc D ASR ops c = Val s \<and>
      unat (get_x l d) = unat v * 2 ^ k mod 2 ^ 64 \<and> unat (get_x r d) = unat v div 2 ^ k \<and>
      sint (get_x s d) = sint v div 2 ^ k"
proof -
  let ?v = "get_operand_val D a c" and ?k = "unat (get_operand_val D b c) mod 64"
  have k: "unat (shift_amount (RX d) (get_operand_val D b c)) = ?k"
    using unat_shift_amount [OF assms(2), of False] by (simp add: gp_reg_def gp_bits_def)
  have "unat (push_bit ?k ?v) = unat ?v * 2 ^ ?k mod 2 ^ 64"
    by (simp only: unsigned_push_bit_eq) (simp add: push_bit_eq_mult take_bit_eq_mod)
  moreover have "unat ?v mod 18446744073709551616 = unat ?v" using unsigned_less [of ?v] by (intro mod_less) simp
  then have "unat (drop_bit ?k ?v) = unat ?v div 2 ^ ?k"
    by (simp only: unsigned_drop_bit_eq) (simp add: drop_bit_eq_div take_bit_eq_mod)
  moreover have "sint (signed_drop_bit ?k ?v) = sint ?v div 2 ^ ?k"
    by (simp add: sint_signed_drop_bit_eq drop_bit_eq_div)
  ultimately show ?thesis using assms
    by (simp add: Let_def exec_LSL_def exec_LSR_def exec_ASR_def exec3_def sized_shift_def
        wrapping_shl_def wrapping_shr_def wrapping_sar_def k get_x_set_same)
qed

theorem shift_values_witness:
  "\<exists>s. exec_logic True (text_bad64 (\<lambda>w a. Inl [])) ASR [O_Reg (RX 0) [], O_Imm64 (Signed (- 7)) None, imm_op 65] cpu_new = Val s \<and>
     sint (get_x s 0) = - 4"
  using shift_values [OF wf_cpu_new, where d = 0 and x = "[]" and oc = True
      and a = "O_Imm64 (Signed (- 7)) None" and b = "imm_op 65" and D = "text_bad64 (\<lambda>w a. Inl [])"]
  by (auto simp: Let_def)

subsection \<open>Conditions by name, and CCMP\<close>

fun cond_name :: "branch_op \<Rightarrow> string" where
  "cond_name B_EQ = ''EQ''" | "cond_name B_NE = ''NE''" | "cond_name B_CS = ''CS''"
| "cond_name B_CC = ''CC''" | "cond_name B_MI = ''MI''" | "cond_name B_PL = ''PL''"
| "cond_name B_VS = ''VS''" | "cond_name B_VC = ''VC''" | "cond_name B_HI = ''HI''"
| "cond_name B_LS = ''LS''" | "cond_name B_GE = ''GE''" | "cond_name B_LT = ''LT''"
| "cond_name B_GT = ''GT''" | "cond_name B_LE = ''LE''" | "cond_name _ = []"

text \<open>The condition a name stands for is the one the branch of that name tests.\<close>

lemma eval_cond_named:
  assumes "fmt_cond D k = cond_name opc" and "cond_name opc \<noteq> []"
  shows "eval_cond D k c = cond_holds opc c"
  using assms by (cases opc) (simp_all add: eval_cond_def to_uppercase_def Let_def)

definition cmp_holds :: "'x bad64 \<Rightarrow> branch_op \<Rightarrow> 'x operand \<Rightarrow> 'x operand \<Rightarrow> cpu_context \<Rightarrow> bool" where
  "cmp_holds D opc a b c \<longleftrightarrow>
     (if op_is_w a then cmp_spec opc (ucast (get_operand_val D a c) :: u32) (ucast (get_operand_val D b c))
      else cmp_spec opc (get_operand_val D a c) (get_operand_val D b c))"

lemma cond_holds_sized: "cond_holds opc (sub_flags_sized (op_is_w a) (get_operand_val D a c) (get_operand_val D b c) c')
  = cmp_holds D opc a b c"
  by (simp add: sub_flags_sized_def cmp_holds_def cond_holds_sub_flags)

text \<open>C33: a comparison, a conditional comparison under the first relation with flags that
  refute the second, and a branch on the second relation: the branch is taken exactly when
  both relations hold.\<close>

theorem ccmp_conjunction:
  assumes "fmt_cond D k = cond_name r1" and "cond_name r1 \<noteq> []"
    and "\<not> cond_holds r2 (set_nzcv (nzcv AND 8 \<noteq> 0) (nzcv AND 4 \<noteq> 0) (nzcv AND 2 \<noteq> 0)
      ((nzcv :: u8) AND 1 \<noteq> 0) (exec_SUB D CMP [a, b] c))"
  shows "exec_B_cond D r2 [O_Label target] next_pc
      (exec_CCMP D CCMP [p, q, O_Imm32 (Unsigned (ucast nzcv)) None, O_Cond k] (exec_SUB D CMP [a, b] c)) =
    (if cmp_holds D r1 a b c \<and> cmp_holds D r2 p q (exec_SUB D CMP [a, b] c)
     then imm_to_u64 target else next_pc)"
proof -
  let ?c1 = "exec_SUB D CMP [a, b] c"
  have e: "eval_cond D k ?c1 = cmp_holds D r1 a b c"
    by (simp add: eval_cond_named [OF assms(1,2)] exec_CMP_flags cond_holds_sized)
  have up: "(ucast (ucast nzcv :: u64) :: u8) = nzcv"
    by (rule bit_word_eqI) (simp add: bit_ucast_iff)
  show ?thesis
  proof (cases "cmp_holds D r1 a b c")
    case True
    then have "exec_CCMP D CCMP [p, q, O_Imm32 (Unsigned (ucast nzcv)) None, O_Cond k] ?c1 =
        sub_flags_sized (op_is_w p) (get_operand_val D p ?c1) (get_operand_val D q ?c1) ?c1"
      by (simp add: exec_CCMP_def e)
    with True show ?thesis by (simp add: exec_B_cond_def cond_holds_sized)
  next
    case False
    then have "exec_CCMP D CCMP [p, q, O_Imm32 (Unsigned (ucast nzcv)) None, O_Cond k] ?c1 =
        set_nzcv (nzcv AND 8 \<noteq> 0) (nzcv AND 4 \<noteq> 0) (nzcv AND 2 \<noteq> 0) (nzcv AND 1 \<noteq> 0) ?c1"
      using up by (simp add: exec_CCMP_def e Let_def)
    with False assms(3) show ?thesis by (simp add: exec_B_cond_def)
  qed
qed

theorem ccmp_conjunction_witness:
  "exec_B_cond (text_bad64 (\<lambda>w a. Inl [])) B_EQ [O_Label (Unsigned 0x400)] 0x104
     (exec_CCMP (text_bad64 (\<lambda>w a. Inl [])) CCMP [O_Imm64 (Unsigned 1) None, O_Imm64 (Unsigned 1) None, O_Imm32 (Unsigned (ucast (0 :: u8))) None, O_Cond ''EQ'']
       (exec_SUB (text_bad64 (\<lambda>w a. Inl [])) CMP [O_Imm64 (Unsigned 5) None, O_Imm64 (Unsigned 5) None] cpu_new)) = 0x400"
  using ccmp_conjunction [where D = "text_bad64 (\<lambda>w a. Inl [])" and k = "''EQ''" and ?r1.0 = B_EQ and ?r2.0 = B_EQ
      and nzcv = 0 and a = "O_Imm64 (Unsigned 5) None" and b = "O_Imm64 (Unsigned 5) None" and c = cpu_new
      and p = "O_Imm64 (Unsigned 1) None" and q = "O_Imm64 (Unsigned 1) None" and target = "Unsigned 0x400"
      and next_pc = "0x104"]
  by (simp add: text_bad64_def cmp_holds_def op_is_w_def)

end
