(* ===== verification/Vector_Correct.thy ===== *)
theory Vector_Correct
  imports Interp_Vector_Lanes Operand_Props
begin

text \<open>
  What the vector handlers do lane by lane: sums, differences, comparison masks with bit
  selection, and pairwise sums.
\<close>

unbundle bit_operations_syntax

text \<open>Three vector registers as operands.\<close>

abbreviation vops :: "nat \<Rightarrow> 'x \<Rightarrow> nat \<Rightarrow> 'x \<Rightarrow> nat \<Rightarrow> 'x \<Rightarrow> 'x operand list" where
  "vops d x n y m z \<equiv> [O_Reg (RV d) x, O_Reg (RV n) y, O_Reg (RV m) z]"

lemma vec_operand_RV [simp]: "n < 32 \<Longrightarrow> vec_operand c (O_Reg (RV n) x) = ctx_v c ! n"
  by (simp add: vec_operand_def vec_idx_def)

lemma vec_idx_RV [simp]: "n < 32 \<Longrightarrow> vec_idx (O_Reg (RV n) x) = Some n"
  by (simp add: vec_idx_def)

lemma v_same: "wf_cpu c \<Longrightarrow> d < 32 \<Longrightarrow> ctx_v (set_v_bytes d b c) ! d = b"
  by (simp add: v_set_v_bytes)

text \<open>C34: ADD on vector registers adds lane by lane, at the element size the arrangement of
  the destination names, over all 16 bytes.\<close>

theorem vector_add_lanes:
  assumes "wf_cpu c" and "d < 32" and "n < 32" and "m < 32"
  shows "let r = ctx_v (exec_ADD D ADD (vops d x n y m z) c) ! d; vn = ctx_v c ! n; vm = ctx_v c ! m;
      sz = get_vec_elem_size D (O_Reg (RV d) x)
    in if sz = 1 then \<forall>i\<in>{..<16}. (lane r i :: u8) = lane vn i + lane vm i
       else if sz = 2 then \<forall>i\<in>{..<8}. (lane r i :: u16) = lane vn i + lane vm i
       else if sz = 4 then \<forall>i\<in>{..<4}. (lane r i :: u32) = lane vn i + lane vm i
       else \<forall>i\<in>{..<2}. (lane r i :: u64) = lane vn i + lane vm i"
  using assms get_vec_elem_size_cases [of D "O_Reg (RV d) x"]
  by (auto simp: exec_ADD_def Let_def v_same vec_add_def by_elem_def lane_build_vec)

theorem vector_add_lanes_witness:
  "(lane (ctx_v (exec_ADD (text_bad64 (\<lambda>w a. Inl [])) ADD (vops 0 ''V0.2D'' 1 [] 2 [])
     (set_v_bytes 1 (replicate 16 5) cpu_new)) ! 0) 1 :: u64) =
   lane (replicate 16 5) 1 + lane (replicate 16 0) 1"
proof -
  let ?c = "set_v_bytes 1 (replicate 16 5) cpu_new"
  have sz: "get_vec_elem_size (text_bad64 (\<lambda>w a. Inl [])) (O_Reg (RV 0) ''V0.2D'') = 8"
    by (simp add: get_vec_elem_size_def text_bad64_def contains_def starts_with_def)
  have wf: "wf_cpu ?c" by (simp add: wf_cpu_new)
  have v: "ctx_v ?c ! 1 = replicate 16 5" "ctx_v ?c ! 2 = replicate 16 0"
    by (simp_all add: v_set_v_bytes wf_cpu_new, simp add: cpu_new_def)
  from vector_add_lanes [OF wf, of 0 1 2 "text_bad64 (\<lambda>w a. Inl [])" "''V0.2D''" "[]" "[]"]
  show ?thesis unfolding sz Let_def v
    by (auto dest: bspec [of _ _ 1])
qed

text \<open>SUB on vector registers is one 64-bit subtraction of the low halves whatever the
  arrangement, and clears the high half.\<close>

theorem vector_sub_low_half:
  assumes "wf_cpu c" and "d < 32" and "n < 32" and "m < 32" and "fmt_reg_std D"
  shows "ctx_v (exec_SUB D SUB (vops d x n y m z) c) ! d =
    to_le_bytes (from_le_bytes (take 8 (ctx_v c ! n)) - from_le_bytes (take 8 (ctx_v c ! m)) :: u64) @ replicate 8 0"
proof -
  have l: "length (ctx_v c ! n) = 16" "length (ctx_v c ! m) = 16" using assms by (simp_all add: wf_cpu_v)
  have g: "get_reg_val D (RV k) c = from_le_bytes (take 8 (ctx_v c ! k))" if "k < 32" "length (ctx_v c ! k) = 16" for k
    using that by (simp add: get_reg_val_def Let_def reg_size_std [OF assms(5)] copy_at_def)
  show ?thesis
    using assms l by (simp add: exec_SUB_def Let_def g set_reg_val_def reg_size_std v_same copy_at_def)
qed

theorem vector_sub_low_half_witness:
  "ctx_v (exec_SUB (text_bad64 (\<lambda>w a. Inl [])) SUB (vops 0 [] 1 [] 2 [])
     (set_v_bytes 1 (replicate 16 5) cpu_new)) ! 0 =
   to_le_bytes (from_le_bytes (replicate 8 5) - 0 :: u64) @ replicate 8 0"
proof -
  let ?c = "set_v_bytes 1 (replicate 16 5) cpu_new"
  have wf: "wf_cpu ?c" by (simp add: wf_cpu_new)
  have v: "ctx_v ?c ! 1 = replicate 16 5" "ctx_v ?c ! 2 = replicate 16 0"
    by (simp_all add: v_set_v_bytes wf_cpu_new, simp add: cpu_new_def)
  have z: "(from_le_bytes (replicate 8 0) :: u64) = 0" by (simp add: numeral_nat)
  from vector_sub_low_half [OF wf _ _ _ text_bad64_std, of 0 1 2 "\<lambda>w a. Inl []" "[]" "[]" "[]"]
  show ?thesis unfolding v by (simp only: take_replicate) (simp add: z)
qed

subsection \<open>Compare and select\<close>

lemma exec_CMxx_vec:
  assumes "d < 32" and "n < 32" and "m < 32"
  shows "exec_CMxx D opc (vops d x n y m z) c =
    (let sz = get_vec_elem_size D (O_Reg (RV d) x)
     in set_v_bytes d (map (\<lambda>j. if cmp_cond opc sz (lane_u64 sz (ctx_v c ! n) (j div sz))
          (lane_u64 sz (ctx_v c ! m) (j div sz)) then 0xff else 0) [0..<16]) c)"
  using assms by (simp add: exec_CMxx_def Let_def vec_opt_def)

lemma exec_BSL_vec:
  assumes "d < 32" and "n < 32" and "m < 32"
  shows "exec_BIT D BSL (vops d x n y m z) c =
    set_v_bytes d (map (\<lambda>i. bit_select BSL (ctx_v c ! d ! i) (ctx_v c ! n ! i) (ctx_v c ! m ! i)) [0..<16]) c"
  using assms by (simp add: exec_BIT_def Let_def put_result_def)

lemma bit_select_mask: "bit_select BSL (if b then 0xff else 0) n m = (if b then n else m)"
proof -
  have f: "(0xff :: u8) = mask 8" by (simp add: mask_eq_exp_minus_1)
  have "(n AND mask 8) OR (m AND NOT (mask 8)) = n"
    by (rule bit_word_eqI) (simp add: bit_or_iff bit_and_iff bit_not_iff bit_mask_iff)
  then show ?thesis unfolding f by simp
qed

text \<open>C35: a lane-wise comparison into a third register followed by BSL on it selects whole
  lanes: each byte comes from the first source where the relation holds for its lane and
  from the second elsewhere, for every relation and element size.\<close>

theorem compare_select:
  assumes "wf_cpu c" and "d < 32" and "n < 32" and "m < 32" and "d \<noteq> n" and "d \<noteq> m" and "j < 16"
  shows "let sz = get_vec_elem_size D (O_Reg (RV d) x); vn = ctx_v c ! n; vm = ctx_v c ! m;
      r = ctx_v (exec_BIT D BSL (vops d x' n y' m z') (exec_CMxx D opc (vops d x n y m z) c)) ! d
    in r ! j = (if cmp_cond opc sz (lane_u64 sz vn (j div sz)) (lane_u64 sz vm (j div sz))
                then vn ! j else vm ! j)"
proof -
  let ?c1 = "exec_CMxx D opc (vops d x n y m z) c"
  have v: "ctx_v ?c1 ! n = ctx_v c ! n" "ctx_v ?c1 ! m = ctx_v c ! m" and w: "wf_cpu ?c1"
    using assms by (simp_all add: exec_CMxx_vec Let_def v_set_v_bytes)
  have "ctx_v (exec_BIT D BSL (vops d x' n y' m z') ?c1) ! d ! j =
      bit_select BSL (ctx_v ?c1 ! d ! j) (ctx_v c ! n ! j) (ctx_v c ! m ! j)"
    using assms w by (simp add: exec_BSL_vec v_set_v_bytes v del: bit_select.simps)
  also have "ctx_v ?c1 ! d ! j =
      (let sz = get_vec_elem_size D (O_Reg (RV d) x)
       in if cmp_cond opc sz (lane_u64 sz (ctx_v c ! n) (j div sz)) (lane_u64 sz (ctx_v c ! m) (j div sz))
          then 0xff else 0)"
    using assms by (simp add: exec_CMxx_vec Let_def v_set_v_bytes)
  finally show ?thesis by (simp add: Let_def bit_select_mask del: bit_select.simps)
qed

theorem compare_select_witness:
  "ctx_v (exec_BIT (text_bad64 (\<lambda>w a. Inl [])) BSL (vops 0 [] 1 [] 2 [])
     (exec_CMxx (text_bad64 (\<lambda>w a. Inl [])) CMHI (vops 0 [] 1 [] 2 [])
       (set_v_bytes 1 (replicate 16 5) cpu_new))) ! 0 ! 3 = 5"
proof -
  let ?c = "set_v_bytes 1 (replicate 16 5) cpu_new"
  have wf: "wf_cpu ?c" by (simp add: wf_cpu_new)
  have v: "ctx_v ?c ! 1 = replicate 16 5" "ctx_v ?c ! 2 = replicate 16 0"
    by (simp_all add: v_set_v_bytes wf_cpu_new, simp add: cpu_new_def)
  have sz: "get_vec_elem_size (text_bad64 (\<lambda>w a. Inl [])) (O_Reg (RV 0) []) = 1"
    by (simp add: get_vec_elem_size_def text_bad64_def starts_with_def)
  have l: "lane_u64 1 (replicate 16 b) 3 = ucast b" for b
  proof -
    have "slice_at 3 1 (replicate 16 b) = [b]" by (simp add: slice_at_def)
    then show ?thesis by (simp add: lane_u64_def by_elem_def lane_def)
  qed
  from compare_select [OF wf, where d = 0 and n = 1 and m = 2 and j = 3 and opc = CMHI and x = "[]" and y = "[]"
      and z = "[]" and x' = "[]" and y' = "[]" and z' = "[]" and D = "text_bad64 (\<lambda>w a. Inl [])"]
  show ?thesis unfolding sz Let_def v by (simp add: l [unfolded One_nat_def])
qed

subsection \<open>Pairwise sums\<close>

text \<open>ADDP on four 32-bit lanes gives both pair sums of its first source but only the
  first pair sum of the second one; the top lane is zero.\<close>

theorem addp_drops_last_pair:
  assumes "wf_cpu c" and "d < 32" and "n < 32" and "m < 32"
    and "get_vec_elem_size D (O_Reg (RV d) x) = 4" and "\<not> is_64bit_vector D (O_Reg (RV d) x)"
  shows "let r = ctx_v (exec_ADDP D (vops d x n y m z) c) ! d; vn = ctx_v c ! n; vm = ctx_v c ! m
    in r = to_le_bytes ((lane vn 0 :: u32) + lane vn 1) @ to_le_bytes ((lane vn 2 :: u32) + lane vn 3) @
      to_le_bytes ((lane vm 0 :: u32) + lane vm 1) @ replicate 4 0"
proof -
  have "[0..<2] = [0, 1 :: nat]" by (simp add: upt_rec)
  then have p: "pairwise ((+) :: u32 \<Rightarrow> _) 2 v = to_le_bytes ((lane v 0 :: u32) + lane v 1) @ to_le_bytes ((lane v 2 :: u32) + lane v 3)"
    "pairwise ((+) :: u32 \<Rightarrow> _) (Suc 0) v = to_le_bytes ((lane v 0 :: u32) + lane v 1)" for v
    by (simp_all add: pairwise_def)
  have "addp_result 4 False vn vm = to_le_bytes ((lane vn 0 :: u32) + lane vn 1) @
      to_le_bytes ((lane vn 2 :: u32) + lane vn 3) @ to_le_bytes ((lane vm 0 :: u32) + lane vm 1) @ replicate 4 0" for vn vm
    by (simp add: addp_result_def by_elem_def p zero16_def copy_at_def)
  then show ?thesis
    using assms by (simp add: exec_ADDP_def Let_def put_result_def v_same vec_or_def)
qed

theorem addp_drops_last_pair_witness:
  "drop 12 (ctx_v (exec_ADDP (text_bad64 (\<lambda>w a. Inl [])) (vops 0 ''V0.4S'' 1 [] 1 [])
     (set_v_bytes 1 (replicate 16 5) cpu_new)) ! 0) = replicate 4 0"
proof -
  let ?D = "text_bad64 (\<lambda>w a. Inl [])"
  have wf: "wf_cpu (set_v_bytes 1 (replicate 16 5) cpu_new)" by (simp add: wf_cpu_new)
  have "get_vec_elem_size ?D (O_Reg (RV 0) ''V0.4S'') = 4" "\<not> is_64bit_vector ?D (O_Reg (RV 0) ''V0.4S'')"
    by (simp_all add: get_vec_elem_size_def is_64bit_vector_def text_bad64_def starts_with_def)
  from addp_drops_last_pair [OF wf _ _ _ this, of 1 1 "[]" "[]"] show ?thesis by (simp add: Let_def)
qed

end
