(* ===== verification/Loop_Correct.thy ===== *)
theory Loop_Correct
  imports Interp_Correct Arith_Correct
begin

text \<open>
  A loop of guest code run to its end: counting a register down to zero takes exactly two
  steps per round, whatever the register holds at the start.
\<close>

unbundle bit_operations_syntax

subsection \<open>Code in memory\<close>

text \<open>The word at an address decodes to \<open>inst\<close>, whatever the registers hold.\<close>

definition code_at :: "('h, 'x) env \<Rightarrow> 'h sys \<Rightarrow> u64 \<Rightarrow> 'x instruction \<Rightarrow> bool" where
  "code_at E mm pc inst \<longleftrightarrow>
     (\<exists>bs. mem_read (env_oc E) mm pc 4 = Val bs \<and> \<not> is_dc_zva (from_le_bytes bs) \<and>
       decode (env_dis E) (from_le_bytes bs) pc = Inr inst)"

lemma code_at_insn:
  "code_at E (mem m) pc inst \<Longrightarrow> ctx_pc (ctx m) = pc \<Longrightarrow> \<not> ctx_exited (ctx m) \<Longrightarrow> at_insn E m inst"
  by (auto simp: code_at_def at_insn_def)

subsection \<open>Counting down\<close>

definition sub_one :: "nat \<Rightarrow> 'x \<Rightarrow> 'x \<Rightarrow> 'x instruction" where
  "sub_one i x1 x2 = \<lparr>inst_op = Op_arith SUB,
     inst_operands = [O_Reg (RX i) x1, O_Reg (RX i) x2, O_Imm64 (Unsigned 1) None]\<rparr>"

definition cbnz_to :: "nat \<Rightarrow> 'x \<Rightarrow> u64 \<Rightarrow> 'x instruction" where
  "cbnz_to i x1 pc = \<lparr>inst_op = Op_branch CBNZ,
     inst_operands = [O_Reg (RX i) x1, O_Label (Unsigned pc)]\<rparr>"

lemma step_sub_one:
  assumes "at_insn E m (sub_one i x1 x2)" and "no_wrap (ctx_pc (ctx m))" and "i < 31"
  shows "step E m = (Val True,
    m\<lparr>ctx := (set_x i (get_x (ctx m) i - 1) (ctx m))\<lparr>ctx_pc := ctx_pc (ctx m) + 4\<rparr>\<rparr>)"
  unfolding step_at_insn [OF assms(1,2)] using assms(3)
  by (simp add: sub_one_def bind_def execute.simps on_regs_def on_ctx_out_def exec_SUB_def
      set_pc_def on_ctx_def Let_def)

lemma step_cbnz_to:
  assumes "at_insn E m (cbnz_to i x1 pc)" and "no_wrap (ctx_pc (ctx m))" and "i < 31"
  shows "step E m = (Val True,
    m\<lparr>ctx := (ctx m)\<lparr>ctx_pc := if get_x (ctx m) i = 0 then ctx_pc (ctx m) + 4 else pc\<rparr>\<rparr>)"
  unfolding step_at_insn [OF assms(1,2)] using assms(3)
  by (simp add: cbnz_to_def bind_def execute.simps exec_CBZ_def set_pc_def on_ctx_def Let_def)

text \<open>One round, from the SUB to the SUB again or past the CBNZ.\<close>

definition rounds :: "u64 \<Rightarrow> nat" where
  "rounds x = (if x = 0 then 2 ^ 64 else unat x)"

lemma rounds_pred: "x - 1 \<noteq> 0 \<Longrightarrow> rounds x = Suc (rounds (x - 1))"
proof (cases "x = 0")
  case True
  then show ?thesis by (simp add: rounds_def unsigned_minus_1_eq_mask mask_eq_exp_minus_1)
next
  case False
  assume "x - 1 \<noteq> 0"
  moreover have "0 < unat x" using False by (simp add: unat_gt_0)
  moreover have "unat (x - 1) = unat x - 1" using False by (rule unat_minus_one)
  ultimately show ?thesis using False by (simp add: rounds_def)
qed

lemma rounds_last: "x - 1 = 0 \<Longrightarrow> rounds x = 1"
  by (simp add: rounds_def)

lemma countdown_round:
  assumes "code_at E (mem m) pc (sub_one i x1 x2)" and "code_at E (mem m) (pc + 4) (cbnz_to i x3 pc)"
    and "unat pc + 8 < 2 ^ 64" and "i < 31" and "wf_cpu (ctx m)" and "\<not> ctx_exited (ctx m)"
    and "ctx_pc (ctx m) = pc"
  shows "max_steps (step E) 2 m = (Val False,
    m\<lparr>ctx := (set_x i (get_x (ctx m) i - 1) (ctx m))\<lparr>ctx_pc :=
        if get_x (ctx m) i - 1 = 0 then pc + 8 else pc\<rparr>\<rparr>)"
proof -
  let ?m1 = "m\<lparr>ctx := (set_x i (get_x (ctx m) i - 1) (ctx m))\<lparr>ctx_pc := pc + 4\<rparr>\<rparr>"
  have w: "no_wrap pc" "no_wrap (pc + 4)"
    using assms(3) by (simp_all add: no_wrap_def unat_add_of_nat [of pc 4, simplified])
  have s1: "step E m = (Val True, ?m1)"
    using step_sub_one [OF code_at_insn [OF assms(1,7,6)]] w assms(4,7) by simp
  have "at_insn E ?m1 (cbnz_to i x3 pc)"
    by (rule code_at_insn) (use assms(2,6) in \<open>simp_all add: set_x_fields\<close>)
  from step_cbnz_to [OF this _ assms(4)] have "step E ?m1 =
      (Val True, ?m1\<lparr>ctx := (ctx ?m1)\<lparr>ctx_pc := if get_x (ctx m) i - 1 = 0 then pc + 8 else pc\<rparr>\<rparr>)"
    using w assms(4,5) by (simp add: get_set_x)
  with s1 show ?thesis by (simp add: numeral_2_eq_2)
qed

lemma countdown:
  assumes "code_at E (mem m) pc (sub_one i x1 x2)" and "code_at E (mem m) (pc + 4) (cbnz_to i x3 pc)"
    and "unat pc + 8 < 2 ^ 64" and "i < 31" and "wf_cpu (ctx m)" and "\<not> ctx_exited (ctx m)"
    and "ctx_pc (ctx m) = pc" and "rounds (get_x (ctx m) i) = Suc n"
  shows "max_steps (step E) (2 * Suc n) m =
    (Val False, m\<lparr>ctx := (set_x i 0 (ctx m))\<lparr>ctx_pc := pc + 8\<rparr>\<rparr>)"
  using assms
proof (induction n arbitrary: m)
  case 0
  have "unat (get_x (ctx m) i) = unat (1 :: u64)" using 0(8) by (auto simp: rounds_def split: if_splits)
  then have "get_x (ctx m) i = 1" by (rule word_unat_eq_iff [THEN iffD2])
  then have "get_x (ctx m) i - 1 = 0" by simp
  with countdown_round [OF 0(1-7)] show ?case by simp
next
  case (Suc n)
  let ?x = "get_x (ctx m) i"
  let ?m1 = "m\<lparr>ctx := (set_x i (?x - 1) (ctx m))\<lparr>ctx_pc := pc\<rparr>\<rparr>"
  have nz: "?x - 1 \<noteq> 0" using rounds_last [of ?x] Suc.prems(8) by auto
  have r: "rounds (?x - 1) = Suc n" using rounds_pred [OF nz] Suc.prems(8) by simp
  have s: "max_steps (step E) 2 m = (Val False, ?m1)"
    using countdown_round [OF Suc.prems(1-7)] nz by simp
  have wf: "wf_cpu (ctx ?m1)" using Suc.prems(5) by simp
  have "max_steps (step E) (2 * Suc n) ?m1 =
      (Val False, ?m1\<lparr>ctx := (set_x i 0 (ctx ?m1))\<lparr>ctx_pc := pc + 8\<rparr>\<rparr>)"
    by (rule Suc.IH) (use Suc.prems r wf in \<open>simp_all add: set_x_fields get_set_x\<close>)
  moreover have "set_x i 0 (ctx ?m1) = (set_x i 0 (ctx m))\<lparr>ctx_pc := pc\<rparr>"
    by (simp add: set_x_def)
  ultimately show ?case
    using max_steps_split [of "step E" 2 "2 * Suc n" m] s by simp
qed

text \<open>C19: a loop that counts a register down with SUB and CBNZ ends after exactly two steps per
  round, for every start value (zero counts through all the 64-bit values): the register is
  zero then, the pc is past the loop, and nothing else has changed.\<close>

theorem countdown_loop_ends:
  assumes "code_at E (mem m) pc (sub_one i x1 x2)" and "code_at E (mem m) (pc + 4) (cbnz_to i x3 pc)"
    and "unat pc + 8 < 2 ^ 64" and "i < 31" and "wf_cpu (ctx m)" and "\<not> ctx_exited (ctx m)"
    and "ctx_pc (ctx m) = pc"
  shows "run_max_steps E (2 * (if get_x (ctx m) i = 0 then 2 ^ 64 else unat (get_x (ctx m) i))) m =
    (Val False, m\<lparr>ctx := (set_x i 0 (ctx m))\<lparr>ctx_pc := pc + 8\<rparr>\<rparr>)"
proof -
  have "0 < rounds (get_x (ctx m) i)" by (simp add: rounds_def unat_gt_0)
  then obtain n where "rounds (get_x (ctx m) i) = Suc n" using gr0_implies_Suc by blast
  from countdown [OF assms this] this show ?thesis
    by (simp only: run_max_steps_def rounds_def)
qed

theorem countdown_loop_ends_witness:
  "run_max_steps (demo_env (sub_one 0 [] []) (cbnz_to 0 [] 0x1000)) 14 demo_exit =
     (Val False, demo_exit\<lparr>ctx := (set_x 0 0 (ctx demo_exit))\<lparr>ctx_pc := 0x1008\<rparr>\<rparr>)"
proof -
  let ?E = "demo_env (sub_one 0 [] []) (cbnz_to 0 [] 0x1000)"
  have wf: "wf_cpu (ctx demo_exit)" using demo_wf_at(1) [of "0x1000"] by (simp add: demo_exit_def)
  have c: "code_at ?E (mem demo_exit) 0x1000 (sub_one 0 [] [])"
    "code_at ?E (mem demo_exit) (0x1000 + 4) (cbnz_to 0 [] 0x1000)"
    using demo_fetch [of "0x1000" True] demo_fetch [of "0x1004" True]
    by (simp_all add: code_at_def demo_exit_simps is_dc_zva_def from_le_bytes_def)
  from countdown_loop_ends [OF c _ _ wf] show ?thesis
    by (simp add: demo_exit_simps)
qed

end
