(* ===== verification/Loader.thy ===== *)
theory Loader
  imports Memory_Map
begin

text \<open>
  \<open>ElfLoader\<close> of \<open>loader/mod.rs\<close>: from the bytes of an executable to a mapped image, the
  dynamic relocations, and the initial stack. The file system and the parser of the
  \<open>object\<close> crate are parameters; what the loader reads of a parsed file is a record.
\<close>

unbundle bit_operations_syntax

subsection \<open>What the loader reads of a parsed file\<close>

text \<open>A failed accessor is \<open>Inl\<close> of the error's text.\<close>

record obj_segment =
  os_address :: u64
  os_size :: u64
  os_data :: "string + bytes"

record obj_symbol =
  sy_index :: nat
  sy_name :: "string + string"
  sy_address :: u64
  sy_undefined :: bool

datatype reloc_target = Target_Symbol nat | Target_other

record obj_reloc =
  rl_target :: reloc_target
  rl_addend :: u64

text \<open>\<open>of_sections\<close> is the section table of a 64-bit ELF file, \<open>None\<close> for other formats.\<close>

record obj_file =
  of_segments :: "obj_segment list"
  of_entry :: u64
  of_symbols :: "obj_symbol list"
  of_dynamic_symbols :: "obj_symbol list"
  of_dynamic_relocs :: "(u64 \<times> obj_reloc) list option"
  of_sections :: "(u32 \<times> (string + bytes)) list option"

record object_crate =
  fs_read :: "bytes \<Rightarrow> string + bytes"
  obj_parse :: "bytes \<Rightarrow> string + obj_file"

record loaded_binary =
  lb_entry_point :: u64
  lb_stack_pointer :: u64
  lb_dynamic_thunks :: "(u64 \<times> string) list"
  lb_target_os :: target_os

definition load_error :: "string \<Rightarrow> string + 'a \<Rightarrow> 'a out" where
  "load_error what r = (case r of Inl e \<Rightarrow> Fail (LoadError (what @ e)) | Inr a \<Rightarrow> Val a)"

subsection \<open>Bias and entry point\<close>

definition first_segment_addr :: "obj_file \<Rightarrow> u64" where
  "first_segment_addr f = (case of_segments f of [] \<Rightarrow> 0 | s # ss \<Rightarrow> os_address s)"

definition elf_load_bias :: "obj_file \<Rightarrow> u64" where
  "elf_load_bias f = (if first_segment_addr f = 0 then 0x400000 else 0)"

definition is_entry_name :: "string + string \<Rightarrow> bool" where
  "is_entry_name nm =
     (case nm of Inl e \<Rightarrow> False
      | Inr name \<Rightarrow> name = ''main'' \<or> name = ''JNI_OnLoad'' \<or> name = ''ANativeActivity_onCreate'')"

definition elf_entry_point :: "bool \<Rightarrow> obj_file \<Rightarrow> u64 out" where
  "elf_entry_point oc f =
     bindO (ck_add oc (of_entry f) (elf_load_bias f)) (\<lambda>entry.
       if of_entry f = 0
       then (case List.find (\<lambda>s. is_entry_name (sy_name s)) (of_symbols f @ of_dynamic_symbols f) of
               Some s \<Rightarrow> ck_add oc (sy_address s) (elf_load_bias f)
             | None \<Rightarrow> Val entry)
       else Val entry)"

subsection \<open>Segments\<close>

text \<open>\<open>((size + offset + 4095) / 4096) * 4096\<close> and the page below the address.\<close>

definition page_span :: "bool \<Rightarrow> u64 \<Rightarrow> u64 \<Rightarrow> (u64 \<times> u64) out" where
  "page_span oc vaddr sz =
     (let aligned = vaddr AND NOT 4095;
          offset = vaddr - aligned
      in bindO (ck_add oc sz offset) (\<lambda>a.
         bindO (ck_add oc a 4095) (\<lambda>b. Val (aligned, (b div 4096) * 4096))))"

text \<open>\<open>vec![0u8; n]\<close>: panics above \<open>isize::MAX\<close>.\<close>

definition zero_vec :: "nat \<Rightarrow> bytes out" where
  "zero_vec n = (if 2 ^ 63 \<le> n then Crash Panic else Val (replicate n 0))"

definition load_segment ::
  "bool \<Rightarrow> ('h, 'z) os_scheme \<Rightarrow> u64 \<Rightarrow> obj_segment \<Rightarrow> u64 \<Rightarrow> ('h sys, u64) comp" where
  "load_segment oc K bias seg max_vaddr =
     bind (lift (ck_add oc (os_address seg) bias)) (\<lambda>vaddr.
     let sz = os_size seg
     in if sz = 0 then ret max_vaddr
        else
          bind (lift (load_error ''Segment data error: '' (os_data seg))) (\<lambda>data.
          bind (lift (page_span oc vaddr sz)) (\<lambda>(aligned, total).
          bind (map_anonymous K aligned total) (\<lambda>_.
          bind (mem_write oc vaddr data) (\<lambda>_.
          bind (if length data < unat sz
                then bind (lift (zero_vec (unat sz - length data))) (\<lambda>zeros.
                     bind (lift (ck_add oc vaddr (of_nat (length data)))) (\<lambda>a.
                     mem_write oc a zeros))
                else ret ()) (\<lambda>_.
          bind (lift (ck_add oc vaddr sz)) (\<lambda>e.
          ret (if max_vaddr < e then e else max_vaddr))))))))"

primrec load_segments ::
  "bool \<Rightarrow> ('h, 'z) os_scheme \<Rightarrow> u64 \<Rightarrow> obj_segment list \<Rightarrow> u64 \<Rightarrow> ('h sys, u64) comp" where
  "load_segments oc K bias [] max_vaddr = ret max_vaddr"
| "load_segments oc K bias (s # ss) max_vaddr =
     bind (load_segment oc K bias s max_vaddr) (load_segments oc K bias ss)"

text \<open>The trampoline and thread-local pages; failures are ignored.\<close>

definition map_service_pages :: "('h, 'z) os_scheme \<Rightarrow> ('h sys, unit) comp" where
  "map_service_pages K =
     bind (ignore_err (map_anonymous K 0x7f000000 0x20000)) (\<lambda>_.
     ignore_err (map_anonymous K 0x7f020000 0x10000))"

subsection \<open>Thunks\<close>

text \<open>
  \<open>symbol_map\<close> and \<open>dynamic_thunks\<close> grow together: an entry of the map is a thunk, found by
  its name. \<open>symbol_map.len()\<close> is the number of thunks.
\<close>

type_synonym thunks = "(u64 \<times> string) list"

definition thunk_addr :: "thunks \<Rightarrow> string \<Rightarrow> u64 option" where
  "thunk_addr ts name = map_option fst (List.find (\<lambda>(a, n). n = name) ts)"

definition resolve_thunk :: "string \<Rightarrow> thunks \<Rightarrow> u64 \<times> thunks" where
  "resolve_thunk name ts =
     (case thunk_addr ts name of
        Some a \<Rightarrow> (a, ts)
      | None \<Rightarrow> (let a = 0x7f000000 + of_nat (length ts) * 8 in (a, ts @ [(a, name)])))"

definition data_symbol :: "string \<Rightarrow> u64" where
  "data_symbol name =
     (if name = ''stdout'' then 0x7f010000 else if name = ''stderr'' then 0x7f010100
      else if name = ''stdin'' then 0x7f010200 else if name = ''optind'' then 0x7f010300
      else if name = ''optarg'' then 0x7f010308 else if name = ''opterr'' then 0x7f010310
      else if name = ''optopt'' then 0x7f010318 else if name = ''environ'' then 0x7f010400
      else 0)"

subsection \<open>Dynamic relocations\<close>

text \<open>\<open>let _ = mem.write(addr, &val.to_le_bytes())\<close>.\<close>

definition poke :: "bool \<Rightarrow> u64 \<Rightarrow> u64 \<Rightarrow> ('h sys, unit) comp" where
  "poke oc a v = ignore_err (mem_write oc a (to_le_bytes v))"

text \<open>The value written when no symbol decides: the bias plus the addend, wrapping.\<close>

definition apply_relative ::
  "bool \<Rightarrow> u64 \<Rightarrow> u64 \<Rightarrow> u64 \<Rightarrow> thunks \<Rightarrow> ('h sys, thunks) comp" where
  "apply_relative oc bias target addend ts = bind (poke oc target (bias + addend)) (\<lambda>_. ret ts)"

text \<open>A relocation against an undefined symbol with a name, and one against a defined symbol.\<close>

definition apply_import :: "bool \<Rightarrow> u64 \<Rightarrow> string \<Rightarrow> thunks \<Rightarrow> ('h sys, thunks) comp" where
  "apply_import oc target name ts =
     (if data_symbol name \<noteq> 0
      then bind (poke oc target (data_symbol name)) (\<lambda>_. ret ts)
      else (case resolve_thunk name ts of
              (a, ts') \<Rightarrow> bind (poke oc target a) (\<lambda>_. ret ts')))"

definition apply_defined ::
  "bool \<Rightarrow> u64 \<Rightarrow> u64 \<Rightarrow> u64 \<Rightarrow> u64 \<Rightarrow> thunks \<Rightarrow> ('h sys, thunks) comp" where
  "apply_defined oc bias target sym_addr addend ts =
     bind (lift (bindO (ck_add oc sym_addr bias) (\<lambda>v. ck_add oc v addend))) (\<lambda>v.
     bind (poke oc target v) (\<lambda>_. ret ts))"

definition apply_reloc ::
  "bool \<Rightarrow> u64 \<Rightarrow> obj_symbol list \<Rightarrow> u64 \<times> obj_reloc \<Rightarrow> thunks \<Rightarrow> ('h sys, thunks) comp" where
  "apply_reloc oc bias dyn_syms ar ts =
     (case ar of (addr, rel) \<Rightarrow>
        bind (lift (ck_add oc addr bias)) (\<lambda>target.
        let relative = apply_relative oc bias target (rl_addend rel) ts
        in case rl_target rel of
             Target_other \<Rightarrow> relative
           | Target_Symbol i \<Rightarrow>
               (case List.find (\<lambda>s. sy_index s = i) dyn_syms of
                  None \<Rightarrow> relative
                | Some sy \<Rightarrow>
                    if sy_undefined sy then
                      (case sy_name sy of
                         Inl e \<Rightarrow> relative
                       | Inr name \<Rightarrow>
                           if name = [] then relative else apply_import oc target name ts)
                    else if sy_address sy \<noteq> 0
                         then apply_defined oc bias target (sy_address sy) (rl_addend rel) ts
                         else relative)))"

primrec apply_relocs ::
  "bool \<Rightarrow> u64 \<Rightarrow> obj_symbol list \<Rightarrow> (u64 \<times> obj_reloc) list \<Rightarrow> thunks \<Rightarrow> ('h sys, thunks) comp"
  where
  "apply_relocs oc bias syms [] ts = ret ts"
| "apply_relocs oc bias syms (r # rs) ts =
     bind (apply_reloc oc bias syms r ts) (apply_relocs oc bias syms rs)"

subsection \<open>Packed relative relocations\<close>

text \<open>
  One word of the image gets the bias added, when it can be read: an error of the read or
  of the write is dropped.
\<close>

definition relr_word :: "bool \<Rightarrow> u64 \<Rightarrow> u64 \<Rightarrow> ('h sys, unit) comp" where
  "relr_word oc bias addr =
     bind (lift (ck_add oc addr bias)) (\<lambda>target.
     bind (attempt (\<lambda>m. (mem_read oc m target 8, m))) (\<lambda>existing.
       case existing of
         None \<Rightarrow> ret ()
       | Some bs \<Rightarrow> poke oc target (from_le_bytes bs + bias)))"

lemma drop_bit_1_less: "(b :: 'a::len word) \<noteq> 0 \<Longrightarrow> unat (drop_bit 1 b) < unat b"
proof -
  assume "b \<noteq> 0"
  then have "0 < unat b" by (simp add: unat_gt_0)
  moreover have "unat (drop_bit 1 b) = unat b div 2"
    by (simp only: unat_drop_bit_eq) (simp add: drop_bit_eq_div)
  ultimately show ?thesis by linarith
qed

text \<open>
  \<open>while bitmap != 0\<close>: the lowest bit stands for the word at \<open>addr\<close>. The shift makes the
  bitmap smaller, so the loop ends.
\<close>

function relr_bitmap :: "bool \<Rightarrow> u64 \<Rightarrow> u64 \<Rightarrow> u64 \<Rightarrow> ('h sys, unit) comp" where
  "relr_bitmap oc bias bitmap addr =
     (if bitmap = 0 then ret ()
      else bind (if bitmap AND 1 \<noteq> 0 then relr_word oc bias addr else ret ()) (\<lambda>_.
           bind (lift (ck_add oc addr 8)) (relr_bitmap oc bias (drop_bit 1 bitmap))))"
  by pat_completeness auto

termination
  by (relation "measure (\<lambda>(oc, bias, bitmap, addr). unat bitmap)") (auto dest: drop_bit_1_less)

declare relr_bitmap.simps [simp del]

text \<open>One entry of the section, with the base address the next entry starts from.\<close>

definition relr_entry :: "bool \<Rightarrow> u64 \<Rightarrow> u64 \<Rightarrow> u64 \<Rightarrow> ('h sys, u64) comp" where
  "relr_entry oc bias entry base =
     (if entry AND 1 = 0
      then bind (relr_word oc bias entry) (\<lambda>_. lift (ck_add oc entry 8))
      else bind (relr_bitmap oc bias (drop_bit 1 entry) base) (\<lambda>_. lift (ck_add oc base (63 * 8))))"

primrec relr_entries :: "bool \<Rightarrow> u64 \<Rightarrow> u64 list \<Rightarrow> u64 \<Rightarrow> ('h sys, unit) comp" where
  "relr_entries oc bias [] base = ret ()"
| "relr_entries oc bias (e # es) base = bind (relr_entry oc bias e base) (relr_entries oc bias es)"

text \<open>\<open>data.chunks_exact(8)\<close>, each read as a little-endian word.\<close>

function words_of :: "bytes \<Rightarrow> u64 list" where
  "words_of bs = (if length bs < 8 then [] else from_le_bytes (take 8 bs) # words_of (drop 8 bs))"
  by pat_completeness auto
termination by (relation "measure length") auto

declare words_of.simps [simp del]

definition SHT_RELR :: u32 where "SHT_RELR = 19"

primrec relr_sections ::
  "bool \<Rightarrow> u64 \<Rightarrow> (u32 \<times> (string + bytes)) list \<Rightarrow> ('h sys, unit) comp" where
  "relr_sections oc bias [] = ret ()"
| "relr_sections oc bias (s # ss) =
     bind (case s of (ty, d) \<Rightarrow>
             if ty = SHT_RELR
             then (case d of Inl e \<Rightarrow> ret () | Inr bs \<Rightarrow> relr_entries oc bias (words_of bs) 0)
             else ret ())
       (\<lambda>_. relr_sections oc bias ss)"

subsection \<open>The initial stack\<close>

definition STACK_TOP :: u64 where "STACK_TOP = 0x7ffff0000000"
definition STACK_SIZE :: u64 where "STACK_SIZE = 0x200000"

text \<open>
  The stack pointer is threaded through: a string with its terminator below it, and a
  word below it.
\<close>

definition push_string :: "bool \<Rightarrow> bytes \<Rightarrow> u64 \<Rightarrow> ('h sys, u64) comp" where
  "push_string oc bs sp =
     bind (lift (ck_sub oc sp (of_nat (length bs) + 1))) (\<lambda>sp.
     bind (mem_write oc sp bs) (\<lambda>_.
     bind (lift (ck_add oc sp (of_nat (length bs)))) (\<lambda>e.
     bind (mem_write oc e [0]) (\<lambda>_. ret sp))))"

primrec push_strings :: "bool \<Rightarrow> bytes list \<Rightarrow> u64 \<Rightarrow> ('h sys, u64 \<times> u64 list) comp" where
  "push_strings oc [] sp = ret (sp, [])"
| "push_strings oc (s # ss) sp =
     bind (push_string oc s sp) (\<lambda>p.
     bind (push_strings oc ss p) (\<lambda>(sp', ptrs). ret (sp', p # ptrs)))"

definition push_word :: "bool \<Rightarrow> u64 \<Rightarrow> u64 \<Rightarrow> ('h sys, u64) comp" where
  "push_word oc w sp =
     bind (lift (ck_sub oc sp 8)) (\<lambda>sp. bind (mem_write oc sp (to_le_bytes w)) (\<lambda>_. ret sp))"

text \<open>\<open>for w in ws.iter().rev()\<close>: the first word ends up lowest.\<close>

primrec push_words :: "bool \<Rightarrow> u64 list \<Rightarrow> u64 \<Rightarrow> ('h sys, u64) comp" where
  "push_words oc [] sp = ret sp"
| "push_words oc (w # ws) sp = bind (push_words oc ws sp) (push_word oc w)"

definition elf_env :: "bytes list" where
  "elf_env = map str_bytes
     [''PATH=/usr/local/bin:/usr/bin:/bin'', ''TERM=xterm-256color'', ''HOME=/root'',
      ''SHELL=/bin/sh'', ''PWD=/'']"

text \<open>\<open>data[i..i + n]\<close> as a little-endian number; out of range it panics.\<close>

definition header_field :: "bytes \<Rightarrow> nat \<Rightarrow> nat \<Rightarrow> u64 out" where
  "header_field data i n =
     (if length data < i + n then Crash Panic else Val (from_le_bytes (slice_at i n data)))"

text \<open>The auxiliary vector, as the pairs in the order of the source.\<close>

definition elf_auxv ::
  "bool \<Rightarrow> bytes \<Rightarrow> u64 \<Rightarrow> u64 \<Rightarrow> u64 \<Rightarrow> (u64 \<times> u64) list out" where
  "elf_auxv oc data entry_point platform_ptr random_ptr =
     bindO (header_field data 32 8) (\<lambda>e_phoff.
     bindO (header_field data 54 2) (\<lambda>e_phentsize.
     bindO (header_field data 56 2) (\<lambda>e_phnum.
     bindO (ck_add oc 0x400000 e_phoff) (\<lambda>at_phdr.
       Val [(3, at_phdr), (4, e_phentsize), (5, e_phnum), (6, 4096), (7, 0), (8, 0),
            (9, entry_point), (11, 0), (12, 0), (13, 0), (14, 0), (15, platform_ptr), (16, 0),
            (17, 100), (23, 0), (25, random_ptr), (26, 0), (0, 0)]))))"

text \<open>What the words of the initial stack are, from the lowest address up.\<close>

definition elf_stack_words :: "u64 list \<Rightarrow> u64 list \<Rightarrow> (u64 \<times> u64) list \<Rightarrow> u64 list" where
  "elf_stack_words arg_ptrs env_ptrs auxv =
     [of_nat (length arg_ptrs)] @ arg_ptrs @ [0] @ env_ptrs @ [0] @
     concat (map (\<lambda>(k, v). [k, v]) auxv)"

text \<open>
  From the aligned stack pointer: one word of padding when the number of words is odd,
  then the words from the top down.
\<close>

definition elf_push_table ::
  "bool \<Rightarrow> u64 list \<Rightarrow> u64 list \<Rightarrow> (u64 \<times> u64) list \<Rightarrow> u64 \<Rightarrow> ('h sys, u64) comp" where
  "elf_push_table oc arg_ptrs env_ptrs auxv sp =
     (let total_words = 1 + length arg_ptrs + 1 + length env_ptrs + 1 + length auxv * 2
      in bind (if total_words mod 2 \<noteq> 0 then lift (ck_sub oc sp 8) else ret sp) (\<lambda>sp.
         bind (push_words oc (concat (map (\<lambda>(k, v). [k, v]) auxv)) sp) (\<lambda>sp.
         bind (push_word oc 0 sp) (\<lambda>sp.
         bind (push_words oc env_ptrs sp) (\<lambda>sp.
         bind (push_word oc 0 sp) (\<lambda>sp.
         bind (push_words oc arg_ptrs sp) (\<lambda>sp.
         push_word oc (of_nat (length arg_ptrs)) sp)))))))"

definition elf_build_stack ::
  "bool \<Rightarrow> ('h, 'z) os_scheme \<Rightarrow> bytes \<Rightarrow> u64 \<Rightarrow> bytes list \<Rightarrow> ('h sys, u64) comp" where
  "elf_build_stack oc K data entry_point args =
     bind (map_anonymous K (STACK_TOP - STACK_SIZE) STACK_SIZE) (\<lambda>_.
     bind (push_strings oc args (STACK_TOP - 0x1000)) (\<lambda>(sp, arg_ptrs).
     bind (push_strings oc elf_env sp) (\<lambda>(sp, env_ptrs).
     bind (lift (ck_sub oc sp 8)) (\<lambda>platform_ptr.
     bind (mem_write oc platform_ptr (str_bytes ''aarch64'' @ [0])) (\<lambda>_.
     bind (lift (ck_sub oc platform_ptr 16)) (\<lambda>random_ptr.
     bind (mem_write oc random_ptr (replicate 16 0x42)) (\<lambda>_.
     bind (lift (elf_auxv oc data entry_point platform_ptr random_ptr)) (\<lambda>auxv.
     elf_push_table oc arg_ptrs env_ptrs auxv (random_ptr AND NOT 0xf)))))))))"

subsection \<open>The loader\<close>

definition elf_relocate ::
  "bool \<Rightarrow> obj_file \<Rightarrow> ('h sys, thunks) comp" where
  "elf_relocate oc f =
     bind (case of_dynamic_relocs f of
             None \<Rightarrow> ret []
           | Some rs \<Rightarrow> apply_relocs oc (elf_load_bias f) (of_dynamic_symbols f) rs []) (\<lambda>thunks.
     bind (case of_sections f of
             None \<Rightarrow> ret ()
           | Some ss \<Rightarrow> relr_sections oc (elf_load_bias f) ss) (\<lambda>_. ret thunks))"

text \<open>The two words the loader presets for \<open>getopt\<close>.\<close>

definition preset_getopt :: "bool \<Rightarrow> ('h sys, unit) comp" where
  "preset_getopt oc =
     bind (ignore_err (mem_write oc 0x7f010300 (to_le_bytes (1 :: u32)))) (\<lambda>_.
     ignore_err (mem_write oc 0x7f010310 (to_le_bytes (1 :: u32))))"

definition elf_load_data ::
  "bool \<Rightarrow> ('h, 'z) os_scheme \<Rightarrow> object_crate \<Rightarrow> bytes \<Rightarrow> bytes list \<Rightarrow> ('h sys, loaded_binary) comp"
  where
  "elf_load_data oc K C data args =
     bind (lift (load_error ''ELF parse error: '' (obj_parse C data))) (\<lambda>f.
     bind (lift (elf_entry_point oc f)) (\<lambda>entry_point.
     bind (load_segments oc K (elf_load_bias f) (of_segments f) 0) (\<lambda>max_vaddr.
     bind (map_service_pages K) (\<lambda>_.
     bind (preset_getopt oc) (\<lambda>_.
     bind (elf_relocate oc f) (\<lambda>thunks.
     bind (set_brk_base oc max_vaddr) (\<lambda>_.
     bind (elf_build_stack oc K data entry_point args) (\<lambda>sp.
     ret \<lparr>lb_entry_point = entry_point, lb_stack_pointer = sp, lb_dynamic_thunks = thunks,
          lb_target_os = Linux\<rparr>))))))))"

definition elf_load_file_with_args ::
  "bool \<Rightarrow> ('h, 'z) os_scheme \<Rightarrow> object_crate \<Rightarrow> bytes \<Rightarrow> bytes list \<Rightarrow> ('h sys, loaded_binary) comp"
  where
  "elf_load_file_with_args oc K C path args =
     bind (lift (load_error ''Failed to read file: '' (fs_read C path))) (\<lambda>data.
     elf_load_data oc K C data args)"

text \<open>\<open>load_file\<close>: the path, as text, is the only argument.\<close>

definition elf_load_file ::
  "bool \<Rightarrow> ('h, 'z) os_scheme \<Rightarrow> object_crate \<Rightarrow> bytes \<Rightarrow> ('h sys, loaded_binary) comp" where
  "elf_load_file oc K C path = elf_load_file_with_args oc K C path [from_utf8_lossy path]"

end
