(* ===== verification/Macho.thy ===== *)
theory Macho
  imports Loader
begin

text \<open>
  \<open>MachOLoader\<close> of \<open>loader/macho.rs\<close>: the ARM64 slice of a universal binary, the image, the
  import thunks and the Darwin stack; and \<open>AutoLoader\<close> of \<open>loader/mod.rs\<close>, which chooses
  the loader by the first four bytes of the file.
\<close>

unbundle bit_operations_syntax

subsection \<open>Universal binaries\<close>

text \<open>\<open>u32::from_be_bytes(raw[i..i + 4])\<close> for a range that the caller has checked.\<close>

definition be32 :: "bytes \<Rightarrow> nat \<Rightarrow> u32" where
  "be32 raw i = from_be_bytes (slice_at i 4 raw)"

definition FAT_MAGIC :: u32 where "FAT_MAGIC = 0xcafebabe"
definition FAT_CIGAM :: u32 where "FAT_CIGAM = 0xbebafeca"

definition is_arm64_cpu :: "u32 \<Rightarrow> bool" where
  "is_arm64_cpu cputype \<longleftrightarrow> cputype = 0x0100000C \<or> cputype = 0x0100000E"

text \<open>
  \<open>for _ in 0..nfat_arch\<close>, with the rounds that are left as the first argument: the first
  ARM64 entry whose slice lies in the file.
\<close>

primrec fat_entries :: "nat \<Rightarrow> bytes \<Rightarrow> nat \<Rightarrow> bytes option" where
  "fat_entries 0 raw offset = None"
| "fat_entries (Suc n) raw offset =
     (if length raw < offset + 20 then None
      else let slice_offset = unat (be32 raw (offset + 8));
               slice_size = unat (be32 raw (offset + 12))
           in if is_arm64_cpu (be32 raw offset) \<and> slice_offset + slice_size \<le> length raw
              then Some (slice_at slice_offset slice_size raw)
              else fat_entries n raw (offset + 20))"

definition extract_arm64_slice :: "bytes \<Rightarrow> bytes" where
  "extract_arm64_slice raw =
     (if length raw < 8 then raw
      else if be32 raw 0 = FAT_MAGIC \<or> be32 raw 0 = FAT_CIGAM
           then (case fat_entries (unat (be32 raw 4)) raw 8 of Some s \<Rightarrow> s | None \<Rightarrow> raw)
           else raw)"

subsection \<open>Image\<close>

definition macho_load_bias :: "obj_file \<Rightarrow> u64" where
  "macho_load_bias f = (if first_segment_addr f = 0 then 0x100000000 else 0)"

definition macho_entry_point :: "bool \<Rightarrow> obj_file \<Rightarrow> u64 out" where
  "macho_entry_point oc f =
     bindO (if of_entry f < first_segment_addr f
            then ck_add oc (first_segment_addr f) (of_entry f) else Val (of_entry f))
       (\<lambda>e. ck_add oc e (macho_load_bias f))"

text \<open>\<open>name.strip_prefix('_').unwrap_or(name)\<close>.\<close>

fun strip_underscore :: "string \<Rightarrow> string" where
  "strip_underscore (ch # s) = (if ch = CHR ''_'' then s else ch # s)"
| "strip_underscore [] = []"

text \<open>An undefined symbol that has a name gets a thunk under its stripped name.\<close>

definition import_symbol :: "obj_symbol \<Rightarrow> thunks \<Rightarrow> thunks" where
  "import_symbol s ts =
     (if sy_undefined s
      then (case sy_name s of
              Inl e \<Rightarrow> ts
            | Inr name \<Rightarrow> if name = [] then ts else snd (resolve_thunk (strip_underscore name) ts))
      else ts)"

definition macho_imports :: "obj_file \<Rightarrow> thunks" where
  "macho_imports f = fold import_symbol (of_symbols f) []"

subsection \<open>The initial stack\<close>

definition macho_env :: "bytes list" where
  "macho_env = map str_bytes [''PATH=/usr/local/bin:/usr/bin:/bin'', ''USER=root'', ''HOME=/root'']"

definition macho_push_table ::
  "bool \<Rightarrow> u64 list \<Rightarrow> u64 list \<Rightarrow> u64 list \<Rightarrow> u64 \<Rightarrow> ('h sys, u64) comp" where
  "macho_push_table oc arg_ptrs env_ptrs apple_ptrs sp =
     bind (push_word oc 0 sp) (\<lambda>sp.
     bind (push_words oc apple_ptrs sp) (\<lambda>sp.
     bind (push_word oc 0 sp) (\<lambda>sp.
     bind (push_words oc env_ptrs sp) (\<lambda>sp.
     bind (push_word oc 0 sp) (\<lambda>sp.
     bind (push_words oc arg_ptrs sp) (\<lambda>sp.
     push_word oc (of_nat (length arg_ptrs)) sp))))))"

definition macho_build_stack ::
  "bool \<Rightarrow> ('h, 'z) os_scheme \<Rightarrow> bytes \<Rightarrow> bytes list \<Rightarrow> ('h sys, u64) comp" where
  "macho_build_stack oc K path args =
     bind (map_anonymous K (STACK_TOP - STACK_SIZE) STACK_SIZE) (\<lambda>_.
     bind (push_strings oc macho_env (STACK_TOP - 0x1000)) (\<lambda>(sp, env_ptrs).
     bind (push_strings oc [from_utf8_lossy path, str_bytes ''pf_random=0123456789abcdef''] sp)
       (\<lambda>(sp, apple_ptrs).
     bind (push_strings oc args sp) (\<lambda>(sp, arg_ptrs).
     macho_push_table oc arg_ptrs env_ptrs apple_ptrs (sp AND NOT 0xf)))))"

subsection \<open>The loaders\<close>

definition macho_load_data ::
  "bool \<Rightarrow> ('h, 'z) os_scheme \<Rightarrow> object_crate \<Rightarrow> bytes \<Rightarrow> bytes \<Rightarrow> bytes list \<Rightarrow>
   ('h sys, loaded_binary) comp" where
  "macho_load_data oc K C path data args =
     bind (lift (load_error ''Mach-O parse error: '' (obj_parse C data))) (\<lambda>f.
     bind (lift (macho_entry_point oc f)) (\<lambda>entry_point.
     bind (load_segments oc K (macho_load_bias f) (of_segments f) 0) (\<lambda>max_vaddr.
     bind (map_service_pages K) (\<lambda>_.
     bind (set_brk_base oc max_vaddr) (\<lambda>_.
     bind (macho_build_stack oc K path args) (\<lambda>sp.
     ret \<lparr>lb_entry_point = entry_point, lb_stack_pointer = sp,
          lb_dynamic_thunks = macho_imports f, lb_target_os = Darwin\<rparr>))))))"

definition macho_load_file_with_args ::
  "bool \<Rightarrow> ('h, 'z) os_scheme \<Rightarrow> object_crate \<Rightarrow> bytes \<Rightarrow> bytes list \<Rightarrow> ('h sys, loaded_binary) comp"
  where
  "macho_load_file_with_args oc K C path args =
     bind (lift (load_error ''Failed to read Mach-O file: '' (fs_read C path))) (\<lambda>raw.
     macho_load_data oc K C path (extract_arm64_slice raw) args)"

definition is_macho_magic :: "bytes \<Rightarrow> bool" where
  "is_macho_magic magic \<longleftrightarrow>
     magic = [0xcf, 0xfa, 0xed, 0xfe] \<or> magic = [0xfe, 0xed, 0xfa, 0xcf] \<or>
     magic = [0xca, 0xfe, 0xba, 0xbe]"

text \<open>Both branches but the Mach-O one run the ELF loader, which reads the file again.\<close>

definition auto_load_file_with_args ::
  "bool \<Rightarrow> ('h, 'z) os_scheme \<Rightarrow> object_crate \<Rightarrow> bytes \<Rightarrow> bytes list \<Rightarrow> ('h sys, loaded_binary) comp"
  where
  "auto_load_file_with_args oc K C path args =
     bind (lift (load_error ''Failed to read file: '' (fs_read C path))) (\<lambda>data.
       if length data < 4 then lift (Fail (LoadError ''Binary file too small''))
       else if take 4 data = [0x7f, 0x45, 0x4c, 0x46] then elf_load_file_with_args oc K C path args
       else if is_macho_magic (take 4 data) then macho_load_file_with_args oc K C path args
       else elf_load_file_with_args oc K C path args)"

end
