(* ===== verification/Loader_Image.thy ===== *)
theory Loader_Image
  imports Macho Memory_Correct
begin

text \<open>
  The image the loaders map: what a segment leaves in guest memory, the words the packed
  relocations adjust, the table of thunks, and the slice taken from a universal binary.
\<close>

unbundle bit_operations_syntax

subsection \<open>Segments\<close>

text \<open>The bytes of a segment: its data, then zero bytes up to its size.\<close>

definition segment_bytes :: "obj_segment \<Rightarrow> bytes \<Rightarrow> bytes" where
  "segment_bytes seg data = data @ replicate (unat (os_size seg) - length data) 0"

lemma page_span_Val:
  assumes "unat vaddr + unat sz + 8192 < 2 ^ 64"
  shows "\<exists>aligned total. page_span oc vaddr sz = Val (aligned, total) \<and>
    unat aligned = unat vaddr div 4096 * 4096 \<and>
    unat total = round_page (unat sz + unat vaddr mod 4096)"
proof -
  let ?al = "vaddr AND NOT 4095"
  have "(4095 :: u64) = mask 12" by (simp add: mask_eq_exp_minus_1)
  then have al: "unat ?al = unat vaddr div 4096 * 4096"
    using and_not_mask_unat [of vaddr 12] by simp
  then have le: "?al \<le> vaddr" by (simp add: word_le_unat)
  then have off: "unat (vaddr - ?al) = unat vaddr mod 4096"
    using al by (simp add: unat_sub minus_div_mult_eq_mod)
  have m: "unat vaddr mod 4096 < 4096" by simp
  have a: "unat (sz + (vaddr - ?al)) = unat sz + unat vaddr mod 4096"
    using assms off m by (subst unat_add_lem [THEN iffD1]) simp_all
  have b: "unat (sz + (vaddr - ?al) + 4095) = unat sz + unat vaddr mod 4096 + 4095"
    using assms a m by (subst unat_add_lem [THEN iffD1]) simp_all
  let ?b = "sz + (vaddr - ?al) + 4095"
  have t: "unat (?b div 4096 * 4096) = round_page (unat sz + unat vaddr mod 4096)"
  proof -
    have "unat ?b div 4096 * 4096 \<le> unat ?b" by simp
    then have "unat ?b div 4096 * 4096 < 2 ^ 64" using b assms m by linarith
    then have "unat (?b div 4096 * 4096) = unat ?b div 4096 * 4096"
      by (simp add: unat_mult_lem [THEN iffD1] unat_div)
    then show ?thesis by (simp only: b round_page_def)
  qed
  have "unat sz + unat (vaddr - ?al) < 2 ^ 64" using assms off m by linarith
  then have "ck_add oc sz (vaddr - ?al) = Val (sz + (vaddr - ?al))" by (simp add: ck_add_def)
  moreover have "unat sz + unat vaddr mod 4096 + 4095 < 2 ^ 64" using assms m by linarith
  then have "unat (sz + (vaddr - ?al)) + unat (4095 :: u64) < 2 ^ 64" using a by simp
  then have "ck_add oc (sz + (vaddr - ?al)) 4095 = Val ?b"
    by (simp only: ck_add_def len_num1 not_le [symmetric] if_False len_bit0) simp
  ultimately show ?thesis using al t by (simp add: page_span_def Let_def)
qed

text \<open>The pages of a segment in the low half of the address space cover it.\<close>

lemma page_span_covers:
  assumes span: "page_span oc vaddr sz = Val (aligned, psz)" and v: "4096 \<le> vaddr"
    and small: "unat vaddr + unat sz \<le> unat RAW_BASE"
  shows "aligned \<noteq> 0" and "unat aligned + unat psz < 2 ^ 64"
    and "in_range vaddr (unat sz) a \<Longrightarrow> in_range aligned (unat psz) a"
proof -
  let ?n = "unat sz"
  have small: "unat vaddr + ?n \<le> 0x500000000000" using small by (simp add: RAW_BASE_def)
  have m4: "unat vaddr mod 4096 < 4096" "4096 \<le> unat vaddr" using v by (simp_all add: word_le_unat)
  have al: "unat aligned = unat vaddr div 4096 * 4096"
    and tot: "unat psz = round_page (?n + unat vaddr mod 4096)"
    using page_span_Val [of vaddr sz oc] small span by auto
  have dm: "unat vaddr div 4096 * 4096 + unat vaddr mod 4096 = unat vaddr" by simp
  have rp: "?n + unat vaddr mod 4096 \<le> round_page (?n + unat vaddr mod 4096)" by (rule round_page_ge)
  have rp': "round_page (?n + unat vaddr mod 4096) < ?n + unat vaddr mod 4096 + 4096"
    unfolding round_page_def by linarith
  show "aligned \<noteq> 0" using al m4 by (auto simp: word_unat_eq_iff)
  have "unat aligned + unat psz < 0x1000000000000" using al tot rp' small dm m4 by linarith
  then show "unat aligned + unat psz < 2 ^ 64" by simp
  show "in_range aligned (unat psz) a" if "in_range vaddr ?n a"
  proof -
    have "unat vaddr \<le> unat a" "unat a < unat vaddr + ?n"
      using that by (simp_all add: in_range_def word_le_unat)
    then have "unat aligned \<le> unat a \<and> unat a < unat aligned + unat psz"
      using al tot rp dm by linarith
    then show ?thesis by (simp add: in_range_def word_le_unat)
  qed
qed

text \<open>The two writes of a segment, onto mapped bytes.\<close>

definition write_segment :: "bool \<Rightarrow> u64 \<Rightarrow> nat \<Rightarrow> bytes \<Rightarrow> ('h sys, unit) comp" where
  "write_segment oc vaddr n data =
     bind (mem_write oc vaddr data) (\<lambda>_.
       if length data < n
       then bind (lift (zero_vec (n - length data))) (\<lambda>zeros.
            bind (lift (ck_add oc vaddr (of_nat (length data)))) (\<lambda>a. mem_write oc a zeros))
       else ret ())"

lemma write_segment_bytes:
  assumes wf: "wf_mem m" and k: "length data \<le> n" and n: "0 < n" "unat vaddr + n \<le> unat RAW_BASE"
    and mapped: "\<And>a. in_range vaddr n a \<Longrightarrow> guest_byte m a \<noteq> None"
  shows "\<exists>m'. write_segment oc vaddr n data m = (Val (), m') \<and> wf_mem m' \<and>
    (\<forall>a. guest_byte m' a = (if in_range vaddr n a
       then Some ((data @ replicate (n - length data) 0) ! (unat a - unat vaddr)) else guest_byte m a))"
proof -
  let ?k = "length data"
  have small: "unat vaddr + n \<le> 0x500000000000" using n(2) by (simp add: RAW_BASE_def)
  have mp: "\<forall>i<j. guest_byte m (b + of_nat i) \<noteq> None"
    if "unat vaddr \<le> unat b" "unat b + j \<le> unat vaddr + n" for b j
  proof (intro allI impI)
    fix i assume "i < j"
    then have "in_range vaddr n (b + of_nat i)"
      using that small unat_add_of_nat [of b i] by (simp add: in_range_def word_le_unat)
    then show "guest_byte m (b + of_nat i) \<noteq> None" by (rule mapped)
  qed
  have "low_range vaddr ?k" using small n k by (simp add: low_range_def word_less_unat RAW_BASE_def)
  from gm.wr_ok [OF wf this mp, of oc] k obtain m2 where w2: "mem_write oc vaddr data m = (Val (), m2)"
    and wf2: "wf_mem m2" and g2: "\<And>x. guest_byte m2 x =
      (if in_range vaddr ?k x then Some (data ! (unat x - unat vaddr)) else guest_byte m x)"
    by auto
  show ?thesis
  proof (cases "?k < n")
    case False
    then show ?thesis using k w2 wf2 g2 by (simp add: write_segment_def bind_def ret_def)
  next
    case True
    let ?z = "replicate (n - ?k) (0 :: u8)" and ?b = "vaddr + of_nat ?k"
    have ub: "unat ?b = unat vaddr + ?k" using small True unat_add_of_nat [of vaddr ?k] by simp
    have m2map: "\<forall>i<n - ?k. guest_byte m2 (?b + of_nat i) \<noteq> None"
      using mp [of ?b "n - ?k"] ub k g2 by auto
    have "low_range ?b (length ?z)"
      using small ub True by (simp add: low_range_def word_less_unat RAW_BASE_def)
    from gm.wr_ok [OF wf2 this, of oc] m2map obtain m3
      where w3: "mem_write oc ?b ?z m2 = (Val (), m3)" and wf3: "wf_mem m3"
        and g3: "\<And>x. guest_byte m3 x =
          (if in_range ?b (n - ?k) x then Some (?z ! (unat x - unat ?b)) else guest_byte m2 x)"
      by auto
    have "zero_vec (n - ?k) = Val ?z" "ck_add oc vaddr (of_nat ?k) = Val ?b"
      using small True by (simp_all add: zero_vec_def ck_add_def unsigned_of_nat take_bit_nat_eq_self)
    then have "write_segment oc vaddr n data m = (Val (), m3)"
      using w2 w3 True by (simp add: write_segment_def bind_def lift_def)
    moreover have "guest_byte m3 a = (if in_range vaddr n a
       then Some ((data @ ?z) ! (unat a - unat vaddr)) else guest_byte m a)" for a
      using g3 [of a] g2 [of a] ub True by (auto simp: in_range_def word_le_unat nth_append)
    ultimately show ?thesis using wf3 by blast
  qed
qed

text \<open>
  A segment with data, on success: its bytes are in the guest memory, the rest of its whole
  pages are zero bytes, and nothing else has changed.
\<close>

lemma load_segment_bytes:
  assumes wf: "wf_mem m" and K: "mmap_contract K"
    and data: "os_data seg = Inr data" "length data \<le> unat (os_size seg)" "os_size seg \<noteq> 0"
    and va: "unat vaddr = unat (os_address seg) + unat bias" "4096 \<le> vaddr"
      "unat vaddr + unat (os_size seg) \<le> unat RAW_BASE"
    and span: "page_span oc vaddr (os_size seg) = Val (aligned, psz)"
    and free: "guest_free m aligned psz"
    and map: "map_anonymous K aligned psz m = (Val v, m1)"
  shows "\<exists>m'. load_segment oc K bias seg mx m =
      (Val (if mx < vaddr + os_size seg then vaddr + os_size seg else mx), m') \<and> wf_mem m' \<and>
    (\<forall>a. guest_byte m' a =
      (if in_range vaddr (unat (os_size seg)) a
       then Some (segment_bytes seg data ! (unat a - unat vaddr))
       else if in_range aligned (unat psz) a then Some 0 else guest_byte m a))"
proof -
  let ?n = "unat (os_size seg)"
  note cover = page_span_covers [OF span va(2,3)]
  from map_anonymous_prot_ok [OF wf K free cover(1,2) _ _ map [unfolded map_anonymous_def]]
  have wf1: "wf_mem m1"
    and g1: "\<And>a. guest_byte m1 a = (if in_range aligned (unat psz) a then Some 0 else guest_byte m a)"
    by auto
  have n0: "0 < ?n" using data(3) by (simp add: unat_gt_0)
  obtain m2 where w: "write_segment oc vaddr ?n data m1 = (Val (), m2)" and wf2: "wf_mem m2"
    and g2: "\<And>a. guest_byte m2 a = (if in_range vaddr ?n a
       then Some (segment_bytes seg data ! (unat a - unat vaddr)) else guest_byte m1 a)"
    using write_segment_bytes [OF wf1 data(2) n0 va(3), of oc] g1 cover(3)
    by (auto simp: segment_bytes_def)
  have "ck_add oc (os_address seg) bias = Val vaddr" "ck_add oc vaddr (os_size seg) = Val (vaddr + os_size seg)"
    using va(1,3) unat_add_lem [of "os_address seg" bias]
    by (simp_all add: ck_add_def word_unat_eq_iff RAW_BASE_def)
  moreover have "load_segment oc K bias seg mx =
      bind (lift (ck_add oc (os_address seg) bias)) (\<lambda>vaddr.
      bind (lift (page_span oc vaddr (os_size seg))) (\<lambda>(aligned, total).
      bind (map_anonymous K aligned total) (\<lambda>_.
      bind (write_segment oc vaddr ?n data) (\<lambda>_.
      bind (lift (ck_add oc vaddr (os_size seg))) (\<lambda>e. ret (if mx < e then e else mx))))))"
    using data(1,3)
    by (simp add: load_segment_def write_segment_def load_error_def Let_def bind_assoc)
  ultimately have "load_segment oc K bias seg mx m =
      (Val (if mx < vaddr + os_size seg then vaddr + os_size seg else mx), m2)"
    using span map w by (simp add: bind_def lift_def ret_def)
  with wf2 g2 g1 show ?thesis by auto
qed

subsection \<open>Packed relative relocations\<close>

text \<open>
  The documented meaning of the format: an even entry is an address, an odd entry is a map
  of the 63 words from the base on.
\<close>

fun relr_targets :: "u64 \<Rightarrow> u64 list \<Rightarrow> u64 list" where
  "relr_targets base [] = []"
| "relr_targets base (e # es) =
     (if e AND 1 = 0 then e # relr_targets (e + 8) es
      else map (\<lambda>i. base + 8 * of_nat i) (filter (\<lambda>i. bit e (Suc i)) [0..<63]) @
           relr_targets (base + 63 * 8) es)"

primrec relr_words :: "bool \<Rightarrow> u64 \<Rightarrow> u64 list \<Rightarrow> ('h sys, unit) comp" where
  "relr_words oc bias [] = ret ()"
| "relr_words oc bias (a # as) = bind (relr_word oc bias a) (\<lambda>_. relr_words oc bias as)"

lemma relr_words_append:
  "relr_words oc bias (xs @ ys) = bind (relr_words oc bias xs) (\<lambda>_. relr_words oc bias ys)"
  by (induction xs) (auto simp: bind_def ret_def fun_eq_iff split: prod.splits out.splits)

text \<open>The addresses the decoder computes do not pass the top of the address space.\<close>

fun relr_fits :: "u64 \<Rightarrow> u64 list \<Rightarrow> bool" where
  "relr_fits base [] \<longleftrightarrow> True"
| "relr_fits base (e # es) \<longleftrightarrow>
     (if e AND 1 = 0 then unat e + 8 < 2 ^ 64 \<and> relr_fits (e + 8) es
      else unat base + 63 * 8 < 2 ^ 64 \<and> relr_fits (base + 63 * 8) es)"

lemma and_1_even: "((e :: u64) AND 1 = 0) = even e"
  by (simp add: and_one_eq even_iff_mod_2_eq_zero)

lemma relr_bitmap_words:
  assumes "unat bm < 2 ^ n" and "oc \<longrightarrow> unat addr + 8 * n < 2 ^ 64"
  shows "relr_bitmap oc bias bm addr =
    relr_words oc bias (map (\<lambda>i. addr + 8 * of_nat i) (filter (bit bm) [0..<n]))"
  using assms
proof (induction n arbitrary: bm addr)
  case 0
  then have "bm = 0" by (simp add: unat_eq_0)
  then show ?case by (simp add: relr_bitmap.simps)
next
  case (Suc n)
  have up: "[0..<Suc n] = 0 # map Suc [0..<n]" by (simp add: upt_conv_Cons map_Suc_upt del: upt_Suc)
  have ck: "ck_add oc addr 8 = Val (addr + 8)" using Suc.prems(2) by (auto simp: ck_add_def)
  have nx: "oc \<longrightarrow> unat (addr + 8) + 8 * n < 2 ^ 64"
    using Suc.prems(2) unat_add_of_nat [of addr 8] by auto
  show ?case
  proof (cases "bm = 0")
    case True
    then show ?thesis by (simp add: relr_bitmap.simps)
  next
    case False
    have lt: "unat (drop_bit 1 bm) < 2 ^ n"
      using Suc.prems(1) by (simp only: unat_drop_bit_eq) (simp add: drop_bit_eq_div)
    have b: "(bm AND 1 \<noteq> 0) = bit bm 0" by (simp add: and_one_eq odd_iff_mod_2_eq_one bit_0)
    have "map (\<lambda>i. addr + 8 * of_nat i) (filter (bit bm) [0..<Suc n]) =
      (if bit bm 0 then [addr] else []) @
      map (\<lambda>i. addr + 8 + 8 * of_nat i) (filter (bit (drop_bit 1 bm)) [0..<n])"
      unfolding up by (simp add: filter_map comp_def bit_drop_bit_eq algebra_simps del: upt_Suc)
    then show ?thesis using False Suc.IH [OF lt nx]
      by (subst relr_bitmap.simps) (simp add: b ck relr_words_append bind_def lift_def ret_def fun_eq_iff
          split: prod.splits out.splits)
  qed
qed

lemma relr_entry_words:
  assumes "oc \<longrightarrow> unat (if even e then e else base) + (if even e then 8 else 63 * 8) < 2 ^ 64"
  shows "relr_entry oc bias e base =
     (if even e then bind (relr_words oc bias [e]) (\<lambda>_. ret (e + 8))
      else bind (relr_words oc bias
             (map (\<lambda>i. base + 8 * of_nat i) (filter (\<lambda>i. bit e (Suc i)) [0..<63])))
             (\<lambda>_. ret (base + 63 * 8)))"
proof -
  have "unat e < 2 ^ 64" by (rule order_less_le_trans [OF unsigned_less]) simp
  then have n: "unat (drop_bit 1 e) < 2 ^ 63" by (simp only: unat_drop_bit_eq) (simp add: drop_bit_eq_div)
  have w: "relr_bitmap oc bias (drop_bit 1 e) base = relr_words oc bias
      (map (\<lambda>i. base + 8 * of_nat i) (filter (\<lambda>i. bit e (Suc i)) [0..<63]))" if "odd e"
    using relr_bitmap_words [OF n, of oc base bias] assms that
    by (simp add: bit_drop_bit_eq comp_def del: upt_Suc)
  have lv: "lift (Val a) = (ret a :: 'h sys \<Rightarrow> u64 out \<times> 'h sys)" for a
    by (simp add: fun_eq_iff)
  have "even e \<Longrightarrow> ck_add oc e 8 = Val (e + 8)" "odd e \<Longrightarrow> ck_add oc base (63 * 8) = Val (base + 63 * 8)"
    using assms by (auto simp: ck_add_def)
  then show ?thesis unfolding relr_entry_def and_1_even
    by (cases "even e") (simp_all only: if_True if_False not_False_eq_True simp_thms w lv relr_words.simps bind_assoc bind_ret)
qed

lemma relr_entries_words:
  "oc \<longrightarrow> relr_fits base es \<Longrightarrow>
     relr_entries oc bias es base = relr_words oc bias (relr_targets base es)"
proof (induction es arbitrary: base)
  case Nil
  then show ?case by simp
next
  case (Cons e es)
  have en: "relr_entry oc bias e base =
     (if even e then bind (relr_words oc bias [e]) (\<lambda>_. ret (e + 8))
      else bind (relr_words oc bias
             (map (\<lambda>i. base + 8 * of_nat i) (filter (\<lambda>i. bit e (Suc i)) [0..<63])))
             (\<lambda>_. ret (base + 63 * 8)))"
    by (rule relr_entry_words) (use Cons.prems in \<open>auto simp: and_1_even\<close>)
  have f: "even e \<Longrightarrow> oc \<longrightarrow> relr_fits (e + 8) es" "odd e \<Longrightarrow> oc \<longrightarrow> relr_fits (base + 63 * 8) es"
    using Cons.prems by (auto simp: and_1_even)
  show ?case
  proof (cases "even e")
    case True
    with Cons.IH [OF f(1)] show ?thesis
      by (simp only: relr_entries.simps en if_True relr_targets.simps and_1_even
          relr_words.simps bind_assoc bind_ret)
  next
    case False
    with Cons.IH [OF f(2)] show ?thesis
      by (simp only: relr_entries.simps en if_False not_False_eq_True relr_targets.simps
          and_1_even relr_words_append bind_assoc bind_ret)
  qed
qed

text \<open>With overflow checks the decoder returns only when they do.\<close>

lemma relr_entries_fits: "relr_entries True bias es base m = (Val u, m') \<Longrightarrow> relr_fits base es"
proof (induction es arbitrary: base m)
  case Nil
  then show ?case by simp
next
  case (Cons e es)
  then obtain b m1 where s: "relr_entry True bias e base m = (Val b, m1)"
    and r: "relr_entries True bias es b m1 = (Val u, m')"
    by (auto simp: bind_def split: prod.splits out.splits)
  show ?case using s Cons.IH [OF r]
    by (auto simp: relr_entry_def and_1_even bind_def lift_def ck_add_def not_le
        split: prod.splits out.splits if_splits)
qed

subsection \<open>Thunks\<close>

text \<open>Thunk \<open>i\<close> lives in the \<open>i\<close>-th word of the trampoline page, under a name of its own.\<close>

definition thunks_wf :: "thunks \<Rightarrow> bool" where
  "thunks_wf ts \<longleftrightarrow> map fst ts = map (\<lambda>i. 0x7f000000 + of_nat i * 8) [0..<length ts] \<and>
     distinct (map snd ts)"

lemma thunk_addr_None: "thunk_addr ts n = None \<longleftrightarrow> n \<notin> set (map snd ts)"
  by (force simp: thunk_addr_def find_None_iff)

lemma resolve_thunk_wf: "thunks_wf ts \<Longrightarrow> thunks_wf (snd (resolve_thunk n ts))"
  by (auto simp: resolve_thunk_def Let_def thunks_wf_def thunk_addr_None split: option.split)

lemma resolve_thunk_names: "set (map snd (snd (resolve_thunk n ts))) = insert n (set (map snd ts))"
  using thunk_addr_None [of ts n]
  by (cases "thunk_addr ts n") (auto simp: resolve_thunk_def Let_def)

lemma apply_reloc_thunks:
  assumes "apply_reloc oc bias syms r ts m = (Val ts', m')"
  shows "ts' = ts \<or> (\<exists>n. ts' = snd (resolve_thunk n ts))"
  using assms
  by (auto simp: apply_reloc_def apply_relative_def apply_import_def apply_defined_def bind_def
      lift_def ret_def Let_def split: prod.splits out.splits option.splits sum.splits
      reloc_target.splits if_splits) (metis snd_conv)+

lemma apply_relocs_wf:
  "apply_relocs oc bias syms rs ts m = (Val ts', m') \<Longrightarrow> thunks_wf ts \<Longrightarrow> thunks_wf ts'"
proof (induction rs arbitrary: ts m)
  case Nil
  then show ?case by (simp add: ret_def)
next
  case (Cons r rs)
  then obtain t1 m1 where s: "apply_reloc oc bias syms r ts m = (Val t1, m1)"
    and r: "apply_relocs oc bias syms rs t1 m1 = (Val ts', m')"
    by (auto simp: bind_def split: prod.splits out.splits)
  have "thunks_wf t1" using apply_reloc_thunks [OF s] Cons.prems(2) resolve_thunk_wf by auto
  with Cons.IH [OF r] show ?case .
qed

lemma import_symbol_wf: "thunks_wf ts \<Longrightarrow> thunks_wf (import_symbol s ts)"
  by (auto simp: import_symbol_def resolve_thunk_wf split: sum.split)

text \<open>The names the undefined symbols of a file ask for.\<close>

definition import_names :: "obj_symbol list \<Rightarrow> string set" where
  "import_names ss = {strip_underscore n |s n. s \<in> set ss \<and> sy_undefined s \<and> sy_name s = Inr n \<and> n \<noteq> []}"

lemma import_symbols:
  "thunks_wf ts \<Longrightarrow> thunks_wf (fold import_symbol ss ts) \<and>
     set (map snd (fold import_symbol ss ts)) = set (map snd ts) \<union> import_names ss"
proof (induction ss arbitrary: ts)
  case Nil
  then show ?case by (simp add: import_names_def)
next
  case (Cons s ss)
  have "set (map snd (import_symbol s ts)) \<union> import_names ss = set (map snd ts) \<union> import_names (s # ss)"
    using resolve_thunk_names
    by (auto simp: import_symbol_def import_names_def split: sum.split)
  with Cons.IH [OF import_symbol_wf [OF Cons.prems, of s]] show ?case by simp
qed

subsection \<open>Universal binaries\<close>

text \<open>Entry \<open>i\<close> of the table of a universal binary: is it an ARM64 slice inside the file?\<close>

definition usable_arch :: "bytes \<Rightarrow> nat \<Rightarrow> bool" where
  "usable_arch raw i \<longleftrightarrow> is_arm64_cpu (be32 raw (8 + 20 * i)) \<and>
     unat (be32 raw (16 + 20 * i)) + unat (be32 raw (20 + 20 * i)) \<le> length raw"

definition arch_slice :: "bytes \<Rightarrow> nat \<Rightarrow> bytes" where
  "arch_slice raw i = slice_at (unat (be32 raw (16 + 20 * i))) (unat (be32 raw (20 + 20 * i))) raw"

lemma fat_entries_find:
  "fat_entries n raw (8 + 20 * j) =
     map_option (arch_slice raw)
       (List.find (usable_arch raw) [j..<min (j + n) ((length raw - 8) div 20)])"
proof (induction n arbitrary: j)
  case 0
  then show ?case by simp
next
  case (Suc n)
  have idx: "8 + 20 * j + 8 = 16 + 20 * j" "8 + 20 * j + 12 = 20 + 20 * j" "8 + 20 * j + 20 = 8 + 20 * Suc j"
    by simp_all
  show ?case
  proof (cases "length raw < 8 + 20 * Suc j")
    case True
    then have "(length raw - 8) div 20 \<le> j" by (intro div_le_mono [of _ "20 * j + 19" 20, simplified]) simp
    then show ?thesis using True by simp
  next
    case False
    then have "Suc j \<le> (length raw - 8) div 20"
      by (simp add: less_eq_div_iff_mult_less_eq)
    then have "[j..<min (j + Suc n) ((length raw - 8) div 20)] =
        j # [Suc j..<min (Suc j + n) ((length raw - 8) div 20)]"
      by (subst upt_rec) simp
    then show ?thesis using False Suc.IH [of "Suc j"]
      by (simp add: idx usable_arch_def arch_slice_def Let_def)
  qed
qed

end
