(* ===== verification/Loader_Stack.thy ===== *)
theory Loader_Stack
  imports Macho Memory_Correct
begin

text \<open>
  The initial stacks the loaders build. The stack lies above \<open>RAW_BASE\<close>, where the memory
  manager takes guest addresses as host addresses: what the loaders need there is an
  accessible area of host memory.
\<close>

unbundle bit_operations_syntax

subsection \<open>Host memory above \<open>RAW_BASE\<close>\<close>

definition raw_area :: "'h sys \<Rightarrow> u64 \<Rightarrow> nat \<Rightarrow> bool" where
  "raw_area m a n \<longleftrightarrow> RAW_BASE \<le> a \<and> unat a + n < 2 ^ 64 \<and>
     (\<forall>i < n. \<exists>b. host_mem m (a + of_nat i) = Some (Cell b True True))"

text \<open>Host memory after the bytes have been stored.\<close>

definition stored :: "hmem \<Rightarrow> u64 \<Rightarrow> bytes \<Rightarrow> hmem" where
  "stored hm a bs =
     (\<lambda>q. if in_range a (length bs) q then Some (Cell (bs ! (unat q - unat a)) True True) else hm q)"

lemma in_range_of_nat:
  "unat a + n < 2 ^ 64 \<Longrightarrow> in_range a n q \<longleftrightarrow> (\<exists>i < n. q = a + of_nat i)"
proof
  assume "in_range a n q"
  then show "\<exists>i < n. q = a + of_nat i" by (rule in_range_split)
next
  assume n: "unat a + n < 2 ^ 64" and "\<exists>i < n. q = a + of_nat i"
  then obtain i where i: "i < n" "q = a + of_nat i" by blast
  have "unat q = unat a + i" using n i unat_add_of_nat [of a i] by simp
  then show "in_range a n q" using i(1) by (simp add: in_range_def word_le_unat)
qed

lemma raw_write:
  assumes "raw_area m a (length bs)"
  shows "mem_write oc a bs m = (Val (), m\<lparr>host_mem := stored (host_mem m) a bs\<rparr>)"
proof -
  have "\<exists>hm'. hstore (host_mem m) a bs = Some hm' \<and>
    (\<forall>q. hm' q = (if a \<le> q \<and> unat q < unat a + length bs
                  then Some (Cell (bs ! (unat q - unat a)) True True) else host_mem m q))"
    by (rule hstore_ok) (use assms in \<open>auto simp: raw_area_def\<close>)
  then have "hstore (host_mem m) a bs = Some (stored (host_mem m) a bs)"
    by (auto simp: stored_def in_range_def fun_eq_iff)
  then show ?thesis using assms by (simp add: mem_write_def raw_area_def)
qed

lemma stored_Nil [simp]: "stored hm a [] = hm"
  by (auto simp: stored_def in_range_def word_le_unat fun_eq_iff)

lemma raw_area_stored:
  assumes "raw_area m a n" and "unat b + length bs < 2 ^ 64"
  shows "raw_area (m\<lparr>host_mem := stored (host_mem m) b bs\<rparr>) a n"
  using assms by (auto simp: raw_area_def stored_def)

lemma raw_area_part:
  assumes "raw_area m a n" and "k + j \<le> n"
  shows "raw_area m (a + of_nat k) j"
proof -
  have u: "unat (a + of_nat k) = unat a + k"
    using assms unat_add_of_nat [of a k] by (simp add: raw_area_def)
  have "\<exists>b. host_mem m (a + of_nat k + of_nat i) = Some (Cell b True True)" if "i < j" for i
    using assms that by (auto simp: raw_area_def add.assoc simp flip: of_nat_add)
  then show ?thesis using assms u by (auto simp: raw_area_def word_le_unat)
qed

lemma stored_append:
  assumes "unat a + length xs + length ys < 2 ^ 64"
  shows "stored (stored hm (a + of_nat (length xs)) ys) a xs = stored hm a (xs @ ys)"
proof -
  have u: "unat (a + of_nat (length xs)) = unat a + length xs"
    using assms unat_add_of_nat [of a "length xs"] by simp
  show ?thesis
    by (auto simp: stored_def fun_eq_iff in_range_def word_le_unat u nth_append diff_diff_left)
qed

lemma raw_read_stored:
  assumes "RAW_BASE \<le> a" and "unat a + length bs < 2 ^ 64"
  shows "mem_read oc (m\<lparr>host_mem := stored hm a bs\<rparr>) a (of_nat (length bs)) = Val bs"
proof -
  have n: "unat (of_nat (length bs) :: u64) = length bs"
    using assms(2) by (simp add: unsigned_of_nat take_bit_nat_eq_self)
  have v: "stored hm a bs (a + of_nat i) = Some (Cell (bs ! i) True True)" if "i < length bs" for i
  proof -
    have "unat (a + of_nat i) = unat a + i" using assms(2) that unat_add_of_nat [of a i] by simp
    with that show ?thesis by (simp add: stored_def in_range_def word_le_unat)
  qed
  have "hload (stored hm a bs) a (length bs) = Some bs"
    by (subst hload_ok) (auto simp: v intro: nth_equalityI)
  then show ?thesis using assms(1) n
    by (auto simp: mem_read_def)
qed

subsection \<open>Pushing words\<close>

abbreviation le_words :: "u64 list \<Rightarrow> bytes" where
  "le_words ws \<equiv> concat (map to_le_bytes ws)"

lemma length_le_words: "length (le_words ws) = 8 * length ws"
  using length_concat_const [of ws to_le_bytes 8] by simp

lemma ck_sub_offset:
  "unat a + k < 2 ^ 64 \<Longrightarrow> ck_sub oc (a + of_nat k) (of_nat k) = Val (a :: u64)"
  using unat_add_of_nat [of a k] by (simp add: ck_sub_def word_less_unat unsigned_of_nat take_bit_nat_eq_self)

lemma push_word_raw:
  assumes "raw_area m a 8"
  shows "push_word oc w (a + 8) m = (Val a, m\<lparr>host_mem := stored (host_mem m) a (to_le_bytes w)\<rparr>)"
proof -
  have "ck_sub oc (a + 8) 8 = Val a"
    using ck_sub_offset [of a 8 oc] assms by (simp add: raw_area_def)
  then show ?thesis using raw_write [of m a "to_le_bytes w" oc] assms
    by (simp add: push_word_def bind_def)
qed

lemma push_words_raw:
  assumes "raw_area m a (8 * length ws)"
  shows "push_words oc ws (a + of_nat (8 * length ws)) m =
    (Val a, m\<lparr>host_mem := stored (host_mem m) a (le_words ws)\<rparr>)"
  using assms
proof (induction ws arbitrary: a)
  case Nil
  then show ?case by simp
next
  case (Cons w ws)
  let ?b = "a + 8"
  have area: "raw_area m ?b (8 * length ws)" "raw_area m a 8"
    using raw_area_part [OF Cons.prems, of 8 "8 * length ws"] raw_area_part [OF Cons.prems, of 0 8]
    by simp_all
  have sz: "unat a + 8 + 8 * length ws < 2 ^ 64" using Cons.prems by (simp add: raw_area_def)
  have u: "unat ?b = unat a + 8" using unat_add_of_nat [of a 8] sz by simp
  let ?m = "m\<lparr>host_mem := stored (host_mem m) ?b (le_words ws)\<rparr>"
  have e: "a + of_nat (8 * length (w # ws)) = ?b + of_nat (8 * length ws)" by simp
  have "push_words oc ws (a + of_nat (8 * length (w # ws))) m = (Val ?b, ?m)"
    unfolding e by (rule Cons.IH [OF area(1)])
  moreover have "raw_area ?m a 8"
    by (rule raw_area_stored [OF area(2)]) (use sz in \<open>simp add: u length_le_words\<close>)
  note push_word_raw [OF this, of oc w]
  moreover have "stored (stored (host_mem m) ?b (le_words ws)) a (to_le_bytes w) =
      stored (host_mem m) a (le_words (w # ws))"
    using stored_append [of a "to_le_bytes w" "le_words ws" "host_mem m"] sz
    by (simp add: length_le_words)
  ultimately show ?case by (simp add: bind_def)
qed

lemma push_words_append: "push_words oc (xs @ ys) sp = bind (push_words oc ys sp) (push_words oc xs)"
  by (induction xs) (simp_all add: bind_def fun_eq_iff split: prod.splits out.splits)

lemma push_word_words: "push_word oc w sp = push_words oc [w] sp"
  by (simp add: bind_def)

subsection \<open>A stack in a raw area\<close>

text \<open>
  The stack pointer has come down from \<open>hi\<close>, and the bytes from it up to \<open>hi\<close> are \<open>img\<close>;
  the rest of the memory is as it was in \<open>m0\<close>.
\<close>

definition on_stack :: "'h sys \<Rightarrow> u64 \<Rightarrow> u64 \<Rightarrow> 'h sys \<Rightarrow> u64 \<Rightarrow> bytes \<Rightarrow> bool" where
  "on_stack m0 lo hi m sp img \<longleftrightarrow>
     raw_area m0 lo (unat hi - unat lo) \<and> lo \<le> sp \<and> unat sp + length img = unat hi \<and>
     m = m0\<lparr>host_mem := stored (host_mem m0) sp img\<rparr>"

lemma on_stack_start:
  "raw_area m lo (unat hi - unat lo) \<Longrightarrow> lo \<le> hi \<Longrightarrow> on_stack m lo hi m hi []"
  by (simp add: on_stack_def)

lemma unat_u64: "unat (a :: u64) < 2 ^ 64"
  by (rule order_less_le_trans [OF unsigned_less]) simp

lemma unat_down: "n \<le> unat (a :: u64) \<Longrightarrow> unat (a - of_nat n) = unat a - n"
proof -
  assume n: "n \<le> unat a"
  then have "unat (of_nat n :: u64) = n" using unat_u64 [of a]
    by (simp add: unsigned_of_nat take_bit_nat_eq_self)
  with n show ?thesis by (simp add: unat_sub word_le_unat)
qed

lemma on_stack_area:
  assumes "on_stack m0 lo hi m sp img" and "unat lo + n \<le> unat sp"
  shows "raw_area m (sp - of_nat n) n"
proof -
  have s: "raw_area m0 lo (unat hi - unat lo)" "unat sp + length img = unat hi"
    and m: "m = m0\<lparr>host_mem := stored (host_mem m0) sp img\<rparr>"
    using assms(1) by (simp_all add: on_stack_def)
  let ?k = "unat sp - n - unat lo"
  have "unat lo + ?k < 2 ^ 64" using assms(2) unat_u64 [of sp] by linarith
  then have lo: "unat (lo + of_nat ?k) = unat sp - n"
    using assms(2) by (subst unat_add_of_nat) linarith+
  moreover have "unat (sp - of_nat n) = unat sp - n" by (rule unat_down) (use assms(2) in simp)
  ultimately have e: "sp - of_nat n = lo + of_nat ?k" by (subst word_unat_eq_iff) (simp only:)
  have "raw_area m0 (lo + of_nat ?k) n"
    by (rule raw_area_part [OF s(1)]) (use s(2) assms(2) in simp)
  then show ?thesis unfolding e m
    by (rule raw_area_stored) (use s(2) unat_u64 [of hi] in simp)
qed

lemma on_stack_write:
  assumes st: "on_stack m0 lo hi m sp img" and n: "unat lo + length bs \<le> unat sp"
  shows "on_stack m0 lo hi (m\<lparr>host_mem := stored (host_mem m) (sp - of_nat (length bs)) bs\<rparr>)
           (sp - of_nat (length bs)) (bs @ img)"
proof -
  have u: "unat (sp - of_nat (length bs)) = unat sp - length bs" using n by (intro unat_down) simp
  have h: "unat sp + length img = unat hi" using st by (simp add: on_stack_def)
  have "stored (stored (host_mem m0) sp img) (sp - of_nat (length bs)) bs =
      stored (host_mem m0) (sp - of_nat (length bs)) (bs @ img)"
    using stored_append [of "sp - of_nat (length bs)" bs img "host_mem m0"] u n h
      unat_u64 [of hi] by simp
  then show ?thesis using st n u by (auto simp: on_stack_def word_le_unat)
qed

text \<open>Moving the pointer down leaves a gap with bytes of the old contents.\<close>

lemma on_stack_skip:
  assumes st: "on_stack m0 lo hi m sp img" and n: "unat lo + n \<le> unat sp"
  shows "\<exists>gap. length gap = n \<and> on_stack m0 lo hi m (sp - of_nat n) (gap @ img)"
proof -
  let ?a = "sp - of_nat n"
  have area: "raw_area m ?a n" by (rule on_stack_area [OF st n])
  then have "\<forall>i. \<exists>b. i < n \<longrightarrow> host_mem m (?a + of_nat i) = Some (Cell b True True)"
    by (simp add: raw_area_def)
  then obtain f where f: "\<And>i. i < n \<Longrightarrow> host_mem m (?a + of_nat i) = Some (Cell (f i) True True)"
    by metis
  let ?gap = "map f [0..<n]"
  have "stored (host_mem m) ?a ?gap = host_mem m"
  proof
    fix q
    show "stored (host_mem m) ?a ?gap q = host_mem m q"
    proof (cases "in_range ?a n q")
      case True
      then obtain i where i: "i < n" "q = ?a + of_nat i" using in_range_split by blast
      have "unat q = unat ?a + i"
        using area i unat_add_of_nat [of ?a i] by (simp add: raw_area_def)
      with True i f show ?thesis by (simp add: stored_def)
    qed (simp add: stored_def)
  qed
  with on_stack_write [OF st, of ?gap] n have "on_stack m0 lo hi m ?a (?gap @ img)" by simp
  moreover have "length ?gap = n" by simp
  ultimately show ?thesis by blast
qed

lemma on_stack_align:
  assumes st: "on_stack m0 lo hi m sp img" and n: "unat lo + 15 \<le> unat sp"
  shows "\<exists>gap. on_stack m0 lo hi m (sp AND NOT 0xf) (gap @ img) \<and>
    unat (sp AND NOT 0xf) mod 16 = 0 \<and> unat sp \<le> unat (sp AND NOT 0xf) + 15 \<and>
    sp AND NOT 0xf = sp - of_nat (length gap) \<and> length gap \<le> 15"
proof -
  have "(0xf :: u64) = mask 4" by (simp add: mask_eq_exp_minus_1)
  then have u: "unat (sp AND NOT 0xf) = unat sp div 16 * 16"
    using and_not_mask_unat [of sp 4] by simp
  have dm: "unat sp = unat sp div 16 * 16 + unat sp mod 16" by simp
  have le: "unat sp mod 16 \<le> 15" by simp
  have "unat (sp - of_nat (unat sp mod 16)) = unat sp div 16 * 16"
    using dm unat_down [of "unat sp mod 16" sp] by linarith
  then have e: "sp AND NOT 0xf = sp - of_nat (unat sp mod 16)"
    by (subst word_unat_eq_iff) (simp only: u)
  obtain gap where "length gap = unat sp mod 16"
    and "on_stack m0 lo hi m (sp - of_nat (unat sp mod 16)) (gap @ img)"
    using on_stack_skip [OF st, of "unat sp mod 16"] n le by (meson add_left_mono le_trans)
  then show ?thesis using e u le dm by (intro exI [of _ gap]) auto
qed

text \<open>Where a byte string lies on the stack.\<close>

definition lies_at :: "bytes \<Rightarrow> u64 \<Rightarrow> u64 \<Rightarrow> bytes \<Rightarrow> bool" where
  "lies_at img sp p bs \<longleftrightarrow> (\<exists>pre post. img = pre @ bs @ post \<and> p = sp + of_nat (length pre))"

lemma lies_at_top [intro]: "lies_at (bs @ img) sp sp bs"
  unfolding lies_at_def by (rule exI [of _ "[]"]) simp

lemma lies_at_push: "lies_at img sp p bs \<Longrightarrow> lies_at (xs @ img) (sp - of_nat (length xs)) p bs"
  unfolding lies_at_def
proof (elim exE conjE)
  fix pre post assume "img = pre @ bs @ post" and "p = sp + of_nat (length pre)"
  then show "\<exists>pre post. xs @ img = pre @ bs @ post \<and>
      p = sp - of_nat (length xs) + of_nat (length pre)"
    by (intro exI [of _ "xs @ pre"] exI [of _ post]) simp
qed

lemma stored_slice:
  assumes "unat sp + length pre + length bs + length post < 2 ^ 64"
  shows "\<exists>hm'. stored hm sp (pre @ bs @ post) = stored hm' (sp + of_nat (length pre)) bs"
proof -
  have u: "unat (sp + of_nat (length pre)) = unat sp + length pre"
    using assms unat_add_of_nat [of sp "length pre"] by simp
  have "stored hm sp (pre @ bs @ post) =
      stored (stored hm sp (pre @ bs @ post)) (sp + of_nat (length pre)) bs"
    by (auto simp: stored_def fun_eq_iff in_range_def word_le_unat u nth_append diff_diff_left)
  then show ?thesis by blast
qed

lemma on_stack_read:
  assumes st: "on_stack m0 lo hi m sp img" and p: "lies_at img sp p bs"
  shows "mem_read oc m p (of_nat (length bs)) = Val bs"
proof -
  obtain pre post where i: "img = pre @ bs @ post" "p = sp + of_nat (length pre)"
    using p by (auto simp: lies_at_def)
  have b: "unat sp + length pre + length bs + length post < 2 ^ 64"
    using st i(1) unat_u64 [of hi] by (simp add: on_stack_def)
  obtain hm' where "stored (host_mem m0) sp img = stored hm' p bs"
    using stored_slice [OF b] i by blast
  then have m: "m = m0\<lparr>host_mem := stored hm' p bs\<rparr>" using st by (simp add: on_stack_def)
  have u: "unat p = unat sp + length pre"
    using b i(2) unat_add_of_nat [of sp "length pre"] by simp
  have "RAW_BASE \<le> lo" "lo \<le> sp" using st by (simp_all add: on_stack_def raw_area_def)
  then have "RAW_BASE \<le> p" using u by (simp add: word_le_unat)
  then show ?thesis unfolding m by (rule raw_read_stored) (use b u in simp)
qed

end
