(* ===== verification/Stack_Abi.thy ===== *)
theory Stack_Abi
  imports Loader_Stack
begin

text \<open>
  What a started program finds on its stack: the words at the stack pointer, the strings
  the pointers among them lead to, and the alignment of the pointer, for the ELF and for
  the Mach-O loader.
\<close>

unbundle bit_operations_syntax

subsection \<open>Pushing on a stack\<close>

lemma ck_sub_down: "n \<le> unat (a :: u64) \<Longrightarrow> ck_sub oc a (of_nat n) = Val (a - of_nat n)"
  using unat_u64 [of a]
  by (simp add: ck_sub_def word_less_unat unsigned_of_nat take_bit_nat_eq_self not_less)

lemma stored_append_up:
  assumes "unat a + length xs + length ys < 2 ^ 64"
  shows "stored (stored hm a xs) (a + of_nat (length xs)) ys = stored hm a (xs @ ys)"
proof -
  have u: "unat (a + of_nat (length xs)) = unat a + length xs"
    using assms unat_add_of_nat [of a "length xs"] by simp
  show ?thesis
    by (auto simp: stored_def fun_eq_iff in_range_def word_le_unat u nth_append diff_diff_left)
qed

lemma push_string_stack:
  assumes st: "on_stack m0 lo hi m sp img" and n: "unat lo + (length s + 1) \<le> unat sp"
  shows "\<exists>m'. push_string oc s sp m = (Val (sp - of_nat (length s + 1)), m') \<and>
    on_stack m0 lo hi m' (sp - of_nat (length s + 1)) ((s @ [0]) @ img)"
proof -
  let ?a = "sp - of_nat (length s + 1)"
  let ?m1 = "m\<lparr>host_mem := stored (host_mem m) ?a s\<rparr>"
  have u: "unat ?a = unat sp - (length s + 1)" by (rule unat_down) (use n in simp)
  have area: "raw_area m ?a (length s + 1)" by (rule on_stack_area [OF st n])
  have c1: "ck_sub oc sp (of_nat (length s) + 1) = Val ?a"
    using ck_sub_down [of "length s + 1" sp oc] n by (simp add: add.commute)
  have w1: "mem_write oc ?a s m = (Val (), ?m1)"
    by (rule raw_write) (use raw_area_part [OF area, of 0 "length s"] in simp)
  have b: "unat ?a + length s + 1 < 2 ^ 64" using u n unat_u64 [of sp] by linarith
  have c2: "ck_add oc ?a (of_nat (length s)) = Val (?a + of_nat (length s))"
    using b by (simp add: ck_add_def unsigned_of_nat take_bit_nat_eq_self)
  have "raw_area ?m1 (?a + of_nat (length s)) 1"
    by (rule raw_area_stored [OF raw_area_part [OF area]]) (use b in simp_all)
  then have w2: "mem_write oc (?a + of_nat (length s)) [0] ?m1 =
      (Val (), ?m1\<lparr>host_mem := stored (host_mem ?m1) (?a + of_nat (length s)) [0]\<rparr>)"
    by (intro raw_write) simp
  have "stored (host_mem ?m1) (?a + of_nat (length s)) [0] = stored (host_mem m) ?a (s @ [0])"
    using stored_append_up [of ?a s "[0]" "host_mem m"] b by simp
  with c1 w1 c2 w2 have "push_string oc s sp m =
      (Val ?a, m\<lparr>host_mem := stored (host_mem m) ?a (s @ [0])\<rparr>)"
    by (simp add: push_string_def bind_def lift_def ret_def)
  with on_stack_write [OF st, of "s @ [0]"] n show ?thesis by simp
qed

definition strings_size :: "bytes list \<Rightarrow> nat" where
  "strings_size ss = sum_list (map (\<lambda>s. length s + 1) ss)"

definition strings_at :: "bytes \<Rightarrow> u64 \<Rightarrow> u64 list \<Rightarrow> bytes list \<Rightarrow> bool" where
  "strings_at img sp ps ss \<longleftrightarrow> list_all2 (\<lambda>p s. lies_at img sp p (s @ [0])) ps ss"

lemma strings_at_push: "strings_at img sp ps ss \<Longrightarrow> strings_at (xs @ img) (sp - of_nat (length xs)) ps ss"
  unfolding strings_at_def by (erule list_all2_mono) (rule lies_at_push)

lemma push_strings_stack:
  assumes "on_stack m0 lo hi m sp img" and "unat lo + strings_size ss \<le> unat sp"
  shows "\<exists>m' sp' ps xs. push_strings oc ss sp m = (Val (sp', ps), m') \<and>
    on_stack m0 lo hi m' sp' (xs @ img) \<and> strings_at (xs @ img) sp' ps ss \<and>
    sp' = sp - of_nat (length xs) \<and> length xs = strings_size ss \<and>
    unat sp' = unat sp - strings_size ss"
  using assms
proof (induction ss arbitrary: m sp img)
  case Nil
  then show ?case by (auto simp: ret_def strings_at_def strings_size_def)
next
  case (Cons s ss)
  let ?a = "sp - of_nat (length s + 1)"
  have n: "unat lo + (length s + 1) + strings_size ss \<le> unat sp"
    using Cons.prems(2) by (simp add: strings_size_def)
  obtain m1 where p: "push_string oc s sp m = (Val ?a, m1)"
    and st1: "on_stack m0 lo hi m1 ?a ((s @ [0]) @ img)"
    using push_string_stack [OF Cons.prems(1), of s oc] n by auto
  have u: "unat ?a = unat sp - (length s + 1)" by (rule unat_down) (use n in simp)
  have n1: "unat lo + strings_size ss \<le> unat ?a" using u n by linarith
  obtain m' sp' ps xs where r: "push_strings oc ss ?a m1 = (Val (sp', ps), m')"
    and st': "on_stack m0 lo hi m' sp' (xs @ (s @ [0]) @ img)"
    and at: "strings_at (xs @ (s @ [0]) @ img) sp' ps ss"
    and xs: "sp' = ?a - of_nat (length xs)" "length xs = strings_size ss"
      "unat sp' = unat ?a - strings_size ss"
    using Cons.IH [OF st1 n1] by blast
  have "lies_at (xs @ (s @ [0]) @ img) sp' ?a (s @ [0])"
    unfolding xs(1) by (intro lies_at_push lies_at_top)
  with at have "strings_at ((xs @ s @ [0]) @ img) sp' (?a # ps) (s # ss)"
    by (simp add: strings_at_def)
  moreover have "on_stack m0 lo hi m' sp' ((xs @ s @ [0]) @ img)" using st' by simp
  moreover have "push_strings oc (s # ss) sp m = (Val (sp', ?a # ps), m')"
    using p r by (simp add: bind_def)
  ultimately show ?case using xs u
    by (intro exI [of _ m'] exI [of _ sp'] exI [of _ "?a # ps"] exI [of _ "xs @ s @ [0]"])
      (simp add: strings_size_def)
qed

lemma push_words_stack:
  assumes st: "on_stack m0 lo hi m sp img" and n: "unat lo + 8 * length ws \<le> unat sp"
  shows "\<exists>m'. push_words oc ws sp m = (Val (sp - of_nat (8 * length ws)), m') \<and>
    on_stack m0 lo hi m' (sp - of_nat (8 * length ws)) (le_words ws @ img)"
proof -
  let ?a = "sp - of_nat (8 * length ws)"
  have "raw_area m ?a (8 * length ws)" by (rule on_stack_area [OF st n])
  from push_words_raw [OF this, of oc]
  have "push_words oc ws sp m = (Val ?a, m\<lparr>host_mem := stored (host_mem m) ?a (le_words ws)\<rparr>)"
    by simp
  with on_stack_write [OF st, of "le_words ws"] n show ?thesis by (simp add: length_le_words)
qed

lemma push_word_stack:
  assumes "on_stack m0 lo hi m sp img" and "unat lo + 8 \<le> unat sp"
  shows "\<exists>m'. push_word oc w sp m = (Val (sp - 8), m') \<and>
    on_stack m0 lo hi m' (sp - 8) (to_le_bytes w @ img)"
  unfolding push_word_words using push_words_stack [OF assms(1), of "[w]" oc] assms(2)
  by (simp del: push_words.simps)

lemma push_bytes_stack:
  assumes st: "on_stack m0 lo hi m sp img" and n: "unat lo + length bs \<le> unat sp"
  shows "\<exists>m'. mem_write oc (sp - of_nat (length bs)) bs m = (Val (), m') \<and>
    on_stack m0 lo hi m' (sp - of_nat (length bs)) (bs @ img)"
  using raw_write [OF on_stack_area [OF st n], of oc] on_stack_write [OF st n] by blast

subsection \<open>The table of the ELF loader\<close>

text \<open>The table is its words, after one word of padding when their number is odd.\<close>

lemma length_auxv_words: "length (concat (map (\<lambda>(k, v). [k, v]) auxv)) = 2 * length auxv"
  by (induction auxv) auto

lemma length_elf_stack_words:
  "length (elf_stack_words ap ep auxv) = 3 + length ap + length ep + 2 * length auxv"
  by (simp add: elf_stack_words_def length_auxv_words)

lemma elf_push_table_words:
  "elf_push_table oc ap ep auxv sp =
     bind (if odd (length (elf_stack_words ap ep auxv)) then lift (ck_sub oc sp 8) else ret sp)
       (push_words oc (elf_stack_words ap ep auxv))"
proof -
  let ?push = "\<lambda>sp. bind (push_words oc (concat (map (\<lambda>(k, v). [k, v]) auxv)) sp) (\<lambda>sp.
         bind (push_word oc 0 sp) (\<lambda>sp. bind (push_words oc ep sp) (\<lambda>sp.
         bind (push_word oc 0 sp) (\<lambda>sp. bind (push_words oc ap sp) (\<lambda>sp.
         push_word oc (of_nat (length ap)) sp)))))"
  have push: "?push = push_words oc (elf_stack_words ap ep auxv)"
    unfolding elf_stack_words_def push_words_append push_word_words
    by (auto simp: fun_eq_iff bind_def split: prod.splits out.splits)
  have n: "1 + length ap + 1 + length ep + 1 + length auxv * 2 =
      length (elf_stack_words ap ep auxv)"
    by (simp add: length_elf_stack_words)
  have odd: "(length (elf_stack_words ap ep auxv) mod 2 \<noteq> 0) =
      odd (length (elf_stack_words ap ep auxv))"
    by (rule dvd_eq_mod_eq_0 [THEN arg_cong, symmetric])
  show ?thesis unfolding elf_push_table_def Let_def n odd push ..
qed

lemma elf_push_table_stack:
  assumes st: "on_stack m0 lo hi m sp img" and al: "unat sp mod 16 = 0"
    and n: "unat lo + 8 * (length (elf_stack_words ap ep auxv) + 1) \<le> unat sp"
  shows "\<exists>sp' xs m'. elf_push_table oc ap ep auxv sp m = (Val sp', m') \<and>
    on_stack m0 lo hi m' sp' (xs @ img) \<and> sp' = sp - of_nat (length xs) \<and>
    unat sp' mod 16 = 0 \<and> lies_at (xs @ img) sp' sp' (le_words (elf_stack_words ap ep auxv))"
proof -
  let ?ws = "elf_stack_words ap ep auxv"
  obtain pad :: nat where pad: "pad = (if odd (length ?ws) then 8 else 0)" by blast
  then have p8: "pad \<le> 8" by simp
  have n: "unat lo + 8 * length ?ws + 8 \<le> unat sp" using n by simp
  let ?sp = "sp - of_nat pad"
  let ?sp' = "?sp - of_nat (8 * length ?ws)"
  have "unat lo + pad \<le> unat sp" using n p8 by linarith
  from on_stack_skip [OF st this] obtain gap where gap: "length gap = pad"
    and st1: "on_stack m0 lo hi m ?sp (gap @ img)" by blast
  have u1: "unat ?sp = unat sp - pad" by (rule unat_down) (use n p8 in linarith)
  then have n1: "unat lo + 8 * length ?ws \<le> unat ?sp" using n p8 by linarith
  from push_words_stack [OF st1 n1, of oc] obtain m' where
    p: "push_words oc ?ws ?sp m = (Val ?sp', m')"
    and st': "on_stack m0 lo hi m' ?sp' (le_words ?ws @ gap @ img)"
    by blast
  have "ck_sub oc sp 8 = Val (sp - 8)" using ck_sub_down [of 8 sp oc] n by simp
  then have run: "elf_push_table oc ap ep auxv sp m = (Val ?sp', m')"
    using p pad unfolding elf_push_table_words
    by (cases "odd (length ?ws)") (simp_all add: bind_def lift_def ret_def)
  have e: "?sp' = sp - of_nat (length (le_words ?ws @ gap))"
    by (simp add: length_le_words gap)
  have "unat ?sp' = unat sp - (pad + 8 * length ?ws)"
    using unat_down [of "8 * length ?ws" ?sp] n1 u1 by simp
  moreover have "(pad + 8 * length ?ws) mod 16 = 0"
    using pad by (cases "odd (length ?ws)") (auto elim!: oddE evenE)
  ultimately have "unat ?sp' mod 16 = 0" using al by (simp add: mod_eq_0_iff_dvd)
  moreover have "lies_at ((le_words ?ws @ gap) @ img) ?sp' ?sp' (le_words ?ws)"
    using lies_at_top [of "le_words ?ws" "gap @ img" ?sp'] by simp
  ultimately show ?thesis using run st' e
    by (intro exI [of _ ?sp'] exI [of _ "le_words ?ws @ gap"] exI [of _ m']) simp
qed

subsection \<open>The stack of the ELF loader\<close>

definition words_at :: "bool \<Rightarrow> 'h sys \<Rightarrow> u64 \<Rightarrow> u64 list \<Rightarrow> bool" where
  "words_at oc m a ws \<longleftrightarrow> mem_read oc m a (of_nat (8 * length ws)) = Val (concat (map to_le_bytes ws))"

definition cstrings_at :: "bool \<Rightarrow> 'h sys \<Rightarrow> u64 list \<Rightarrow> bytes list \<Rightarrow> bool" where
  "cstrings_at oc m ps ss \<longleftrightarrow>
     list_all2 (\<lambda>p s. mem_read oc m p (of_nat (length s + 1)) = Val (s @ [0])) ps ss"

lemma words_at_stack:
  "on_stack m0 lo hi m sp img \<Longrightarrow> lies_at img sp a (le_words ws) \<Longrightarrow> words_at oc m a ws"
  using on_stack_read [of m0 lo hi m sp img a "le_words ws" oc]
  by (simp add: words_at_def length_le_words)

lemma cstrings_at_stack:
  "on_stack m0 lo hi m sp img \<Longrightarrow> strings_at img sp ps ss \<Longrightarrow> cstrings_at oc m ps ss"
  unfolding cstrings_at_def strings_at_def
  by (erule list_all2_mono) (use on_stack_read [of m0 lo hi m sp img _ _ oc] in fastforce)

lemma strings_size_elf_env: "strings_size elf_env = 85"
  by (simp add: strings_size_def elf_env_def str_bytes_def)

lemma stack_limits:
  "unat (STACK_TOP - 0x1000) - unat (STACK_TOP - STACK_SIZE) = 0x1ff000"
  "STACK_TOP - STACK_SIZE \<le> STACK_TOP - 0x1000"
  by (simp_all add: STACK_TOP_def STACK_SIZE_def)

lemma header_field_Val: "i + n \<le> length data \<Longrightarrow> header_field data i n = Val (from_le_bytes (slice_at i n data))"
  by (simp add: header_field_def)

lemma ck_add_fits: "unat a + unat b < 2 ^ LENGTH('a) \<Longrightarrow> ck_add oc a b = Val (a + b :: 'a::len word)"
  by (simp add: ck_add_def)

lemma elf_auxv_Val:
  assumes "58 \<le> length data" and "unat (from_le_bytes (slice_at 32 8 data) :: u64) + 0x400000 < 2 ^ 64"
  shows "\<exists>auxv. elf_auxv oc data entry p r = Val auxv \<and> length auxv = 18"
proof -
  have "ck_add oc 0x400000 (from_le_bytes (slice_at 32 8 data) :: u64) =
      Val (0x400000 + from_le_bytes (slice_at 32 8 data))"
    by (rule ck_add_fits) (use assms(2) in simp)
  then show ?thesis using assms(1) unfolding elf_auxv_def
    by (simp only: header_field_Val bindO.simps) simp
qed

text \<open>
  Below the strings: the platform name, the random bytes, the alignment and the table.
\<close>

lemma elf_stack_tail:
  assumes st3: "on_stack m0 lo hi m3 sp3 img" and ep: "length ep = 5"
    and g3: "unat lo + 8 * length ap + 0x200 \<le> unat sp3"
    and hdr: "58 \<le> length data"
      "unat (from_le_bytes (slice_at 32 8 data) :: u64) + 0x400000 < 2 ^ 64"
  shows "\<exists>plat rnd auxv sp xs m'.
    bind (lift (ck_sub oc sp3 8)) (\<lambda>platform_ptr.
     bind (mem_write oc platform_ptr (str_bytes ''aarch64'' @ [0])) (\<lambda>_.
     bind (lift (ck_sub oc platform_ptr 16)) (\<lambda>random_ptr.
     bind (mem_write oc random_ptr (replicate 16 0x42)) (\<lambda>_.
     bind (lift (elf_auxv oc data entry platform_ptr random_ptr)) (\<lambda>auxv.
     elf_push_table oc ap ep auxv (random_ptr AND NOT 0xf)))))) m3 = (Val sp, m') \<and>
    on_stack m0 lo hi m' sp (xs @ img) \<and> sp = sp3 - of_nat (length xs) \<and>
    unat sp mod 16 = 0 \<and> elf_auxv oc data entry plat rnd = Val auxv \<and>
    lies_at (xs @ img) sp sp (le_words (elf_stack_words ap ep auxv)) \<and>
    lies_at (xs @ img) sp plat (str_bytes ''aarch64'' @ [0]) \<and>
    lies_at (xs @ img) sp rnd (replicate 16 0x42)"
proof -
  let ?plat = "str_bytes ''aarch64'' @ [0]" and ?rnd = "replicate 16 0x42 :: bytes"
  have lens: "length ?plat = 8" "length ?rnd = 16" by (simp_all add: str_bytes_def)
  let ?p = "sp3 - 8" and ?r = "sp3 - 8 - 16"
  have "unat lo + length ?plat \<le> unat sp3" using g3 lens by simp
  from push_bytes_stack [OF st3 this, of oc] obtain m4 where
    w4: "mem_write oc ?p ?plat m3 = (Val (), m4)" and st4: "on_stack m0 lo hi m4 ?p (?plat @ img)"
    using lens by auto
  have c4: "ck_sub oc sp3 8 = Val ?p" using ck_sub_down [of 8 sp3 oc] g3 by simp
  have u4: "unat ?p = unat sp3 - 8" using unat_down [of 8 sp3] g3 by simp
  have g4: "unat lo + 8 * length ap + 0x1f8 \<le> unat ?p" using u4 g3 by simp
  have "unat lo + length ?rnd \<le> unat ?p" using g4 lens by simp
  from push_bytes_stack [OF st4 this, of oc] obtain m5 where
    w5: "mem_write oc ?r ?rnd m4 = (Val (), m5)"
    and st5: "on_stack m0 lo hi m5 ?r (?rnd @ ?plat @ img)" using lens by auto
  have c5: "ck_sub oc ?p 16 = Val ?r" using ck_sub_down [of 16 ?p oc] g4 by simp
  have u5: "unat ?r = unat ?p - 16" using unat_down [of 16 ?p] g4 by simp
  have g5: "unat lo + 8 * length ap + 0x1e8 \<le> unat ?r" using u5 g4 by simp
  obtain auxv where auxv: "elf_auxv oc data entry ?p ?r = Val auxv" "length auxv = 18"
    using elf_auxv_Val [OF hdr] by blast
  let ?al = "?r AND NOT 0xf" and ?ws = "elf_stack_words ap ep auxv"
  have "unat lo + 15 \<le> unat ?r" using g5 by simp
  from on_stack_align [OF st5 this] obtain gap where
    aligned: "on_stack m0 lo hi m5 ?al (gap @ ?rnd @ ?plat @ img) \<and> unat ?al mod 16 = 0 \<and>
      unat ?r \<le> unat ?al + 15 \<and> ?al = ?r - of_nat (length gap) \<and> length gap \<le> 15" by (rule exE)
  note st6 = aligned [THEN conjunct1] and al = aligned [THEN conjunct2, THEN conjunct1]
    and u6 = aligned [THEN conjunct2, THEN conjunct2, THEN conjunct1]
    and gap = aligned [THEN conjunct2, THEN conjunct2, THEN conjunct2, THEN conjunct1]
  have "unat lo + 8 * (length ?ws + 1) \<le> unat ?al"
    using g5 u6 auxv(2) ep by (simp add: length_elf_stack_words)
  from elf_push_table_stack [OF st6 al this, of oc] obtain sp ys m' where
    table: "elf_push_table oc ap ep auxv ?al m5 = (Val sp, m')"
    and st': "on_stack m0 lo hi m' sp (ys @ gap @ ?rnd @ ?plat @ img)"
    and ys: "sp = ?al - of_nat (length ys)" and spal: "unat sp mod 16 = 0"
    and ws: "lies_at (ys @ gap @ ?rnd @ ?plat @ img) sp sp (le_words ?ws)"
    by (elim exE conjE) (rule that)
  have lie: "lies_at (ys @ gap @ x) sp q b" if "lies_at x ?r q b" for x q b
    using lies_at_push [OF lies_at_push [OF that, of gap], of ys] by (simp only: ys gap)
  have "lies_at (?plat @ img) ?p ?p ?plat" by (rule lies_at_top)
  from lies_at_push [OF this, of ?rnd] have "lies_at (?rnd @ ?plat @ img) ?r ?p ?plat"
    using lens by simp
  note lie = lie [OF this] lie [OF lies_at_top]
  let ?xs = "ys @ gap @ ?rnd @ ?plat"
  have xs: "sp = sp3 - of_nat (length ?xs)"
    unfolding ys gap by (simp add: str_bytes_def)
  show ?thesis
    unfolding bind_def lift_def
    by (rule exI [of _ ?p], rule exI [of _ ?r], rule exI [of _ auxv], rule exI [of _ sp],
        rule exI [of _ ?xs], rule exI [of _ m'])
      (use c4 w4 c5 w5 auxv(1) table st' spal ws lie xs in \<open>simp only: append_assoc prod.case out.case simp_thms\<close>)
qed

lemma elf_build_stack_area:
  assumes map: "map_anonymous K (STACK_TOP - STACK_SIZE) STACK_SIZE m = (Val v, m1)"
    and area: "raw_area m1 (STACK_TOP - STACK_SIZE) 0x1ff000"
    and room: "strings_size args + 8 * length args \<le> 0x1fe000"
    and hdr: "58 \<le> length data"
      "unat (from_le_bytes (slice_at 32 8 data) :: u64) + 0x400000 < 2 ^ 64"
  shows "\<exists>sp ap ep plat rnd auxv m'.
    elf_build_stack oc K data entry args m = (Val sp, m') \<and> unat sp mod 16 = 0 \<and>
    elf_auxv oc data entry plat rnd = Val auxv \<and>
    words_at oc' m' sp (elf_stack_words ap ep auxv) \<and>
    cstrings_at oc' m' ap args \<and> cstrings_at oc' m' ep elf_env \<and>
    mem_read oc' m' plat 8 = Val (str_bytes ''aarch64'' @ [0]) \<and>
    mem_read oc' m' rnd 16 = Val (replicate 16 0x42)"
proof -
  let ?lo = "STACK_TOP - STACK_SIZE" and ?hi = "STACK_TOP - 0x1000 :: u64"
  let ?plat = "str_bytes ''aarch64'' @ [0]" and ?rnd = "replicate 16 0x42 :: bytes"
  have lens: "length ?plat = 8" "length ?rnd = 16" by (simp_all add: str_bytes_def)
  have lim: "unat ?hi = unat ?lo + 0x1ff000" by (simp add: STACK_TOP_def STACK_SIZE_def)
  have st1: "on_stack m1 ?lo ?hi m1 ?hi []"
    by (rule on_stack_start) (use area stack_limits in simp_all)
  from push_strings_stack [OF st1, of args oc] room lim obtain m2 sp2 ap x2 where
    r2: "push_strings oc args ?hi m1 = (Val (sp2, ap), m2)"
    and st2: "on_stack m1 ?lo ?hi m2 sp2 (x2 @ [])"
    and at2: "strings_at (x2 @ []) sp2 ap args" and u2: "unat sp2 = unat ?hi - strings_size args"
    by auto
  have g2: "unat ?lo + strings_size elf_env + 8 * length args + 0x200 \<le> unat sp2"
    using u2 lim room by (simp add: strings_size_elf_env)
  have "unat ?lo + strings_size elf_env \<le> unat sp2" using g2 by linarith
  from push_strings_stack [OF st2 this, of oc] obtain m3 sp3 ep x3 where
    r3: "push_strings oc elf_env sp2 m2 = (Val (sp3, ep), m3)"
    and st3: "on_stack m1 ?lo ?hi m3 sp3 (x3 @ x2 @ [])"
    and at3: "strings_at (x3 @ x2 @ []) sp3 ep elf_env" and x3: "sp3 = sp2 - of_nat (length x3)"
    and u3: "unat sp3 = unat sp2 - strings_size elf_env"
    by auto
  have lap: "length ap = length args" "length ep = 5"
    using at2 at3 by (auto simp: strings_at_def elf_env_def dest: list_all2_lengthD)
  have g3: "unat ?lo + 8 * length ap + 0x200 \<le> unat sp3" using u3 g2 lap by linarith
  from elf_stack_tail [OF st3 lap(2) g3 hdr, of oc entry] obtain plat rnd auxv sp xs m' where
    tail: "bind (lift (ck_sub oc sp3 8)) (\<lambda>platform_ptr.
       bind (mem_write oc platform_ptr (str_bytes ''aarch64'' @ [0])) (\<lambda>_.
       bind (lift (ck_sub oc platform_ptr 16)) (\<lambda>random_ptr.
       bind (mem_write oc random_ptr (replicate 16 0x42)) (\<lambda>_.
       bind (lift (elf_auxv oc data entry platform_ptr random_ptr)) (\<lambda>auxv.
       elf_push_table oc ap ep auxv (random_ptr AND NOT 0xf)))))) m3 = (Val sp, m')"
    and st': "on_stack m1 ?lo ?hi m' sp (xs @ x3 @ x2 @ [])"
    and xs: "sp = sp3 - of_nat (length xs)" and al: "unat sp mod 16 = 0"
    and auxv: "elf_auxv oc data entry plat rnd = Val auxv"
    and lie: "lies_at (xs @ x3 @ x2 @ []) sp sp (le_words (elf_stack_words ap ep auxv))"
      "lies_at (xs @ x3 @ x2 @ []) sp plat ?plat" "lies_at (xs @ x3 @ x2 @ []) sp rnd ?rnd"
    by (elim exE conjE) (rule that)
  have run: "elf_build_stack oc K data entry args m = (Val sp, m')"
    using tail unfolding elf_build_stack_def
    by (subst bind_def) (simp only: map prod.case out.case, subst bind_def,
      simp only: r2 prod.case out.case, subst bind_def, simp only: r3 prod.case out.case)
  have "strings_at (x3 @ x2 @ []) sp3 ap args"
    using strings_at_push [OF at2, of x3] by (simp only: x3)
  from strings_at_push [OF this, of xs] strings_at_push [OF at3, of xs]
  have strs: "cstrings_at oc' m' ap args" "cstrings_at oc' m' ep elf_env"
    using cstrings_at_stack [OF st'] by (simp_all only: xs)
  have "mem_read oc' m' plat 8 = Val ?plat" "mem_read oc' m' rnd 16 = Val ?rnd"
    using on_stack_read [OF st' lie(2), of oc'] on_stack_read [OF st' lie(3), of oc'] lens by simp_all
  with run al auxv words_at_stack [OF st' lie(1), of oc'] strs show ?thesis
    by (intro exI conjI) assumption+
qed

subsection \<open>The stack of the Mach-O loader\<close>

definition macho_stack_words :: "u64 list \<Rightarrow> u64 list \<Rightarrow> u64 list \<Rightarrow> u64 list" where
  "macho_stack_words arg_ptrs env_ptrs apple_ptrs =
     [of_nat (length arg_ptrs)] @ arg_ptrs @ [0] @ env_ptrs @ [0] @ apple_ptrs @ [0]"

lemma macho_push_table_words:
  "macho_push_table oc ap ep xp sp = push_words oc (macho_stack_words ap ep xp) sp"
  unfolding macho_push_table_def macho_stack_words_def push_words_append push_word_words
  by (auto simp: bind_def split: prod.splits out.splits)

lemma strings_size_macho_env: "strings_size macho_env = 55"
  by (simp add: strings_size_def macho_env_def str_bytes_def)

definition apple_strings :: "bytes \<Rightarrow> bytes list" where
  "apple_strings path = [from_utf8_lossy path, str_bytes ''pf_random=0123456789abcdef'']"

lemma strings_size_apple: "strings_size (apple_strings path) = length (from_utf8_lossy path) + 28"
  by (simp add: strings_size_def apple_strings_def str_bytes_def)

lemma table_mod_16:
  fixes x n :: nat
  assumes "x mod 16 = 0" and "8 * (n + 9) \<le> x"
  shows "(x - 8 * (n + 9)) mod 16 = (if even n then 8 else 0)"
proof -
  obtain k where k: "x = 16 * k" using assms(1) by auto
  show ?thesis
  proof (cases "even n")
    case True
    then obtain j where "n = 2 * j" by (rule evenE)
    with k assms(2) have "x - 8 * (n + 9) = 8 + 16 * (k - j - 5)" by simp
    with True show ?thesis by simp
  next
    case False
    then obtain j where "n = 2 * j + 1" by (rule oddE)
    with k have "x - 8 * (n + 9) = 16 * (k - j - 5)" by simp
    with False show ?thesis by simp
  qed
qed

lemma macho_table_stack:
  assumes st: "on_stack m0 lo hi m sp img" and ps: "length ep = 3" "length xp = 2"
    and n: "unat lo + 8 * length ap + 0x100 \<le> unat sp"
  shows "\<exists>sp' ys m'. macho_push_table oc ap ep xp (sp AND NOT 0xf) m = (Val sp', m') \<and>
    on_stack m0 lo hi m' sp' (ys @ img) \<and> sp' = sp - of_nat (length ys) \<and>
    unat sp' mod 16 = (if even (length ap) then 8 else 0) \<and>
    lies_at (ys @ img) sp' sp' (le_words (macho_stack_words ap ep xp))"
proof -
  let ?al = "sp AND NOT 0xf" and ?ws = "macho_stack_words ap ep xp"
  have lws: "length ?ws = length ap + 9" using ps by (simp add: macho_stack_words_def)
  have "unat lo + 15 \<le> unat sp" using n by simp
  from on_stack_align [OF st this] obtain gap where
    aligned: "on_stack m0 lo hi m ?al (gap @ img) \<and> unat ?al mod 16 = 0 \<and>
      unat sp \<le> unat ?al + 15 \<and> ?al = sp - of_nat (length gap) \<and> length gap \<le> 15" by (rule exE)
  note st1 = aligned [THEN conjunct1] and al = aligned [THEN conjunct2, THEN conjunct1]
    and u1 = aligned [THEN conjunct2, THEN conjunct2, THEN conjunct1]
    and gap = aligned [THEN conjunct2, THEN conjunct2, THEN conjunct2, THEN conjunct1]
  have n1: "unat lo + 8 * length ?ws \<le> unat ?al" using n u1 lws by simp
  from push_words_stack [OF st1 n1, of oc] obtain m' where
    p: "push_words oc ?ws ?al m = (Val (?al - of_nat (8 * length ?ws)), m')"
    and st': "on_stack m0 lo hi m' (?al - of_nat (8 * length ?ws)) (le_words ?ws @ gap @ img)"
    by blast
  let ?sp' = "?al - of_nat (8 * length ?ws)" and ?ys = "le_words ?ws @ gap"
  have "unat ?sp' = unat ?al - 8 * length ?ws" by (rule unat_down) (use n1 in simp)
  then have "unat ?sp' mod 16 = (if even (length ap) then 8 else 0)"
    using table_mod_16 [OF al, of "length ap"] n1 lws by simp
  moreover have "?sp' = sp - of_nat (length ?ys)" unfolding gap by (simp add: length_le_words)
  moreover have "lies_at (?ys @ img) ?sp' ?sp' (le_words ?ws)"
    using lies_at_top [of "le_words ?ws" "gap @ img" ?sp'] by simp
  moreover have "on_stack m0 lo hi m' ?sp' (?ys @ img)" using st' by simp
  moreover have "macho_push_table oc ap ep xp ?al m = (Val ?sp', m')"
    using p by (simp only: macho_push_table_words)
  ultimately show ?thesis by (intro exI conjI) assumption+
qed

lemma macho_build_stack_area:
  assumes map: "map_anonymous K (STACK_TOP - STACK_SIZE) STACK_SIZE m = (Val v, m1)"
    and area: "raw_area m1 (STACK_TOP - STACK_SIZE) 0x1ff000"
    and room: "strings_size args + length (from_utf8_lossy path) + 8 * length args \<le> 0x1fe000"
  shows "\<exists>sp ap ep xp m'.
    macho_build_stack oc K path args m = (Val sp, m') \<and>
    unat sp mod 16 = (if even (length args) then 8 else 0) \<and>
    words_at oc' m' sp (macho_stack_words ap ep xp) \<and>
    cstrings_at oc' m' ap args \<and> cstrings_at oc' m' ep macho_env \<and>
    cstrings_at oc' m' xp (apple_strings path)"
proof -
  let ?lo = "STACK_TOP - STACK_SIZE" and ?hi = "STACK_TOP - 0x1000 :: u64"
  have lim: "unat ?hi = unat ?lo + 0x1ff000" by (simp add: STACK_TOP_def STACK_SIZE_def)
  have st1: "on_stack m1 ?lo ?hi m1 ?hi []"
    by (rule on_stack_start) (use area stack_limits in simp_all)
  have "unat ?lo + strings_size macho_env \<le> unat ?hi"
    using lim by (simp add: strings_size_macho_env)
  from push_strings_stack [OF st1 this, of oc] obtain m2 sp2 ep x2 where
    r2: "push_strings oc macho_env ?hi m1 = (Val (sp2, ep), m2)"
    and st2: "on_stack m1 ?lo ?hi m2 sp2 (x2 @ [])" and at2: "strings_at (x2 @ []) sp2 ep macho_env"
    and u2: "unat sp2 = unat ?hi - strings_size macho_env"
    by (elim exE conjE) (rule that)
  have g2: "unat ?lo + length (from_utf8_lossy path) + 28 + strings_size args + 8 * length args + 0x100
      \<le> unat sp2"
    using u2 lim room by (simp add: strings_size_macho_env)
  have "unat ?lo + strings_size (apple_strings path) \<le> unat sp2"
    using g2 by (simp add: strings_size_apple)
  from push_strings_stack [OF st2 this, of oc] obtain m3 sp3 xp x3 where
    r3: "push_strings oc (apple_strings path) sp2 m2 = (Val (sp3, xp), m3)"
    and st3: "on_stack m1 ?lo ?hi m3 sp3 (x3 @ x2 @ [])"
    and at3: "strings_at (x3 @ x2 @ []) sp3 xp (apple_strings path)"
    and x3: "sp3 = sp2 - of_nat (length x3)"
    and u3: "unat sp3 = unat sp2 - strings_size (apple_strings path)"
    by (elim exE conjE) (rule that)
  have g3: "unat ?lo + strings_size args + 8 * length args + 0x100 \<le> unat sp3"
    using u3 g2 by (simp add: strings_size_apple)
  then have "unat ?lo + strings_size args \<le> unat sp3" by simp
  from push_strings_stack [OF st3 this, of oc] obtain m4 sp4 ap x4 where
    r4: "push_strings oc args sp3 m3 = (Val (sp4, ap), m4)"
    and st4: "on_stack m1 ?lo ?hi m4 sp4 (x4 @ x3 @ x2 @ [])"
    and at4: "strings_at (x4 @ x3 @ x2 @ []) sp4 ap args"
    and x4: "sp4 = sp3 - of_nat (length x4)" and u4: "unat sp4 = unat sp3 - strings_size args"
    by (elim exE conjE) (rule that)
  have lp: "length ap = length args" "length ep = 3" "length xp = 2"
    using at2 at3 at4
    by (auto simp: strings_at_def macho_env_def apple_strings_def dest: list_all2_lengthD)
  have "unat ?lo + 8 * length ap + 0x100 \<le> unat sp4" using u4 g3 lp by simp
  from macho_table_stack [OF st4 lp(2,3) this, of oc] obtain sp ys m' where
    table: "macho_push_table oc ap ep xp (sp4 AND NOT 0xf) m4 = (Val sp, m')"
    and st': "on_stack m1 ?lo ?hi m' sp (ys @ x4 @ x3 @ x2 @ [])"
    and ys: "sp = sp4 - of_nat (length ys)"
    and al: "unat sp mod 16 = (if even (length ap) then 8 else 0)"
    and ws: "lies_at (ys @ x4 @ x3 @ x2 @ []) sp sp (le_words (macho_stack_words ap ep xp))"
    by (elim exE conjE) (rule that)
  have run: "macho_build_stack oc K path args m = (Val sp, m')"
    unfolding macho_build_stack_def bind_def apple_strings_def [symmetric]
    by (simp only: map r2 r3 r4 table prod.case out.case)
  have at: "cstrings_at oc' m' ps ss" if "strings_at (x4 @ x3 @ x2 @ []) sp4 ps ss" for ps ss
    using cstrings_at_stack [OF st'] strings_at_push [OF that, of ys] by (simp only: ys)
  have at': "cstrings_at oc' m' ps ss" if "strings_at (x3 @ x2 @ []) sp3 ps ss" for ps ss
    using at strings_at_push [OF that, of x4] by (simp only: x4)
  have "strings_at (x3 @ x2 @ []) sp3 ep macho_env"
    using strings_at_push [OF at2, of x3] by (simp only: x3)
  from at' [OF this] at' [OF at3] at [OF at4] run al [unfolded lp(1)]
    words_at_stack [OF st' ws, of oc'] show ?thesis
    by (intro exI conjI) assumption+
qed

end
