(* ===== verification/Loader_Correct.thy ===== *)
theory Loader_Correct
  imports Loader_Image Stack_Abi
begin

text \<open>
  What the loaders promise: the image of a segment, the relocations, the thunks, the
  program break, and the initial stack of both systems.
\<close>

unbundle bit_operations_syntax

subsection \<open>Steps that leave the program break alone\<close>

definition brk_of :: "'h sys \<Rightarrow> u64 \<times> u64 \<times> u64" where
  "brk_of m = (brk_base m, brk_current m, brk_mapped_end m)"

definition keeps_brk :: "('h sys, 'a) comp \<Rightarrow> bool" where
  "keeps_brk c \<longleftrightarrow> (\<forall>m. brk_of (snd (c m)) = brk_of m)"

lemma keeps_brk_bind [intro]:
  "keeps_brk c \<Longrightarrow> (\<And>a. keeps_brk (f a)) \<Longrightarrow> keeps_brk (bind c f)"
  unfolding keeps_brk_def bind_def
  by (auto split: prod.splits out.splits) (metis snd_conv)+

lemma keeps_brk_lift [intro]: "keeps_brk (lift r)" "keeps_brk (ret a)"
  by (simp_all add: keeps_brk_def lift_def ret_def)

lemma keeps_brk_write [intro]: "keeps_brk (mem_write oc a bs)"
  by (auto simp: keeps_brk_def mem_write_def brk_of_def Let_def split: prod.splits option.splits)

lemma keeps_brk_map [intro]: "keeps_brk (map_anonymous K a n)"
  by (auto simp: keeps_brk_def map_anonymous_def map_anonymous_prot_def brk_of_def Let_def
      split: prod.splits sum.splits)

lemma keeps_brk_word [intro]: "keeps_brk (push_word oc w sp)"
  unfolding push_word_def by (intro keeps_brk_bind keeps_brk_lift keeps_brk_write)

lemma keeps_brk_words [intro]: "keeps_brk (push_words oc ws sp)"
  by (induction ws arbitrary: sp) auto

lemma keeps_brk_strings [intro]: "keeps_brk (push_strings oc ss sp)"
  by (induction ss arbitrary: sp) (auto simp: push_string_def intro!: keeps_brk_bind split: prod.split)

lemma keeps_brk_stack: "keeps_brk (elf_build_stack oc K data entry args)"
  unfolding elf_build_stack_def elf_push_table_def Let_def
  by (auto intro!: keeps_brk_bind split: prod.split)

subsection \<open>The break lies above the image\<close>

lemma ck_add_unat:
  "ck_add oc a b = Val c \<Longrightarrow> oc \<or> unat a + unat b < 2 ^ 64 \<Longrightarrow> unat c = unat a + unat (b :: u64)"
  using unat_add_lem [of a b] by (auto simp: ck_add_def split: if_splits)

text \<open>
  The end of a segment and the page after it are addresses. Without overflow checks nothing
  in the loader tests this; with them a load of any other file panics.
\<close>

definition segment_fits :: "u64 \<Rightarrow> obj_segment \<Rightarrow> bool" where
  "segment_fits bias s \<longleftrightarrow>
     (os_size s \<noteq> 0 \<longrightarrow> unat (os_address s) + unat bias + unat (os_size s) + 4096 < 2 ^ 64)"

lemma load_segment_end:
  assumes "load_segment oc K bias seg mx m = (Val e, m')" and "oc \<or> segment_fits bias seg"
  shows "mx \<le> e \<and> (os_size seg \<noteq> 0 \<longrightarrow>
    unat (os_address seg) + unat bias + unat (os_size seg) \<le> unat e) \<and>
    (oc \<or> unat mx + 4096 < 2 ^ 64 \<longrightarrow> oc \<or> unat e + 4096 < 2 ^ 64)"
proof (cases "os_size seg = 0")
  case True
  with assms show ?thesis by (auto simp: load_segment_def bind_def lift_def ret_def Let_def split: out.splits)
next
  case False
  obtain v where v: "ck_add oc (os_address seg) bias = Val v"
    using assms by (auto simp: load_segment_def bind_def lift_def split: out.splits)
  obtain e0 where e0: "ck_add oc v (os_size seg) = Val e0" and e: "e = (if mx < e0 then e0 else mx)"
    using assms(1) v False
    by (auto simp: load_segment_def bind_def lift_def ret_def Let_def split: out.splits prod.splits)
  from assms(2) False have fit: "oc \<or> unat (os_address seg) + unat bias + unat (os_size seg) + 4096 < 2 ^ 64"
    by (simp add: segment_fits_def)
  then have "unat v = unat (os_address seg) + unat bias" using ck_add_unat [OF v] by auto
  moreover from this fit have "unat e0 = unat v + unat (os_size seg)" using ck_add_unat [OF e0] by auto
  ultimately show ?thesis using fit by (auto simp: e word_le_unat word_less_unat)
qed

lemma load_segments_end:
  assumes "load_segments oc K bias ss mx m = (Val e, m')" and "oc \<or> list_all (segment_fits bias) ss"
  shows "mx \<le> e \<and> (\<forall>s \<in> set ss. os_size s \<noteq> 0 \<longrightarrow>
    unat (os_address s) + unat bias + unat (os_size s) \<le> unat e) \<and>
    (oc \<or> unat mx + 4096 < 2 ^ 64 \<longrightarrow> oc \<or> unat e + 4096 < 2 ^ 64)"
  using assms
proof (induction ss arbitrary: mx m)
  case Nil
  then show ?case by (simp add: ret_def)
next
  case (Cons s ss)
  then obtain e1 m1 where s: "load_segment oc K bias s mx m = (Val e1, m1)"
    and r: "load_segments oc K bias ss e1 m1 = (Val e, m')"
    by (auto simp: bind_def split: prod.splits out.splits)
  have "oc \<or> segment_fits bias s" "oc \<or> list_all (segment_fits bias) ss" using Cons.prems(2) by auto
  with load_segment_end [OF s] Cons.IH [OF r] show ?case
    by (simp add: word_le_unat) (meson le_trans)
qed

lemma set_brk_base_ok:
  assumes "set_brk_base oc e m = (Val u, m')" and "oc \<or> unat e + 4096 < 2 ^ 64"
  shows "brk_current m' = brk_base m' \<and> brk_mapped_end m' = brk_base m' \<and>
    unat (brk_base m') mod 4096 = 0 \<and> e \<le> brk_base m'"
proof -
  obtain r where up: "align_up_page oc e = Val r"
    and m': "m' = m\<lparr>brk_base := r, brk_current := r, brk_mapped_end := r\<rparr>"
    using assms by (auto simp: set_brk_base_def bind_def lift_def modify_def split: out.splits)
  have "unat e + 4096 < 2 ^ 64"
    using up assms(2) by (auto simp: align_up_page_def ck_add_def PAGE_SIZE_def split: if_splits)
  from align_up_Val [OF this, of oc] up have "unat r = round_page (unat e)" by auto
  then show ?thesis using round_page_ge [of "unat e"]
    by (simp add: m' word_le_unat round_page_def)
qed

text \<open>Without overflow checks an image that ends in the last page has its break at 0.\<close>

lemma set_brk_base_wraps:
  "set_brk_base False 0xfffffffffffff010 m =
     (Val (), m\<lparr>brk_base := 0, brk_current := 0, brk_mapped_end := 0\<rparr>)"
  by (simp add: set_brk_base_def align_up_page_def PAGE_SIZE_def ck_add_def ck_sub_def bind_def
      lift_def modify_def)

lemma elf_relocate_thunks:
  assumes "elf_relocate oc f m = (Val ts, m')"
  shows "thunks_wf ts"
proof -
  have "thunks_wf []" by (simp add: thunks_wf_def)
  with assms apply_relocs_wf show ?thesis
    by (auto simp: elf_relocate_def bind_def ret_def split: prod.splits out.splits option.splits)
qed

lemma elf_load_data_ok:
  assumes load: "elf_load_data oc K C data args m = (Val lb, m')" and f: "obj_parse C data = Inr f"
    and fits: "oc \<or> list_all (segment_fits (elf_load_bias f)) (of_segments f)"
  shows "elf_entry_point oc f = Val (lb_entry_point lb) \<and>
    lb_target_os lb = Linux \<and> thunks_wf (lb_dynamic_thunks lb) \<and>
    brk_current m' = brk_base m' \<and> brk_mapped_end m' = brk_base m' \<and>
    unat (brk_base m') mod 4096 = 0 \<and>
    (\<forall>s \<in> set (of_segments f). os_size s \<noteq> 0 \<longrightarrow>
       unat (os_address s) + unat (elf_load_bias f) + unat (os_size s) \<le> unat (brk_base m'))"
proof -
  obtain entry e ts sp m1 m2 m3 m4 m5 u where en: "elf_entry_point oc f = Val entry"
    and sg: "load_segments oc K (elf_load_bias f) (of_segments f) 0 m = (Val e, m1)"
    and rl: "elf_relocate oc f m3 = (Val ts, m4)"
    and br: "set_brk_base oc e m4 = (Val u, m5)"
    and st: "elf_build_stack oc K data entry args m5 = (Val sp, m')"
    and lb: "lb = \<lparr>lb_entry_point = entry, lb_stack_pointer = sp, lb_dynamic_thunks = ts,
               lb_target_os = Linux\<rparr>"
    using load f
    by (auto simp: elf_load_data_def load_error_def bind_def lift_def ret_def
        split: out.splits prod.splits sum.splits)
  have "brk_of m' = brk_of m5"
    using keeps_brk_stack [of oc K data entry args] st unfolding keeps_brk_def by (metis snd_conv)
  then have b: "brk_base m' = brk_base m5" "brk_current m' = brk_current m5"
    "brk_mapped_end m' = brk_mapped_end m5" by (simp_all add: brk_of_def)
  note ends = load_segments_end [OF sg fits]
  then have "oc \<or> unat e + 4096 < 2 ^ 64" by simp
  from set_brk_base_ok [OF br this] ends have "\<forall>s \<in> set (of_segments f). os_size s \<noteq> 0 \<longrightarrow>
       unat (os_address s) + unat (elf_load_bias f) + unat (os_size s) \<le> unat (brk_base m5)"
    by (meson le_trans word_le_unat)
  with en lb elf_relocate_thunks [OF rl] set_brk_base_ok [OF br \<open>oc \<or> unat e + 4096 < 2 ^ 64\<close>]
  show ?thesis by (simp add: b)
qed

subsection \<open>A kernel and a file for the witnesses\<close>

text \<open>A kernel that maps the stack where it is asked for and refuses every other mapping.\<close>

definition stack_mmap :: "u64 option \<Rightarrow> u64 \<Rightarrow> prot \<Rightarrow> hmem \<Rightarrow> u64 \<Rightarrow> (string + u64) \<times> hmem \<times> u64" where
  "stack_mmap hint n p hm k =
     (if hint = Some (STACK_TOP - STACK_SIZE) \<and> n = STACK_SIZE
      then (Inr (STACK_TOP - STACK_SIZE),
            (\<lambda>q. if in_range (STACK_TOP - STACK_SIZE) 0x200000 q
                 then Some (Cell 0 (prot_read p) (prot_write p)) else hm q), k)
      else (Inl ''ENOMEM'', hm, k))"

definition stack_os :: "u64 os" where
  "stack_os = bump_os\<lparr>os_mmap := stack_mmap\<rparr>"

definition empty_mem :: "u64 sys" where
  "empty_mem = demo_mem\<lparr>segments := [], host_mem := Map.empty\<rparr>"

lemma write_unmapped:
  assumes "segments m = []" and "a < RAW_BASE" and "bs \<noteq> []"
  shows "mem_write oc a bs m = (Fail (MemoryError ''out of mapped bounds'' a (of_nat (length bs))), m)"
proof -
  have "\<not> 2 ^ LENGTH(64) \<le> unat a + unat (0 :: u64)" using unat_u64 [of a] by simp
  then have "ck_add oc a 0 = Val a" by (simp add: ck_add_def)
  moreover have "\<not> RAW_BASE \<le> a" using assms(2) by simp
  ultimately show ?thesis using assms(1,3)
    by (simp add: mem_write_def write_loop.simps out_of_bounds_def)
qed

lemma stack_map:
  "\<exists>m1. map_anonymous stack_os (STACK_TOP - STACK_SIZE) STACK_SIZE m =
     (Val (STACK_TOP - STACK_SIZE), m1) \<and> raw_area m1 (STACK_TOP - STACK_SIZE) 0x1ff000"
proof -
  let ?a = "STACK_TOP - STACK_SIZE"
  have nz: "?a \<noteq> 0" "STACK_SIZE \<noteq> 0" by (simp_all add: STACK_TOP_def STACK_SIZE_def)
  have "in_range ?a 0x200000 (?a + of_nat i)" if "i < 0x1ff000" for i
  proof -
    have "unat (?a + of_nat i) = unat ?a + i"
      by (rule unat_add_of_nat) (use that in \<open>simp add: STACK_TOP_def STACK_SIZE_def\<close>)
    with that show ?thesis by (simp add: in_range_def word_le_unat)
  qed
  then have "raw_area m1 ?a 0x1ff000"
    if "host_mem m1 = (\<lambda>q. if in_range ?a 0x200000 q then Some (Cell 0 True True) else host_mem m q)"
    for m1 :: "u64 sys"
    using that by (simp add: raw_area_def RAW_BASE_def STACK_TOP_def STACK_SIZE_def)
  then show ?thesis using nz
    by (simp add: map_anonymous_def map_anonymous_prot_def stack_os_def stack_mmap_def Let_def
        cong: if_cong)
qed

text \<open>A file without segments that imports \<open>puts\<close>.\<close>

definition demo_elf :: obj_file where
  "demo_elf = \<lparr>of_segments = [], of_entry = 0x1000, of_symbols = [],
     of_dynamic_symbols = [\<lparr>sy_index = 1, sy_name = Inr ''puts'', sy_address = 0, sy_undefined = True\<rparr>],
     of_dynamic_relocs = Some [(0x2000, \<lparr>rl_target = Target_Symbol 1, rl_addend = 0\<rparr>)],
     of_sections = None\<rparr>"

definition demo_object :: object_crate where
  "demo_object = \<lparr>fs_read = (\<lambda>p. Inr (replicate 64 0)), obj_parse = (\<lambda>d. Inr demo_elf)\<rparr>"

subsection \<open>The image and what comes with it\<close>

text \<open>C13: a segment with data is mapped as it is in the file. On success its bytes are in
  guest memory, followed by zero bytes up to its size, the rest of its whole pages is zero,
  nothing else changed, and the end that the program break starts from covers it. The
  pages must be new and the kernel must map them.\<close>

theorem load_segment_image:
  assumes "wf_mem m" and "mmap_contract K"
    and "os_data seg = Inr data" "length data \<le> unat (os_size seg)" "os_size seg \<noteq> 0"
    and "unat vaddr = unat (os_address seg) + unat bias" "4096 \<le> vaddr"
      "unat vaddr + unat (os_size seg) \<le> unat RAW_BASE"
    and "page_span oc vaddr (os_size seg) = Val (aligned, psz)"
    and "guest_free m aligned psz" and "map_anonymous K aligned psz m = (Val v, m1)"
  shows "\<exists>m'. load_segment oc K bias seg mx m =
      (Val (if mx < vaddr + os_size seg then vaddr + os_size seg else mx), m') \<and> wf_mem m' \<and>
    (\<forall>a. guest_byte m' a =
      (if in_range vaddr (unat (os_size seg)) a
       then Some (segment_bytes seg data ! (unat a - unat vaddr))
       else if in_range aligned (unat psz) a then Some 0 else guest_byte m a))"
  by (rule load_segment_bytes [OF assms])

definition demo_segment :: obj_segment where
  "demo_segment = \<lparr>os_address = 0x4010, os_size = 8, os_data = Inr [1, 2, 3]\<rparr>"

theorem load_segment_image_witness:
  "\<exists>m'. load_segment True bump_os 0 demo_segment 0 demo_mem = (Val 0x4018, m') \<and>
     guest_byte m' 0x4011 = Some 2 \<and> guest_byte m' 0x4015 = Some 0 \<and> guest_byte m' 0x4000 = Some 0 \<and>
     guest_byte m' 0x1000 = Some 7"
proof -
  obtain m1 where r: "map_anonymous_prot bump_os 0x4000 0x1000 (Prot True True True) demo_mem = (Val 0x4000, m1)"
    using demo_map [of "0x1000" "0x4000"] by auto
  have sp: "page_span True 0x4010 (os_size demo_segment) = Val (0x4000, 0x1000)"
    by (simp add: page_span_def demo_segment_def Let_def ck_add_def)
  have fr: "guest_free demo_mem 0x4000 0x1000"
    by (simp add: guest_free_def demo_mem_def demo_seg_def ranges_disjoint_def)
  have "\<exists>m'. load_segment True bump_os 0 demo_segment 0 demo_mem =
      (Val (if 0 < 0x4010 + os_size demo_segment then 0x4010 + os_size demo_segment else 0), m') \<and>
      wf_mem m' \<and> (\<forall>a. guest_byte m' a =
      (if in_range 0x4010 (unat (os_size demo_segment)) a
       then Some (segment_bytes demo_segment [1, 2, 3] ! (unat a - unat (0x4010 :: u64)))
       else if in_range 0x4000 (unat (0x1000 :: u64)) a then Some 0 else guest_byte demo_mem a))"
    by (rule load_segment_image [OF demo_wf bump_os_contract _ _ _ _ _ _ sp fr
          r [folded map_anonymous_def]])
      (simp_all add: demo_segment_def RAW_BASE_def)
  then obtain m' where run: "load_segment True bump_os 0 demo_segment 0 demo_mem =
      (Val (if 0 < 0x4010 + os_size demo_segment then 0x4010 + os_size demo_segment else 0), m')"
    and g: "\<And>a. guest_byte m' a =
      (if in_range 0x4010 (unat (os_size demo_segment)) a
       then Some (segment_bytes demo_segment [1, 2, 3] ! (unat a - unat (0x4010 :: u64)))
       else if in_range 0x4000 (unat (0x1000 :: u64)) a then Some 0 else guest_byte demo_mem a)"
    by (elim exE conjE) (rule that, assumption, drule spec, assumption)
  have "load_segment True bump_os 0 demo_segment 0 demo_mem = (Val 0x4018, m')"
    using run by (simp add: demo_segment_def)
  moreover have "guest_byte m' 0x4011 = Some 2" "guest_byte m' 0x4015 = Some 0"
    "guest_byte m' 0x4000 = Some 0" "guest_byte m' 0x1000 = Some 7"
    by (simp_all add: g demo_segment_def in_range_def segment_bytes_def demo_guest_byte)
  ultimately show ?thesis by blast
qed

text \<open>C28: decoding the packed relative relocations visits exactly the words the format names,
  in order: the address of an even entry, and for an odd entry the words of the base whose
  bit is set, after which the base moves on by 63 words. In a build without overflow checks
  this holds of every list of entries; with them, of the lists whose addresses, and those
  right behind them, stay below the top of the address space, and on every other list the
  decoder does not return.\<close>

theorem relr_entries_decode:
  "((oc \<longrightarrow> relr_fits base es) \<longrightarrow>
      relr_entries oc bias es base = relr_words oc bias (relr_targets base es)) \<and>
   (oc \<and> \<not> relr_fits base es \<longrightarrow> relr_entries oc bias es base m \<noteq> (Val u, m'))"
  using relr_entries_words [of oc base es bias] relr_entries_fits [of bias es base m u m'] by auto

theorem relr_entries_decode_witness:
  "relr_entries True 0x400000 [0x1000, 7] 0 = relr_words True 0x400000 [0x1000, 0x1008, 0x1010]"
proof -
  have f: "relr_fits 0 [0x1000, 7]" by simp
  have t: "relr_targets 0 [0x1000, 7] = [0x1000, 0x1008, 0x1010]" by code_simp
  from relr_entries_decode [of True 0 "[0x1000, 7]" "0x400000", THEN conjunct1] f
  show ?thesis by (simp only: t simp_thms)
qed

text \<open>C31: the thunks of a Mach-O image. Every undefined symbol with a name has one thunk, under
  its name without the leading underscore; thunk \<open>i\<close> is the \<open>i\<close>-th word of the trampoline
  page and no name has two.\<close>

theorem macho_imports_thunks:
  "thunks_wf (macho_imports f) \<and> set (map snd (macho_imports f)) = import_names (of_symbols f)"
  using import_symbols [of "[]" "of_symbols f"] by (simp add: macho_imports_def thunks_wf_def)

text \<open>C30: the slice taken from a universal binary is that of the first ARM64 entry of the
  table whose range lies in the file; only entries the file really has are looked at, and
  without a usable one the file is taken as it is.\<close>

theorem extract_slice_first:
  "extract_arm64_slice raw =
     (if 8 \<le> length raw \<and> (be32 raw 0 = FAT_MAGIC \<or> be32 raw 0 = FAT_CIGAM)
      then (case List.find (usable_arch raw)
                   [0..<min (unat (be32 raw 4)) ((length raw - 8) div 20)] of
              Some i \<Rightarrow> arch_slice raw i
            | None \<Rightarrow> raw)
      else raw)"
  using fat_entries_find [of "unat (be32 raw 4)" raw 0]
  by (auto simp: extract_arm64_slice_def not_less split: option.split)

text \<open>C12: what a successful load of an ELF file returns and leaves: the entry point, the
  Linux personality, a well-formed table of thunks, and a program break that is page
  aligned, empty, and above the end of every segment, whatever the kernel does. With
  overflow checks this holds of every load that returns; without them, of every file whose
  segments end at least a page below the top of the address space (the rounding of the
  break wraps around to 0 for a segment in the top page, and nothing tests for it).\<close>

theorem elf_load_result:
  assumes "elf_load_data oc K C data args m = (Val lb, m')" and "obj_parse C data = Inr f"
    and "oc \<or> list_all (segment_fits (elf_load_bias f)) (of_segments f)"
  shows "elf_entry_point oc f = Val (lb_entry_point lb) \<and>
    lb_target_os lb = Linux \<and> thunks_wf (lb_dynamic_thunks lb) \<and>
    brk_current m' = brk_base m' \<and> brk_mapped_end m' = brk_base m' \<and>
    unat (brk_base m') mod 4096 = 0 \<and>
    (\<forall>s \<in> set (of_segments f). os_size s \<noteq> 0 \<longrightarrow>
       unat (os_address s) + unat (elf_load_bias f) + unat (os_size s) \<le> unat (brk_base m'))"
  by (rule elf_load_data_ok [OF assms])

subsection \<open>The initial stacks\<close>

text \<open>C5: the stack an ELF program starts on. Provided the kernel put the stack where it was
  asked to and the arguments fit, the stack pointer is 16-byte aligned; from it on lie the
  argument count, pointers to the arguments, a null, pointers to the environment, a null
  and the auxiliary vector, and every pointer leads to its string with a terminator (to the
  platform name and to the random bytes, for two entries of the vector).\<close>

theorem elf_stack_contents:
  assumes "map_anonymous K (STACK_TOP - STACK_SIZE) STACK_SIZE m = (Val v, m1)"
    and "raw_area m1 (STACK_TOP - STACK_SIZE) 0x1ff000"
    and "strings_size args + 8 * length args \<le> 0x1fe000"
    and "58 \<le> length data" "unat (from_le_bytes (slice_at 32 8 data) :: u64) + 0x400000 < 2 ^ 64"
  shows "\<exists>sp ap ep plat rnd auxv m'.
    elf_build_stack oc K data entry args m = (Val sp, m') \<and> unat sp mod 16 = 0 \<and>
    elf_auxv oc data entry plat rnd = Val auxv \<and>
    words_at oc' m' sp (elf_stack_words ap ep auxv) \<and>
    cstrings_at oc' m' ap args \<and> cstrings_at oc' m' ep elf_env \<and>
    mem_read oc' m' plat 8 = Val (str_bytes ''aarch64'' @ [0]) \<and>
    mem_read oc' m' rnd 16 = Val (replicate 16 0x42)"
  by (rule elf_build_stack_area [OF assms])

lemma demo_header: "slice_at 32 8 (replicate 64 (0 :: u8)) = replicate 8 0"
  by (simp add: slice_at_def)

lemma demo_phoff: "(from_le_bytes (replicate 8 0) :: u64) = 0"
  by (simp add: from_le_bytes_def numeral_eq_Suc)

lemma demo_header_fits:
  "58 \<le> length (replicate 64 (0 :: u8))"
  "unat (from_le_bytes (slice_at 32 8 (replicate 64 (0 :: u8))) :: u64) + 0x400000 < 2 ^ 64"
  by (simp_all add: demo_header demo_phoff)

theorem elf_stack_contents_witness:
  "\<exists>sp ap ep auxv m'. elf_build_stack True stack_os (replicate 64 0) 0x401000
       [str_bytes ''ls'', str_bytes ''-l''] empty_mem = (Val sp, m') \<and> unat sp mod 16 = 0 \<and>
     words_at True m' sp (elf_stack_words ap ep auxv) \<and>
     cstrings_at True m' ap [str_bytes ''ls'', str_bytes ''-l'']"
proof -
  obtain m1 where r: "map_anonymous stack_os (STACK_TOP - STACK_SIZE) STACK_SIZE empty_mem =
      (Val (STACK_TOP - STACK_SIZE), m1)" and a: "raw_area m1 (STACK_TOP - STACK_SIZE) 0x1ff000"
    using stack_map by blast
  have fits: "strings_size [str_bytes ''ls'', str_bytes ''-l''] +
      8 * length [str_bytes ''ls'', str_bytes ''-l''] \<le> 0x1fe000"
    by (simp add: strings_size_def str_bytes_def)
  from elf_stack_contents [OF r a fits demo_header_fits, of True "0x401000" True] show ?thesis
    by (elim exE conjE) (intro exI conjI, assumption+)
qed

text \<open>C29: the stack a Mach-O program starts on: the argument count, the argument pointers, a
  null, the environment, a null, the apple strings and a null, every pointer leading to its
  string. The stack pointer is 16-byte aligned only when the number of arguments is odd;
  for an even number it is off by eight.\<close>

theorem macho_stack_contents:
  assumes "map_anonymous K (STACK_TOP - STACK_SIZE) STACK_SIZE m = (Val v, m1)"
    and "raw_area m1 (STACK_TOP - STACK_SIZE) 0x1ff000"
    and "strings_size args + length (from_utf8_lossy path) + 8 * length args \<le> 0x1fe000"
  shows "\<exists>sp ap ep xp m'.
    macho_build_stack oc K path args m = (Val sp, m') \<and>
    unat sp mod 16 = (if even (length args) then 8 else 0) \<and>
    words_at oc' m' sp (macho_stack_words ap ep xp) \<and>
    cstrings_at oc' m' ap args \<and> cstrings_at oc' m' ep macho_env \<and>
    cstrings_at oc' m' xp (apple_strings path)"
  by (rule macho_build_stack_area [OF assms])

theorem macho_stack_contents_witness:
  "\<exists>sp m'. macho_build_stack True stack_os [] [str_bytes ''ls'', str_bytes ''-l''] empty_mem =
       (Val sp, m') \<and> unat sp mod 16 = 8"
proof -
  obtain m1 where r: "map_anonymous stack_os (STACK_TOP - STACK_SIZE) STACK_SIZE empty_mem =
      (Val (STACK_TOP - STACK_SIZE), m1)" and a: "raw_area m1 (STACK_TOP - STACK_SIZE) 0x1ff000"
    using stack_map by blast
  have "from_utf8_lossy [] = []" by (simp add: from_utf8_lossy.simps)
  then have "strings_size [str_bytes ''ls'', str_bytes ''-l''] + length (from_utf8_lossy []) +
      8 * length [str_bytes ''ls'', str_bytes ''-l''] \<le> 0x1fe000"
    by (simp add: strings_size_def str_bytes_def)
  from macho_stack_contents [OF r a this, of True True] show ?thesis by auto
qed

theorem elf_load_result_witness:
  "\<exists>lb m'. elf_load_data False stack_os demo_object (replicate 64 0) [] empty_mem = (Val lb, m') \<and>
     lb_entry_point lb = 0x401000 \<and> thunks_wf (lb_dynamic_thunks lb) \<and>
     unat (brk_base m') mod 4096 = 0"
proof -
  let ?m = "empty_mem\<lparr>brk_base := 0, brk_current := 0, brk_mapped_end := 0\<rparr>"
  obtain m1 where r: "map_anonymous stack_os (STACK_TOP - STACK_SIZE) STACK_SIZE ?m =
      (Val (STACK_TOP - STACK_SIZE), m1)" and a: "raw_area m1 (STACK_TOP - STACK_SIZE) 0x1ff000"
    using stack_map by blast
  have fits: "strings_size [] + 8 * length ([] :: bytes list) \<le> 0x1fe000"
    by (simp add: strings_size_def)
  obtain sp m' where st: "elf_build_stack False stack_os (replicate 64 0) 0x401000 [] ?m = (Val sp, m')"
    using elf_stack_contents [OF r a fits demo_header_fits, of False "0x401000" False] by blast
  have sg: "segments empty_mem = []" by (simp add: empty_mem_def)
  have "map_service_pages stack_os empty_mem = (Val (), empty_mem)"
    by (simp add: map_service_pages_def map_anonymous_def map_anonymous_prot_def stack_os_def
        stack_mmap_def STACK_TOP_def STACK_SIZE_def bind_def ignore_err_def)
  moreover have ne: "to_le_bytes (1 :: u32) \<noteq> []" "to_le_bytes (0x7f000000 :: u64) \<noteq> []"
    by (simp_all add: to_le_bytes_def)
  then have "preset_getopt False empty_mem = (Val (), empty_mem)"
    by (simp add: preset_getopt_def write_unmapped [OF sg] RAW_BASE_def bind_def ignore_err_def)
  moreover have "elf_relocate False demo_elf empty_mem = (Val [(0x7f000000, ''puts'')], empty_mem)"
    by (simp add: elf_relocate_def demo_elf_def elf_load_bias_def first_segment_addr_def
        apply_reloc_def apply_import_def data_symbol_def resolve_thunk_def thunk_addr_def poke_def
        write_unmapped [OF sg] ne RAW_BASE_def ck_add_def bind_def lift_def ret_def ignore_err_def)
  moreover have "elf_entry_point False demo_elf = Val 0x401000"
    by (simp add: elf_entry_point_def demo_elf_def elf_load_bias_def first_segment_addr_def ck_add_def)
  moreover have "set_brk_base False 0 empty_mem = (Val (), ?m)"
    by (simp add: set_brk_base_def align_up_page_def PAGE_SIZE_def ck_add_def ck_sub_def bind_def
        lift_def modify_def)
  moreover have sgs: "of_segments demo_elf = []" by (simp add: demo_elf_def)
  ultimately have run: "elf_load_data False stack_os demo_object (replicate 64 0) [] empty_mem =
      (Val \<lparr>lb_entry_point = 0x401000, lb_stack_pointer = sp,
        lb_dynamic_thunks = [(0x7f000000, ''puts'')], lb_target_os = Linux\<rparr>, m')"
    using st by (simp add: elf_load_data_def demo_object_def load_error_def bind_def lift_def ret_def)
  have "obj_parse demo_object (replicate 64 0) = Inr demo_elf" by (simp add: demo_object_def)
  from elf_load_result [OF run this] sgs have "unat (brk_base m') mod 4096 = 0"
    and "thunks_wf [(0x7f000000, ''puts'')]" by auto
  with run show ?thesis by simp
qed


text \<open>The automatic loader decides by the first four bytes: fewer than four are refused, a
  Mach-O or big-endian universal magic goes to the Mach-O loader, everything else to the
  ELF loader, which sees the same bytes although the file is read again.\<close>

theorem auto_load_dispatch:
  "auto_load_file_with_args oc K C path args =
     (case fs_read C path of
        Inl e \<Rightarrow> lift (Fail (LoadError (''Failed to read file: '' @ e)))
      | Inr data \<Rightarrow>
          if length data < 4 then lift (Fail (LoadError ''Binary file too small''))
          else if is_macho_magic (take 4 data)
          then macho_load_data oc K C path (extract_arm64_slice data) args
          else elf_load_data oc K C data args)"
  by (auto simp: auto_load_file_with_args_def elf_load_file_with_args_def
      macho_load_file_with_args_def load_error_def is_macho_magic_def bind_def lift_def fun_eq_iff
      split: sum.split)

end
