(* ===== verification/Vfs.thy ===== *)
theory Vfs
  imports Rust_Std
begin

text \<open>
  \<open>Vfs\<close> of \<open>vfs/mod.rs\<close>: the mock \<open>/etc/passwd\<close>. The user name of the environment, the
  ids of the host process and the writing of a host file are parameters.
\<close>

text \<open>\<open>env::var("USER")\<close> is \<open>None\<close> when the variable is not set or no Unicode text.\<close>

record 'f host =
  host_USER :: "bytes option"
  host_uid :: u32
  host_gid :: u32
  host_temp_dir :: bytes
  host_write :: "bytes \<Rightarrow> bytes \<Rightarrow> 'f \<Rightarrow> (string + unit) \<times> 'f"

definition is_passwd_path :: "string \<Rightarrow> bool" where
  "is_passwd_path path \<longleftrightarrow> path = ''/etc/passwd'' \<or> ends_with path ''etc/passwd''"

definition get_passwd_content :: "('f, 'z) host_scheme \<Rightarrow> bytes" where
  "get_passwd_content H =
     (let user = (case host_USER H of Some u \<Rightarrow> u | None \<Rightarrow> str_bytes ''user'')
      in str_bytes ''root:x:0:0:root:/root:/bin/sh'' @ [0x0A] @ user @ str_bytes '':x:'' @
         str_bytes (show_nat (unat (host_uid H))) @ str_bytes '':'' @
         str_bytes (show_nat (unat (host_gid H))) @ str_bytes '':'' @ user @
         str_bytes '':/home/'' @ user @ str_bytes '':/bin/sh'' @ [0x0A])"

text \<open>\<open>Path::join\<close> with a relative name.\<close>

definition path_join :: "bytes \<Rightarrow> bytes \<Rightarrow> bytes" where
  "path_join dir name =
     (if dir = [] \<or> last dir = 0x2F then dir @ name else dir @ [0x2F] @ name)"

text \<open>The file is written, and whether that worked is not looked at.\<close>

definition prepare_mock_passwd_file :: "('f, 'z) host_scheme \<Rightarrow> 'f \<Rightarrow> bytes \<times> 'f" where
  "prepare_mock_passwd_file H files =
     (let tmp_path = path_join (host_temp_dir H) (str_bytes ''maarch64_passwd'')
      in (tmp_path, snd (host_write H tmp_path (get_passwd_content H) files)))"

end
