(* ===== verification/Vfs_Correct.thy ===== *)
theory Vfs_Correct
  imports Vfs
begin

text \<open>
  The mock \<open>/etc/passwd\<close> read back: its lines and their fields, the numbers in decimal.
\<close>

subsection \<open>Splitting at a separator\<close>

fun split_on :: "'a \<Rightarrow> 'a list \<Rightarrow> 'a list list" where
  "split_on c [] = [[]]"
| "split_on c (x # xs) =
     (if x = c then [] # split_on c xs
      else case split_on c xs of [] \<Rightarrow> [[x]] | w # ws \<Rightarrow> (x # w) # ws)"

lemma split_on_none: "c \<notin> set w \<Longrightarrow> split_on c w = [w]"
  by (induction w) auto

lemma split_on_field: "c \<notin> set w \<Longrightarrow> split_on c (w @ c # rest) = w # split_on c rest"
  by (induction w) auto

lemma split_on_lines:
  "c \<notin> set a \<Longrightarrow> c \<notin> set b \<Longrightarrow> split_on c (a @ c # b @ [c]) = [a, b, []]"
  by (simp add: split_on_field)

subsection \<open>Decimal numbers\<close>

definition read_decimal :: "bytes \<Rightarrow> nat" where
  "read_decimal ds = fold (\<lambda>d n. 10 * n + (unat d - 48)) ds 0"

definition is_digit :: "u8 \<Rightarrow> bool" where
  "is_digit d \<longleftrightarrow> 48 \<le> d \<and> d \<le> 57"

lemma str_bytes_append: "str_bytes (xs @ ys) = str_bytes xs @ str_bytes ys"
  by (simp add: str_bytes_def)

lemma digit_byte:
  assumes "d < 10"
  shows "str_bytes [char_of (d + 48)] = [of_nat (d + 48)]" and "unat (of_nat (d + 48) :: u8) = d + 48"
proof -
  show "unat (of_nat (d + 48) :: u8) = d + 48"
    using assms by (simp only: unsigned_of_nat) (simp add: take_bit_nat_eq_self)
  show "str_bytes [char_of (d + 48)] = [of_nat (d + 48)]"
    using assms by (simp add: str_bytes_def of_char_of)
qed

lemma read_decimal_snoc: "read_decimal (ds @ [d]) = 10 * read_decimal ds + (unat d - 48)"
  by (simp add: read_decimal_def)

lemma digits_aux_decimal:
  assumes "n < 10 ^ Suc k"
  shows "(\<forall>d \<in> set (str_bytes (digits_aux (Suc k) n)). is_digit d) \<and>
    read_decimal (str_bytes (digits_aux (Suc k) n)) = n"
  using assms
proof (induction k arbitrary: n)
  case 0
  then have n: "n < 10" by simp
  have "digits_aux (Suc 0) n = [char_of (n + 48)]" using n by simp
  then show ?case unfolding digit_byte(1) [OF n]
    using digit_byte [OF n] n by (simp only: read_decimal_def is_digit_def word_le_nat_alt) simp
next
  case (Suc k)
  show ?case
  proof (cases "n < 10")
    case True
    have "digits_aux (Suc (Suc k)) n = [char_of (n + 48)]"
      by (subst digits_aux.simps(2)) (simp only: True if_True)
    then show ?thesis
      using digit_byte [OF True] True by (simp only: read_decimal_def is_digit_def word_le_nat_alt) simp
  next
    case False
    have lt: "n div 10 < 10 ^ Suc k" using Suc.prems by simp
    have d: "n mod 10 < 10" by simp
    have e: "str_bytes (digits_aux (Suc (Suc k)) n) =
        str_bytes (digits_aux (Suc k) (n div 10)) @ [of_nat (n mod 10 + 48)]"
      unfolding digit_byte(1) [OF d, symmetric] str_bytes_append [symmetric]
      by (subst digits_aux.simps(2)) (simp only: False if_False)
    have "is_digit (of_nat (n mod 10 + 48))"
      using digit_byte(2) [OF d] by (simp only: is_digit_def word_le_nat_alt) simp
    moreover have "10 * (n div 10) + (n mod 10 + 48 - 48) = n" by simp
    ultimately show ?thesis
      using Suc.IH [OF lt] digit_byte(2) [OF d] unfolding e read_decimal_snoc by auto
  qed
qed

lemma show_nat_decimal:
  "\<forall>d \<in> set (str_bytes (show_nat n)). is_digit d"
  "read_decimal (str_bytes (show_nat n)) = n"
proof -
  have "n < 10 ^ Suc n" by (induction n) simp_all
  from digits_aux_decimal [OF this]
  show "\<forall>d \<in> set (str_bytes (show_nat n)). is_digit d"
    and "read_decimal (str_bytes (show_nat n)) = n" unfolding show_nat_def by blast+
qed

subsection \<open>The file\<close>

text \<open>C39: the mock \<open>/etc/passwd\<close> has two entries, of the superuser and of the host user; split
  at line ends and colons it gives back the name, the user and group ids (in decimal), the
  home directory and the shell, for every user name without separators in it.\<close>

theorem passwd_content_fields:
  assumes "host_USER H = Some user" and "0x3A \<notin> set user" and "0x0A \<notin> set user"
  shows "\<exists>uid gid. map (split_on 0x3A) (split_on 0x0A (get_passwd_content H)) =
      [map str_bytes [''root'', ''x'', ''0'', ''0'', ''root'', ''/root'', ''/bin/sh''],
       [user, str_bytes ''x'', uid, gid, user, str_bytes ''/home/'' @ user, str_bytes ''/bin/sh''],
       [[]]] \<and>
    read_decimal uid = unat (host_uid H) \<and> read_decimal gid = unat (host_gid H)"
proof -
  let ?u = "str_bytes (show_nat (unat (host_uid H)))" and ?g = "str_bytes (show_nat (unat (host_gid H)))"
  have dig: "c \<notin> set (str_bytes (show_nat n))" if "\<not> is_digit c" for c n
    using show_nat_decimal(1) that by blast
  have sep: "\<not> is_digit 0x3A" "\<not> is_digit 0x0A" by (simp_all add: is_digit_def)
  let ?l1 = "str_bytes ''root:x:0:0:root:/root:/bin/sh''"
  let ?l2 = "user @ 0x3A # str_bytes ''x'' @ 0x3A # ?u @ 0x3A # ?g @ 0x3A # user @ 0x3A #
      (str_bytes ''/home/'' @ user) @ 0x3A # str_bytes ''/bin/sh''"
  have "get_passwd_content H = ?l1 @ 0x0A # ?l2 @ 0x0A # []"
    using assms(1) by (simp add: get_passwd_content_def str_bytes_def)
  moreover have "0x0A \<notin> set ?l1" by (simp add: str_bytes_def)
  moreover have "0x0A \<notin> set ?l2" using assms(3) dig sep by (simp add: str_bytes_def)
  ultimately have lines: "split_on 0x0A (get_passwd_content H) = [?l1, ?l2, []]"
    by (simp only: split_on_lines simp_thms)
  have "split_on 0x3A ?l1 = map str_bytes [''root'', ''x'', ''0'', ''0'', ''root'', ''/root'', ''/bin/sh'']"
    by (simp add: str_bytes_def)
  moreover have "0x3A \<notin> set (str_bytes ''x'')" "0x3A \<notin> set (str_bytes ''/home/'' @ user)"
    "0x3A \<notin> set (str_bytes ''/bin/sh'')" using assms(2) by (simp_all add: str_bytes_def)
  then have "split_on 0x3A ?l2 =
      [user, str_bytes ''x'', ?u, ?g, user, str_bytes ''/home/'' @ user, str_bytes ''/bin/sh'']"
    using assms(2) dig sep by (simp only: split_on_field split_on_none simp_thms)
  ultimately have "map (split_on 0x3A) (split_on 0x0A (get_passwd_content H)) =
      [map str_bytes [''root'', ''x'', ''0'', ''0'', ''root'', ''/root'', ''/bin/sh''],
       [user, str_bytes ''x'', ?u, ?g, user, str_bytes ''/home/'' @ user, str_bytes ''/bin/sh''], [[]]]"
    by (simp only: lines list.map split_on.simps(1))
  then show ?thesis
    by (intro exI [of _ ?u] exI [of _ ?g] conjI) (assumption | rule show_nat_decimal(2))+
qed

theorem passwd_content_fields_witness:
  "\<exists>uid gid. map (split_on 0x3A) (split_on 0x0A (get_passwd_content
       \<lparr>host_USER = Some (str_bytes ''bob''), host_uid = 1000, host_gid = 100,
        host_temp_dir = str_bytes ''/tmp'', host_write = (\<lambda>p d f. (Inr (), f :: unit))\<rparr>)) =
      [map str_bytes [''root'', ''x'', ''0'', ''0'', ''root'', ''/root'', ''/bin/sh''],
       [str_bytes ''bob'', str_bytes ''x'', uid, gid, str_bytes ''bob'',
        str_bytes ''/home/'' @ str_bytes ''bob'', str_bytes ''/bin/sh''], [[]]] \<and>
    read_decimal uid = 1000 \<and> read_decimal gid = 100"
proof -
  let ?H = "\<lparr>host_USER = Some (str_bytes ''bob''), host_uid = 1000, host_gid = 100,
        host_temp_dir = str_bytes ''/tmp'', host_write = (\<lambda>p d f. (Inr (), f :: unit))\<rparr>"
  have "0x3A \<notin> set (str_bytes ''bob'')" "0x0A \<notin> set (str_bytes ''bob'')"
    by (simp_all add: str_bytes_def)
  from passwd_content_fields [OF _ this, of ?H] show ?thesis by simp
qed

end
