(* ===== verification/Jit.thy ===== *)
theory Jit
  imports Interp
begin

text \<open>
  The just-in-time compiler of \<open>jit/mod.rs\<close>: the translation of a straight run of
  instructions to the intermediate language of the Cranelift crates, the block cache and
  the drivers. The translation is written over a builder that collects the instructions
  emitted, as \<open>FunctionBuilder\<close> does; what Cranelift makes of a finished body is a
  parameter, and \<open>cranelift_ok\<close> states its documented meaning.
\<close>

unbundle bit_operations_syntax

subsection \<open>The layout of CpuContext\<close>

text \<open>
  Compiled code reads and writes the fields of \<open>CpuContext\<close> through a pointer. The struct
  is \<open>repr(C)\<close>: its fields follow each other in the order of the declaration, each at a
  multiple of its alignment. Up to \<open>exited\<close> at 792 that leaves no gaps; \<open>exit_code\<close> is at
  796, \<open>target_os\<close> at 800, and the size is rounded up to a multiple of 8. A \<open>bool\<close> is a
  byte 0 or 1, the fieldless enum a byte that counts its constructors.
\<close>

definition CTX_SIZE :: nat where "CTX_SIZE = 808"

fun os_byte :: "target_os \<Rightarrow> u8" where
  "os_byte Linux = 0"
| "os_byte Darwin = 1"
| "os_byte Android = 2"

definition os_of_byte :: "u8 \<Rightarrow> target_os option" where
  "os_of_byte b =
     (if b = 0 then Some Linux else if b = 1 then Some Darwin else if b = 2 then Some Android
      else None)"

definition exit_layout :: "cpu_context \<Rightarrow> bytes" where
  "exit_layout c =
     [if ctx_exited c then 1 else 0, 0, 0, 0] @ to_le_bytes (ctx_exit_code c) @
     [os_byte (ctx_target_os c), 0, 0, 0, 0, 0, 0, 0]"

definition ctx_layout :: "cpu_context \<Rightarrow> bytes" where
  "ctx_layout c =
     concat (map to_le_bytes (ctx_x c)) @ to_le_bytes (ctx_sp c) @ to_le_bytes (ctx_pc c) @
     to_le_bytes (ctx_pstate c) @ to_le_bytes (ctx_pad c) @ concat (ctx_v c) @
     to_le_bytes (ctx_tpidr_el0 c) @ exit_layout c"

text \<open>The struct that bytes stand for, if \<open>exited\<close> and \<open>target_os\<close> hold valid values.\<close>

definition ctx_unlayout :: "bytes \<Rightarrow> cpu_context option" where
  "ctx_unlayout bs =
     (if bs ! 792 = 0 \<or> bs ! 792 = 1 then
        map_option (\<lambda>os.
          \<lparr>ctx_x = map (\<lambda>i. from_le_bytes (slice_at (8 * i) 8 bs)) [0..<31],
           ctx_sp = from_le_bytes (slice_at 248 8 bs), ctx_pc = from_le_bytes (slice_at 256 8 bs),
           ctx_pstate = from_le_bytes (slice_at 264 4 bs),
           ctx_pad = from_le_bytes (slice_at 268 4 bs),
           ctx_v = map (\<lambda>i. slice_at (272 + 16 * i) 16 bs) [0..<32],
           ctx_tpidr_el0 = from_le_bytes (slice_at 784 8 bs),
           ctx_exited = (bs ! 792 = 1), ctx_exit_code = from_le_bytes (slice_at 796 4 bs),
           ctx_target_os = os\<rparr>) (os_of_byte (bs ! 800))
      else None)"

text \<open>
  The accesses are made with \<open>MemFlags::trusted\<close>: they must be aligned and inside the
  struct. A load that covers a padding byte reads no defined value.
\<close>

definition ctx_padding :: "nat \<Rightarrow> bool" where
  "ctx_padding i \<longleftrightarrow> 793 \<le> i \<and> i < 796 \<or> 801 \<le> i"

definition ctx_access_ok :: "nat \<Rightarrow> bool" where
  "ctx_access_ok off \<longleftrightarrow> off mod 8 = 0 \<and> off + 8 \<le> CTX_SIZE"

definition ctx_peek :: "nat \<Rightarrow> cpu_context \<Rightarrow> u64 option" where
  "ctx_peek off c =
     (if ctx_access_ok off \<and> list_all (\<lambda>i. \<not> ctx_padding i) [off..<off + 8]
      then Some (from_le_bytes (slice_at off 8 (ctx_layout c))) else None)"

definition ctx_poke :: "nat \<Rightarrow> u64 \<Rightarrow> cpu_context \<Rightarrow> cpu_context option" where
  "ctx_poke off w c =
     (if ctx_access_ok off then ctx_unlayout (copy_at off (to_le_bytes w) (ctx_layout c)) else None)"

subsection \<open>The intermediate language\<close>

text \<open>
  The instructions of Cranelift the program emits. A value is the position of the
  instruction that defines it.
\<close>

datatype ir_type = I64 | F64

datatype ir_binop = Iadd | Isub | Band | Bxor | Ishl | Ushr | Sshr | Fadd | Fsub | Fmul | Fdiv

datatype int_cc = Equal | NotEqual

type_synonym ir_ref = nat

datatype ir_inst =
    Ir_iconst u64
  | Ir_f64const u64
  | Ir_load ir_type nat
  | Ir_store ir_ref nat
  | Ir_binop ir_binop ir_ref ir_ref
  | Ir_icmp int_cc ir_ref ir_ref
  | Ir_select ir_ref ir_ref ir_ref
  | Ir_bitcast ir_type ir_ref
  | Ir_return ir_ref

text \<open>\<open>builder.ins()\<close>: the instruction is appended, its value is returned.\<close>

type_synonym 'a builder = "(ir_inst list, 'a) comp"

definition emit :: "ir_inst \<Rightarrow> ir_ref builder" where
  "emit i = (\<lambda>b. (Val (length b), b @ [i]))"

definition emit_return :: "ir_ref \<Rightarrow> unit builder" where
  "emit_return v = bind (emit (Ir_return v)) (\<lambda>_. ret ())"

subsection \<open>Registers\<close>

primrec jit_imm_to_u64 :: "imm \<Rightarrow> u64" where
  "jit_imm_to_u64 (Signed i) = i"
| "jit_imm_to_u64 (Unsigned u) = u"

fun jit_get_op_reg :: "'x operand \<Rightarrow> reg option" where
  "jit_get_op_reg (O_Reg reg x) = Some reg"
| "jit_get_op_reg (O_QualReg reg x) = Some reg"
| "jit_get_op_reg (O_ShiftReg reg sh x) = Some reg"
| "jit_get_op_reg _ = None"

definition is_zero_reg :: "reg \<Rightarrow> bool" where
  "is_zero_reg reg \<longleftrightarrow> reg = XZR \<or> reg = WZR"

fun jit_is_w_reg :: "reg \<Rightarrow> bool" where
  "jit_is_w_reg (RW n) = (n < 31)"
| "jit_is_w_reg WZR = True"
| "jit_is_w_reg WSP = True"
| "jit_is_w_reg _ = False"

fun jit_v_reg_idx :: "reg \<Rightarrow> nat option" where
  "jit_v_reg_idx (RV n) = (if n < 32 then Some n else None)"
| "jit_v_reg_idx (RD n) = (if n < 32 then Some n else None)"
| "jit_v_reg_idx (RS n) = (if n < 32 then Some n else None)"
| "jit_v_reg_idx (RH n) = (if n < 32 then Some n else None)"
| "jit_v_reg_idx (RB n) = (if n < 32 then Some n else None)"
| "jit_v_reg_idx (RQ n) = (if n < 32 then Some n else None)"
| "jit_v_reg_idx _ = None"

definition get_v_reg_offset :: "reg \<Rightarrow> nat option" where
  "get_v_reg_offset reg = map_option (\<lambda>idx. 272 + idx * 16) (jit_v_reg_idx reg)"

fun jit_reg_idx :: "reg \<Rightarrow> nat option" where
  "jit_reg_idx (RX n) = (if n < 31 then Some n else None)"
| "jit_reg_idx (RW n) = (if n < 31 then Some n else None)"
| "jit_reg_idx SP = Some 31"
| "jit_reg_idx WSP = Some 31"
| "jit_reg_idx _ = None"

definition get_reg_offset :: "reg \<Rightarrow> nat option" where
  "get_reg_offset reg =
     (if reg = SP \<or> reg = WSP then Some 248 else map_option (\<lambda>idx. idx * 8) (jit_reg_idx reg))"

definition load_v_f64 :: "reg \<Rightarrow> ir_ref builder" where
  "load_v_f64 reg =
     (case get_v_reg_offset reg of
        Some off \<Rightarrow> emit (Ir_load F64 off)
      | None \<Rightarrow> emit (Ir_f64const 0))"

definition store_v_f64 :: "reg \<Rightarrow> ir_ref \<Rightarrow> unit builder" where
  "store_v_f64 reg val =
     (case get_v_reg_offset reg of
        Some off \<Rightarrow>
          bind (emit (Ir_store val off)) (\<lambda>_.
          bind (emit (Ir_iconst 0)) (\<lambda>zero64.
          bind (emit (Ir_store zero64 (off + 8))) (\<lambda>_. ret ())))
      | None \<Rightarrow> ret ())"

definition load_reg :: "reg \<Rightarrow> ir_ref builder" where
  "load_reg reg =
     (if is_zero_reg reg then emit (Ir_iconst 0)
      else case get_reg_offset reg of
        Some off \<Rightarrow>
          bind (emit (Ir_load I64 off)) (\<lambda>val.
            if jit_is_w_reg reg
            then bind (emit (Ir_iconst 0xffffffff)) (\<lambda>mask. emit (Ir_binop Band val mask))
            else ret val)
      | None \<Rightarrow> emit (Ir_iconst 0))"

definition store_reg :: "reg \<Rightarrow> ir_ref \<Rightarrow> unit builder" where
  "store_reg reg val =
     (if is_zero_reg reg then ret ()
      else case get_reg_offset reg of
        Some off \<Rightarrow>
          bind (if jit_is_w_reg reg
                then bind (emit (Ir_iconst 0xffffffff)) (\<lambda>mask. emit (Ir_binop Band val mask))
                else ret val) (\<lambda>final_val.
          bind (emit (Ir_store final_val off)) (\<lambda>_. ret ()))
      | None \<Rightarrow> ret ())"

subsection \<open>One instruction\<close>

text \<open>
  What an arm of the \<open>match op\<close> does besides emitting: nothing, \<open>compiled_any = true\<close>,
  \<open>ended_block = true\<close> as well, or the wildcard arm.
\<close>

datatype arm = Skipped | Compiled | Ended | Unhandled

text \<open>\<open>operands.get(i)\<close> and \<open>operands.get(i).and_then(get_op_reg)\<close>.\<close>

definition operand_at :: "'x operand list \<Rightarrow> nat \<Rightarrow> 'x operand option" where
  "operand_at ops i = (if i < length ops then Some (ops ! i) else None)"

definition reg_at :: "'x operand list \<Rightarrow> nat \<Rightarrow> reg option" where
  "reg_at ops i = Option.bind (operand_at ops i) jit_get_op_reg"

text \<open>The immediate of an operand, with and without the labels; 0 for any other operand.\<close>

fun imm_or_zero :: "'x operand \<Rightarrow> u64" where
  "imm_or_zero (O_Imm64 imm sh) = jit_imm_to_u64 imm"
| "imm_or_zero (O_Imm32 imm sh) = jit_imm_to_u64 imm"
| "imm_or_zero _ = 0"

fun imm_label_or_zero :: "'x operand \<Rightarrow> u64" where
  "imm_label_or_zero (O_Label imm) = jit_imm_to_u64 imm"
| "imm_label_or_zero op = imm_or_zero op"

fun label_or :: "u64 \<Rightarrow> 'x operand option \<Rightarrow> u64" where
  "label_or d (Some (O_Label imm)) = jit_imm_to_u64 imm"
| "label_or d _ = d"

definition jit_MOV :: "'x operand list \<Rightarrow> arm builder" where
  "jit_MOV ops =
     (if length ops < 2 then ret Skipped
      else case (jit_get_op_reg (ops ! 0), jit_get_op_reg (ops ! 1)) of
        (Some rd, Some rn) \<Rightarrow>
          bind (load_reg rn) (\<lambda>val_n. bind (store_reg rd val_n) (\<lambda>_. ret Compiled))
      | (Some rd, None) \<Rightarrow>
          bind (emit (Ir_iconst (imm_label_or_zero (ops ! 1)))) (\<lambda>val_imm.
          bind (store_reg rd val_imm) (\<lambda>_. ret Compiled))
      | _ \<Rightarrow> ret Skipped)"

text \<open>ADD and SUB differ in the instruction only.\<close>

definition jit_ADD :: "ir_binop \<Rightarrow> 'x operand list \<Rightarrow> arm builder" where
  "jit_ADD opc ops =
     (if length ops < 3 then ret Skipped
      else case (jit_get_op_reg (ops ! 0), jit_get_op_reg (ops ! 1), jit_get_op_reg (ops ! 2)) of
        (Some rd, Some rn, Some rm) \<Rightarrow>
          bind (load_reg rn) (\<lambda>val_n.
          bind (load_reg rm) (\<lambda>val_m.
          bind (emit (Ir_binop opc val_n val_m)) (\<lambda>res.
          bind (store_reg rd res) (\<lambda>_. ret Compiled))))
      | (Some rd, Some rn, None) \<Rightarrow>
          bind (load_reg rn) (\<lambda>val_n.
          bind (emit (Ir_iconst (imm_label_or_zero (ops ! 2)))) (\<lambda>val_imm.
          bind (emit (Ir_binop opc val_n val_imm)) (\<lambda>res.
          bind (store_reg rd res) (\<lambda>_. ret Compiled))))
      | _ \<Rightarrow> ret Skipped)"

text \<open>AND, EOR, LSL, LSR and ASR: the second source may be missing and is 0 then.\<close>

definition jit_binop :: "ir_binop \<Rightarrow> 'x operand list \<Rightarrow> arm builder" where
  "jit_binop opc ops =
     (case (reg_at ops 0, reg_at ops 1) of
        (Some rd, Some rn) \<Rightarrow>
          bind (load_reg rn) (\<lambda>val_n.
          bind (case reg_at ops 2 of
                  Some rm \<Rightarrow> load_reg rm
                | None \<Rightarrow>
                    emit (Ir_iconst (case operand_at ops 2 of Some op \<Rightarrow> imm_or_zero op | None \<Rightarrow> 0)))
            (\<lambda>val_m.
          bind (emit (Ir_binop opc val_n val_m)) (\<lambda>res.
          bind (store_reg rd res) (\<lambda>_. ret Compiled))))
      | _ \<Rightarrow> ret Skipped)"

definition jit_B :: "'x operand list \<Rightarrow> u64 \<Rightarrow> arm builder" where
  "jit_B ops next_pc =
     bind (emit (Ir_iconst (label_or next_pc (operand_at ops 0)))) (\<lambda>ret_val.
     bind (emit_return ret_val) (\<lambda>_. ret Ended))"

definition jit_RET :: "arm builder" where
  "jit_RET = bind (load_reg (RX 30)) (\<lambda>lr_val. bind (emit_return lr_val) (\<lambda>_. ret Ended))"

definition jit_BL :: "'x operand list \<Rightarrow> u64 \<Rightarrow> arm builder" where
  "jit_BL ops next_pc =
     bind (emit (Ir_iconst next_pc)) (\<lambda>lr_val.
     bind (store_reg (RX 30) lr_val) (\<lambda>_. jit_B ops next_pc))"

definition jit_ADRP :: "'x operand list \<Rightarrow> u64 \<Rightarrow> arm builder" where
  "jit_ADRP ops cur_pc =
     (case (reg_at ops 0, operand_at ops 1) of
        (Some rd, Some target_op) \<Rightarrow>
          bind (emit (Ir_iconst (label_or (cur_pc AND NOT 0xFFF) (Some target_op)))) (\<lambda>val_page.
          bind (store_reg rd val_page) (\<lambda>_. ret Compiled))
      | _ \<Rightarrow> ret Skipped)"

definition jit_CBZ :: "int_cc \<Rightarrow> 'x operand list \<Rightarrow> u64 \<Rightarrow> arm builder" where
  "jit_CBZ cc ops next_pc =
     (case (reg_at ops 0, operand_at ops 1) of
        (Some rt, Some target_op) \<Rightarrow>
          bind (load_reg rt) (\<lambda>val_t.
          bind (emit (Ir_iconst 0)) (\<lambda>zero.
          bind (emit (Ir_icmp cc val_t zero)) (\<lambda>cond.
          bind (emit (Ir_iconst (label_or next_pc (Some target_op)))) (\<lambda>ret_target.
          bind (emit (Ir_iconst next_pc)) (\<lambda>ret_next.
          bind (emit (Ir_select cond ret_target ret_next)) (\<lambda>res_pc.
          bind (emit_return res_pc) (\<lambda>_. ret Ended)))))))
      | _ \<Rightarrow> ret Skipped)"

definition jit_FADD :: "ir_binop \<Rightarrow> 'x operand list \<Rightarrow> arm builder" where
  "jit_FADD opc ops =
     (case (reg_at ops 0, reg_at ops 1, reg_at ops 2) of
        (Some vd, Some vn, Some vm) \<Rightarrow>
          bind (load_v_f64 vn) (\<lambda>val_n.
          bind (load_v_f64 vm) (\<lambda>val_m.
          bind (emit (Ir_binop opc val_n val_m)) (\<lambda>res.
          bind (store_v_f64 vd res) (\<lambda>_. ret Compiled))))
      | _ \<Rightarrow> ret Skipped)"

definition jit_FMOV :: "'x operand list \<Rightarrow> arm builder" where
  "jit_FMOV ops =
     (case (reg_at ops 0, reg_at ops 1) of
        (Some rd, Some rn) \<Rightarrow>
          if jit_v_reg_idx rd \<noteq> None \<and> jit_v_reg_idx rn \<noteq> None then
            bind (load_v_f64 rn) (\<lambda>val_n. bind (store_v_f64 rd val_n) (\<lambda>_. ret Compiled))
          else if jit_v_reg_idx rd \<noteq> None then
            bind (load_reg rn) (\<lambda>val_n.
            bind (emit (Ir_bitcast F64 val_n)) (\<lambda>fval.
            bind (store_v_f64 rd fval) (\<lambda>_. ret Compiled)))
          else if jit_v_reg_idx rn \<noteq> None then
            bind (load_v_f64 rn) (\<lambda>val_n.
            bind (emit (Ir_bitcast I64 val_n)) (\<lambda>ival.
            bind (store_reg rd ival) (\<lambda>_. ret Compiled)))
          else ret Skipped
      | _ \<Rightarrow> ret Skipped)"

text \<open>\<open>tpidr_off\<close>, for every system register.\<close>

definition jit_MRS :: "'x operand list \<Rightarrow> arm builder" where
  "jit_MRS ops =
     (case reg_at ops 0 of
        Some rt \<Rightarrow>
          bind (emit (Ir_load I64 784)) (\<lambda>tpidr_val.
          bind (store_reg rt tpidr_val) (\<lambda>_. ret Compiled))
      | None \<Rightarrow> ret Skipped)"

definition jit_MSR :: "'x operand list \<Rightarrow> arm builder" where
  "jit_MSR ops =
     (case reg_at ops 1 of
        Some rt \<Rightarrow>
          bind (load_reg rt) (\<lambda>val_t.
          bind (emit (Ir_store val_t 784)) (\<lambda>_. ret Compiled))
      | None \<Rightarrow> ret Skipped)"

definition jit_insn :: "'x instruction \<Rightarrow> u64 \<Rightarrow> u64 \<Rightarrow> arm builder" where
  "jit_insn inst cur_pc next_pc =
     (let op = inst_op inst; ops = inst_operands inst
      in if op = Op_sys NOP then ret Compiled
         else if op = Op_arith MOV \<or> op = Op_logic ORR then jit_MOV ops
         else if op = Op_arith ADD then jit_ADD Iadd ops
         else if op = Op_arith SUB then jit_ADD Isub ops
         else if op = Op_branch B then jit_B ops next_pc
         else if op = Op_branch RET then jit_RET
         else if op = Op_branch BL then jit_BL ops next_pc
         else if op = Op_arith ADRP then jit_ADRP ops cur_pc
         else if op = Op_logic AND_op then jit_binop Band ops
         else if op = Op_logic EOR then jit_binop Bxor ops
         else if op = Op_logic LSL then jit_binop Ishl ops
         else if op = Op_logic LSR then jit_binop Ushr ops
         else if op = Op_logic ASR then jit_binop Sshr ops
         else if op = Op_branch CBZ then jit_CBZ Equal ops next_pc
         else if op = Op_branch CBNZ then jit_CBZ NotEqual ops next_pc
         else if op = Op_fp FADD then jit_FADD Fadd ops
         else if op = Op_fp FSUB then jit_FADD Fsub ops
         else if op = Op_fp FMUL then jit_FADD Fmul ops
         else if op = Op_fp FDIV then jit_FADD Fdiv ops
         else if op = Op_fp FMOV then jit_FMOV ops
         else if op = Op_cond MRS then jit_MRS ops
         else if op = Op_cond MSR then jit_MSR ops
         else ret Unhandled)"

subsection \<open>One block\<close>

text \<open>
  The local variables of the \<open>while\<close> loop; the instructions emitted so far are the state
  of the builder.
\<close>

record block_vars =
  bv_cur_pc :: u64
  bv_ended :: bool
  bv_compiled_any :: bool

definition jit_err :: "u64 \<Rightarrow> string \<Rightarrow> error" where
  "jit_err pc reason = InterpreterError pc reason None"

text \<open>\<open>let ret_val = iconst(pc); return_(&[ret_val])\<close>.\<close>

definition return_pc :: "u64 \<Rightarrow> unit builder" where
  "return_pc pc = bind (emit (Ir_iconst pc)) emit_return"

text \<open>\<open>mem.read\<close> and \<open>decode\<close>, whose errors end the loop.\<close>

definition fetch :: "bool \<Rightarrow> 'x bad64 \<Rightarrow> 'h sys \<Rightarrow> u64 \<Rightarrow> 'x instruction option out" where
  "fetch oc D m pc =
     (case mem_read oc m pc 4 of
        Crash k \<Rightarrow> Crash k
      | Fail e \<Rightarrow> Val None
      | Val bs \<Rightarrow>
          (case decode D (from_le_bytes bs) pc of
             Inl e \<Rightarrow> Val None
           | Inr inst \<Rightarrow> Val (Some inst)))"

text \<open>The body of the loop after the fetch, up to \<open>cur_pc += 4\<close>.\<close>

definition block_step :: "bool \<Rightarrow> 'x instruction \<Rightarrow> block_vars \<Rightarrow> block_vars builder" where
  "block_step oc inst bv =
     bind (lift (ck_add oc (bv_cur_pc bv) 4)) (\<lambda>next_pc.
     bind (jit_insn inst (bv_cur_pc bv) next_pc) (\<lambda>a.
       case a of
         Skipped \<Rightarrow> ret (bv\<lparr>bv_cur_pc := next_pc\<rparr>)
       | Compiled \<Rightarrow> ret (bv\<lparr>bv_cur_pc := next_pc, bv_compiled_any := True\<rparr>)
       | Ended \<Rightarrow> ret (bv\<lparr>bv_cur_pc := next_pc, bv_ended := True, bv_compiled_any := True\<rparr>)
       | Unhandled \<Rightarrow>
           bind (return_pc (bv_cur_pc bv)) (\<lambda>_.
             if bv_compiled_any bv then ret (bv\<lparr>bv_cur_pc := next_pc, bv_ended := True\<rparr>)
             else lift (Fail (jit_err (bv_cur_pc bv) ''Unhandled JIT instruction'')))))"

text \<open>The first argument is \<open>max_insts - inst_count\<close>.\<close>

primrec block_loop ::
  "nat \<Rightarrow> bool \<Rightarrow> 'x bad64 \<Rightarrow> 'h sys \<Rightarrow> block_vars \<Rightarrow> block_vars builder" where
  "block_loop 0 oc D m bv = ret bv"
| "block_loop (Suc n) oc D m bv =
     (if bv_ended bv then ret bv
      else bind (lift (fetch oc D m (bv_cur_pc bv))) (\<lambda>f.
        case f of
          None \<Rightarrow> ret bv
        | Some inst \<Rightarrow> bind (block_step oc inst bv) (block_loop n oc D m)))"

definition MAX_INSTS :: nat where "MAX_INSTS = 100"

text \<open>Up to \<open>builder.finalize()\<close>: the value is \<open>end_pc\<close>, the state the finished body.\<close>

definition build_block :: "bool \<Rightarrow> 'x bad64 \<Rightarrow> 'h sys \<Rightarrow> u64 \<Rightarrow> u64 builder" where
  "build_block oc D m start_pc =
     bind (block_loop MAX_INSTS oc D m
             \<lparr>bv_cur_pc = start_pc, bv_ended = False, bv_compiled_any = False\<rparr>) (\<lambda>bv.
       if \<not> bv_compiled_any bv
       then bind (return_pc start_pc) (\<lambda>_.
            lift (Fail (jit_err start_pc ''No JIT instructions compiled'')))
       else bind (if bv_ended bv then ret () else return_pc (bv_cur_pc bv)) (\<lambda>_.
            ret (bv_cur_pc bv)))"

subsection \<open>Code generation and the cache\<close>

text \<open>
  \<open>JITModule\<close>, with its state \<open>'m\<close>: declaring a function under the name made from its start
  address, defining it from a body, finalizing, and the function a finalized id stands
  for. The errors are texts.
\<close>

type_synonym 'h block_fn = "'h machine \<Rightarrow> u64 \<times> 'h machine"

record ('h, 'm) cranelift =
  cl_declare :: "u64 \<Rightarrow> 'm \<Rightarrow> (string + nat) \<times> 'm"
  cl_define :: "nat \<Rightarrow> ir_inst list \<Rightarrow> 'm \<Rightarrow> (string + unit) \<times> 'm"
  cl_finalize :: "'m \<Rightarrow> (string + unit) \<times> 'm"
  cl_function :: "'m \<Rightarrow> nat \<Rightarrow> 'h block_fn"

record 'h compiled_block =
  cb_start_pc :: u64
  cb_end_pc :: u64
  cb_func_ptr :: "'h block_fn"

record ('h, 'm) jit_engine =
  je_module :: 'm
  je_cache :: "u64 \<rightharpoonup> 'h compiled_block"
  je_hits :: u64
  je_misses :: u64

definition jit_new :: "'m \<Rightarrow> ('h, 'm) jit_engine" where
  "jit_new module = \<lparr>je_module = module, je_cache = Map.empty, je_hits = 0, je_misses = 0\<rparr>"

definition is_cached :: "u64 \<Rightarrow> ('h, 'm) jit_engine \<Rightarrow> bool" where
  "is_cached pc e \<longleftrightarrow> je_cache e pc \<noteq> None"

definition get_block :: "bool \<Rightarrow> u64 \<Rightarrow> (('h, 'm) jit_engine, 'h compiled_block option) comp" where
  "get_block oc pc =
     bind (gets (\<lambda>e. is_cached pc e)) (\<lambda>cached.
       if cached
       then bind (gets je_hits) (\<lambda>h. bind (lift (ck_add oc h 1)) (\<lambda>h'.
            bind (modify (\<lambda>e. e\<lparr>je_hits := h'\<rparr>)) (\<lambda>_. gets (\<lambda>e. je_cache e pc))))
       else bind (gets je_misses) (\<lambda>h. bind (lift (ck_add oc h 1)) (\<lambda>h'.
            bind (modify (\<lambda>e. e\<lparr>je_misses := h'\<rparr>)) (\<lambda>_. ret None))))"

text \<open>A call of the module whose error is reported under \<open>what\<close>.\<close>

definition module_call ::
  "u64 \<Rightarrow> string \<Rightarrow> ('m \<Rightarrow> (string + 'a) \<times> 'm) \<Rightarrow> (('h, 'm) jit_engine, 'a) comp" where
  "module_call start_pc what f = (\<lambda>e.
     case f (je_module e) of
       (Inl msg, m) \<Rightarrow> (Fail (jit_err start_pc (what @ msg)), e\<lparr>je_module := m\<rparr>)
     | (Inr a, m) \<Rightarrow> (Val a, e\<lparr>je_module := m\<rparr>))"

text \<open>From the finished body to the cached block.\<close>

definition generate_code ::
  "('h, 'm) cranelift \<Rightarrow> u64 \<Rightarrow> ir_inst list \<Rightarrow> u64 \<Rightarrow>
   (('h, 'm) jit_engine, 'h compiled_block) comp" where
  "generate_code C start_pc body end_pc =
     bind (module_call start_pc ''JIT declare error: '' (cl_declare C start_pc)) (\<lambda>func_id.
     bind (module_call start_pc ''JIT define error: '' (cl_define C func_id body)) (\<lambda>_.
     bind (module_call start_pc ''JIT finalize error: '' (cl_finalize C)) (\<lambda>_.
     bind (gets (\<lambda>e. cl_function C (je_module e) func_id)) (\<lambda>func_ptr.
     let block = \<lparr>cb_start_pc = start_pc, cb_end_pc = end_pc, cb_func_ptr = func_ptr\<rparr>
     in bind (modify (\<lambda>e. e\<lparr>je_cache := (je_cache e)(start_pc \<mapsto> block)\<rparr>)) (\<lambda>_. ret block)))))"

definition compile_and_get ::
  "bool \<Rightarrow> 'x bad64 \<Rightarrow> ('h, 'm) cranelift \<Rightarrow> u64 \<Rightarrow> 'h sys \<Rightarrow>
   (('h, 'm) jit_engine, 'h compiled_block) comp" where
  "compile_and_get oc D C start_pc m =
     bind (gets (\<lambda>e. je_cache e start_pc)) (\<lambda>cached.
       case cached of
         Some block \<Rightarrow> ret block
       | None \<Rightarrow>
           (let (r, body) = build_block oc D m start_pc []
            in bind (lift r) (generate_code C start_pc body)))"

subsection \<open>Execution\<close>

type_synonym ('h, 'm) jit_state = "'h machine \<times> ('h, 'm) jit_engine"

definition on_machine :: "('h machine, 'a) comp \<Rightarrow> (('h, 'm) jit_state, 'a) comp" where
  "on_machine f = (\<lambda>(m, e). case f m of (r, m') \<Rightarrow> (r, (m', e)))"

definition jit_execute ::
  "('h, 'x) env \<Rightarrow> ('h, 'm) cranelift \<Rightarrow> (('h, 'm) jit_state, bool) comp" where
  "jit_execute E C = (\<lambda>(m, e).
     let pc = ctx_pc (ctx m)
     in case compile_and_get (env_oc E) (env_dis E) C pc (mem m) e of
          (Crash k, e') \<Rightarrow> (Crash k, (m, e'))
        | (Fail err, e') \<Rightarrow> on_machine (step E) (m, e')
        | (Val block, e') \<Rightarrow>
            (case cb_func_ptr block m of
               (next_pc, m') \<Rightarrow>
                 if next_pc \<noteq> pc
                 then (Val (\<not> ctx_exited (ctx m')),
                       (m'\<lparr>ctx := (ctx m')\<lparr>ctx_pc := next_pc\<rparr>\<rparr>, e'))
                 else on_machine (step E) (m', e')))"

text \<open>The first argument is \<open>max_chain - count\<close>.\<close>

primrec block_chain ::
  "nat \<Rightarrow> ('h, 'x) env \<Rightarrow> ('h, 'm) cranelift \<Rightarrow> (('h, 'm) jit_state, unit) comp" where
  "block_chain 0 E C = ret ()"
| "block_chain (Suc n) E C =
     bind (gets (\<lambda>s. ctx_exited (ctx (fst s)))) (\<lambda>exited.
       if exited then ret ()
       else bind (jit_execute E C) (\<lambda>res. if res then block_chain n E C else ret ()))"

definition execute_block_chain ::
  "('h, 'x) env \<Rightarrow> ('h, 'm) cranelift \<Rightarrow> nat \<Rightarrow> (('h, 'm) jit_state, bool) comp" where
  "execute_block_chain E C max_chain =
     bind (block_chain max_chain E C) (\<lambda>_. gets (\<lambda>s. \<not> ctx_exited (ctx (fst s))))"

definition step_with_jit ::
  "('h, 'x) env \<Rightarrow> ('h, 'm) cranelift \<Rightarrow> (('h, 'm) jit_state, bool) comp" where
  "step_with_jit E C = execute_block_chain E C 1"

text \<open>\<open>while !ctx.exited { if !execute_block_chain(..)? { break } }\<close>; \<open>None\<close> if it does not end.\<close>

definition jit_round ::
  "('h, 'x) env \<Rightarrow> ('h, 'm) cranelift \<Rightarrow> (('h, 'm) jit_state, bool) comp" where
  "jit_round E C s =
     (if ctx_exited (ctx (fst s)) then (Val False, s) else execute_block_chain E C 1000 s)"

definition run_with_jit ::
  "('h, 'x) env \<Rightarrow> ('h, 'm) cranelift \<Rightarrow> ('h, 'm) jit_state \<Rightarrow>
   (unit out \<times> ('h, 'm) jit_state) option" where
  "run_with_jit E C s = run_loop (jit_round E C) s"

end
