(* ===== verification/Jit_Sem.thy ===== *)
theory Jit_Sem
  imports Jit
begin

text \<open>
  The documented meaning of the Cranelift instructions the compiler emits, the hypothesis
  that the code generator respects it, and a logic for the builder: what a piece of the
  translation emits computes, whatever surrounds it.
\<close>

unbundle bit_operations_syntax

subsection \<open>Values and instructions\<close>

text \<open>Values carry their type; an ill-typed use has no meaning. \<open>V_none\<close>: no result.\<close>

datatype ir_value = V_i64 u64 | V_f64 u64 | V_bool bool | V_none

text \<open>Shift amounts are taken modulo the width of the shifted value.\<close>

fun int_binop :: "ir_binop \<Rightarrow> u64 \<Rightarrow> u64 \<Rightarrow> u64 option" where
  "int_binop Iadd a b = Some (a + b)"
| "int_binop Isub a b = Some (a - b)"
| "int_binop Band a b = Some (a AND b)"
| "int_binop Bxor a b = Some (a XOR b)"
| "int_binop Ishl a b = Some (push_bit (unat b mod 64) a)"
| "int_binop Ushr a b = Some (drop_bit (unat b mod 64) a)"
| "int_binop Sshr a b = Some (signed_drop_bit (unat b mod 64) a)"
| "int_binop _ a b = None"

fun float_binop :: "fpu \<Rightarrow> ir_binop \<Rightarrow> u64 \<Rightarrow> u64 \<Rightarrow> u64 option" where
  "float_binop F Fadd a b = Some (f64_arith F FADD a b)"
| "float_binop F Fsub a b = Some (f64_arith F FSUB a b)"
| "float_binop F Fmul a b = Some (f64_arith F FMUL a b)"
| "float_binop F Fdiv a b = Some (f64_arith F FDIV a b)"
| "float_binop F _ a b = None"

fun cc_holds :: "int_cc \<Rightarrow> u64 \<Rightarrow> u64 \<Rightarrow> bool" where
  "cc_holds Equal a b \<longleftrightarrow> a = b"
| "cc_holds NotEqual a b \<longleftrightarrow> a \<noteq> b"

definition val_at :: "ir_value list \<Rightarrow> ir_ref \<Rightarrow> ir_value" where
  "val_at vals v = (if v < length vals then vals ! v else V_none)"

type_synonym ir_state = "ir_value list \<times> cpu_context"

text \<open>
  The result of an instruction that does not return, and the registers after it: \<open>None\<close> for
  an ill-typed use, for an access outside the struct or out of alignment, for a load of
  padding and for a store that leaves no valid struct.
\<close>

fun ir_eval :: "fpu \<Rightarrow> ir_inst \<Rightarrow> ir_state \<Rightarrow> (ir_value \<times> cpu_context) option" where
  "ir_eval F (Ir_iconst w) (vals, c) = Some (V_i64 w, c)"
| "ir_eval F (Ir_f64const w) (vals, c) = Some (V_f64 w, c)"
| "ir_eval F (Ir_load I64 off) (vals, c) = map_option (\<lambda>w. (V_i64 w, c)) (ctx_peek off c)"
| "ir_eval F (Ir_load F64 off) (vals, c) = map_option (\<lambda>w. (V_f64 w, c)) (ctx_peek off c)"
| "ir_eval F (Ir_store v off) (vals, c) =
     (case val_at vals v of
        V_i64 w \<Rightarrow> map_option (\<lambda>c'. (V_none, c')) (ctx_poke off w c)
      | V_f64 w \<Rightarrow> map_option (\<lambda>c'. (V_none, c')) (ctx_poke off w c)
      | _ \<Rightarrow> None)"
| "ir_eval F (Ir_binop opc a b) (vals, c) =
     (case (val_at vals a, val_at vals b) of
        (V_i64 x, V_i64 y) \<Rightarrow> map_option (\<lambda>r. (V_i64 r, c)) (int_binop opc x y)
      | (V_f64 x, V_f64 y) \<Rightarrow> map_option (\<lambda>r. (V_f64 r, c)) (float_binop F opc x y)
      | _ \<Rightarrow> None)"
| "ir_eval F (Ir_icmp cc a b) (vals, c) =
     (case (val_at vals a, val_at vals b) of
        (V_i64 x, V_i64 y) \<Rightarrow> Some (V_bool (cc_holds cc x y), c)
      | _ \<Rightarrow> None)"
| "ir_eval F (Ir_select cond a b) (vals, c) =
     (case (val_at vals cond, val_at vals a, val_at vals b) of
        (V_bool t, V_i64 x, V_i64 y) \<Rightarrow> Some (V_i64 (if t then x else y), c)
      | _ \<Rightarrow> None)"
| "ir_eval F (Ir_bitcast F64 v) (vals, c) =
     (case val_at vals v of V_i64 w \<Rightarrow> Some (V_f64 w, c) | _ \<Rightarrow> None)"
| "ir_eval F (Ir_bitcast I64 v) (vals, c) =
     (case val_at vals v of V_f64 w \<Rightarrow> Some (V_i64 w, c) | _ \<Rightarrow> None)"
| "ir_eval F (Ir_return v) s = None"

text \<open>
  A body runs to its return, which must be its last instruction; \<open>None\<close> when it is no
  well-formed function that returns an \<open>i64\<close>.
\<close>

fun ir_run :: "fpu \<Rightarrow> ir_inst list \<Rightarrow> ir_state \<Rightarrow> (u64 \<times> cpu_context) option" where
  "ir_run F [] s = None"
| "ir_run F (Ir_return v # is) (vals, c) =
     (if is = [] then (case val_at vals v of V_i64 w \<Rightarrow> Some (w, c) | _ \<Rightarrow> None) else None)"
| "ir_run F (i # is) (vals, c) =
     (case ir_eval F i (vals, c) of
        Some (r, c') \<Rightarrow> ir_run F is (vals @ [r], c')
      | None \<Rightarrow> None)"

definition body_fn :: "fpu \<Rightarrow> ir_inst list \<Rightarrow> 'h block_fn" where
  "body_fn F body m =
     (case ir_run F body ([], ctx m) of
        Some (w, c) \<Rightarrow> (w, m\<lparr>ctx := c\<rparr>)
      | None \<Rightarrow> (0, m))"

text \<open>
  What the crates document: after a function has been defined from a well-formed body and
  finalized, its pointer runs that body.
\<close>

definition cranelift_ok :: "fpu \<Rightarrow> ('h, 'm) cranelift \<Rightarrow> bool" where
  "cranelift_ok F C \<longleftrightarrow>
     (\<forall>fid body m m1 m2 c r.
        cl_define C fid body m = (Inr (), m1) \<longrightarrow> cl_finalize C m1 = (Inr (), m2) \<longrightarrow>
        ir_run F body ([], ctx c) = Some r \<longrightarrow> cl_function C m2 fid c = (fst r, c\<lparr>ctx := snd r\<rparr>))"

text \<open>An instance for evaluation: the module keeps the bodies it is given.\<close>

definition demo_cranelift :: "fpu \<Rightarrow> ('h, ir_inst list list) cranelift" where
  "demo_cranelift F =
     \<lparr>cl_declare = (\<lambda>pc m. (Inr (length m), m @ [[]])),
      cl_define = (\<lambda>fid body m. if fid < length m then (Inr (), m[fid := body])
                                else (Inl ''undeclared'', m)),
      cl_finalize = (\<lambda>m. (Inr (), m)),
      cl_function = (\<lambda>m fid. body_fn F (m ! fid))\<rparr>"

lemma demo_cranelift_ok: "cranelift_ok F (demo_cranelift F)"
  by (auto simp: cranelift_ok_def demo_cranelift_def body_fn_def split: if_splits)

subsection \<open>Straight-line pieces\<close>

fun ir_exec :: "fpu \<Rightarrow> ir_inst list \<Rightarrow> ir_state \<Rightarrow> ir_state option" where
  "ir_exec F [] s = Some s"
| "ir_exec F (i # is) (vals, c) =
     (case ir_eval F i (vals, c) of
        Some (r, c') \<Rightarrow> ir_exec F is (vals @ [r], c')
      | None \<Rightarrow> None)"

lemma ir_exec_append:
  "ir_exec F (xs @ ys) s = Option.bind (ir_exec F xs s) (ir_exec F ys)"
proof (induction xs arbitrary: s)
  case Nil
  then show ?case by simp
next
  case (Cons i xs)
  then show ?case by (cases s) (auto split: option.splits)
qed

lemma ir_run_no_return: "(\<And>v. i \<noteq> Ir_return v) \<Longrightarrow> ir_run F (i # is) (vals, c) =
    (case ir_eval F i (vals, c) of Some (r, c') \<Rightarrow> ir_run F is (vals @ [r], c') | None \<Rightarrow> None)"
  by (cases i) auto

lemma ir_eval_no_return: "ir_eval F i s = Some r \<Longrightarrow> i \<noteq> Ir_return v"
  by auto

lemma ir_run_exec: "ir_exec F xs s = Some t \<Longrightarrow> ir_run F (xs @ ys) s = ir_run F ys t"
proof (induction xs arbitrary: s)
  case Nil
  then show ?case by simp
next
  case (Cons i xs)
  obtain vals c where s: "s = (vals, c)" by fastforce
  from Cons.prems s obtain r c' where r: "ir_eval F i (vals, c) = Some (r, c')"
    and t: "ir_exec F xs (vals @ [r], c') = Some t" by (auto split: option.splits)
  have "ir_run F ((i # xs) @ ys) s = ir_run F (xs @ ys) (vals @ [r], c')"
    using r ir_eval_no_return [OF r] by (simp add: s ir_run_no_return)
  with Cons.IH [OF t] show ?case by simp
qed

lemma length_ir_exec: "ir_exec F xs (vals, c) = Some (vals', c') \<Longrightarrow> length vals' = length vals + length xs"
  by (induction xs arbitrary: vals c) (auto split: option.splits)

subsection \<open>A logic for the builder\<close>

text \<open>
  \<open>emits F P f Q\<close>: started with the instructions \<open>b\<close>, \<open>f\<close> succeeds and appends a piece
  that, run on values for \<open>b\<close> and registers that satisfy \<open>P\<close>, does not get stuck and
  leaves values and registers that satisfy \<open>Q\<close> of the result of \<open>f\<close>.
\<close>

definition emits ::
  "fpu \<Rightarrow> (ir_state \<Rightarrow> bool) \<Rightarrow> 'a builder \<Rightarrow> ('a \<Rightarrow> ir_state \<Rightarrow> bool) \<Rightarrow> bool" where
  "emits F P f Q \<longleftrightarrow>
     (\<forall>b. \<exists>a xs. f b = (Val a, b @ xs) \<and>
        (\<forall>vals c. length vals = length b \<longrightarrow> P (vals, c) \<longrightarrow>
           (\<exists>t. ir_exec F xs (vals, c) = Some t \<and> Q a t)))"

lemma emitsE:
  assumes "emits F P f Q"
  obtains a xs where "f b = (Val a, b @ xs)"
    and "\<And>vals c. length vals = length b \<Longrightarrow> P (vals, c) \<Longrightarrow>
      \<exists>t. ir_exec F xs (vals, c) = Some t \<and> Q a t"
  using assms unfolding emits_def by metis

lemma emits_ret: "(\<And>s. P s \<Longrightarrow> Q a s) \<Longrightarrow> emits F P (ret a) Q"
  unfolding emits_def by (metis append_Nil2 ir_exec.simps(1) ret_apply)

lemma emits_bind:
  assumes f: "emits F P f Q" and g: "\<And>a. emits F (Q a) (g a) R"
  shows "emits F P (bind f g) R"
  unfolding emits_def
proof
  fix b
  obtain a xs where fb: "f b = (Val a, b @ xs)" and fx: "\<And>vals c. length vals = length b \<Longrightarrow>
      P (vals, c) \<Longrightarrow> \<exists>t. ir_exec F xs (vals, c) = Some t \<and> Q a t"
    using emitsE [OF f, of b] by metis
  obtain a' ys where gb: "g a (b @ xs) = (Val a', (b @ xs) @ ys)" and
    gx: "\<And>vals c. length vals = length (b @ xs) \<Longrightarrow> Q a (vals, c) \<Longrightarrow>
      \<exists>t. ir_exec F ys (vals, c) = Some t \<and> R a' t"
    using emitsE [OF g, of a "b @ xs"] by metis
  have "bind f g b = (Val a', b @ (xs @ ys))" using fb gb by (simp add: bind_def)
  moreover have "\<exists>t. ir_exec F (xs @ ys) (vals, c) = Some t \<and> R a' t"
    if len: "length vals = length b" and P: "P (vals, c)" for vals c
  proof -
    obtain vals' c' where t: "ir_exec F xs (vals, c) = Some (vals', c')" and Q: "Q a (vals', c')"
      using fx [OF len P] by auto
    have "length vals' = length (b @ xs)" using length_ir_exec [OF t] len by simp
    from gx [OF this Q] show ?thesis using t by (simp add: ir_exec_append)
  qed
  ultimately show "\<exists>a xs. bind f g b = (Val a, b @ xs) \<and> (\<forall>vals c. length vals = length b \<longrightarrow>
      P (vals, c) \<longrightarrow> (\<exists>t. ir_exec F xs (vals, c) = Some t \<and> R a t))" by blast
qed

lemma emits_pre: "emits F P f Q \<Longrightarrow> (\<And>s. P' s \<Longrightarrow> P s) \<Longrightarrow> emits F P' f Q"
  unfolding emits_def by metis

lemma emits_post: "emits F P f Q \<Longrightarrow> (\<And>a s. Q a s \<Longrightarrow> Q' a s) \<Longrightarrow> emits F P f Q'"
  unfolding emits_def by metis

text \<open>One instruction: its value is the length of the builder before it.\<close>

lemma emits_emit:
  assumes "\<And>vals c. P (vals, c) \<Longrightarrow>
    \<exists>r c'. ir_eval F i (vals, c) = Some (r, c') \<and> Q (length vals) (vals @ [r], c')"
  shows "emits F P (emit i) Q"
  unfolding emits_def emit_def using assms
  by (force split: option.splits)

end
