(* ===== verification/Jit_Layout.thy ===== *)
theory Jit_Layout
  imports Jit
begin

text \<open>
  The offsets the compiler uses are the ones of the fields: a load at an offset reads the
  field, a store writes the field and nothing else.
\<close>

unbundle bit_operations_syntax

subsection \<open>Slices of concatenations\<close>

lemma slice_at_append: "length a = n \<Longrightarrow> slice_at (n + k) m (a @ b) = slice_at k m b"
  by (simp add: slice_at_def)

lemma slice_at_append_left: "k + m \<le> length a \<Longrightarrow> slice_at k m (a @ b) = slice_at k m a"
  by (simp add: slice_at_def)

lemma copy_at_append: "length a = n \<Longrightarrow> copy_at (n + k) w (a @ b) = a @ copy_at k w b"
  by (simp add: copy_at_def add.assoc)

lemma copy_at_append_left: "k + length w \<le> length a \<Longrightarrow> copy_at k w (a @ b) = copy_at k w a @ b"
  by (simp add: copy_at_def)

lemma slice_at_all: "length a = n \<Longrightarrow> slice_at 0 n a = a"
  by (simp add: slice_at_def)

lemma length_concat_blocks: "\<forall>x\<in>set xs. length x = n \<Longrightarrow> length (concat xs) = n * length xs"
  by (induction xs) auto

lemma slice_at_concat:
  assumes "\<forall>x\<in>set xs. length x = n" and "i < length xs" and "k + m \<le> n"
  shows "slice_at (n * i + k) m (concat xs) = slice_at k m (xs ! i)"
  using assms
proof (induction xs arbitrary: i)
  case Nil
  then show ?case by simp
next
  case (Cons x xs)
  show ?case
  proof (cases i)
    case 0
    with Cons.prems show ?thesis by (simp add: slice_at_append_left)
  next
    case (Suc j)
    have e: "n * i + k = n + (n * j + k)" by (simp add: Suc)
    have "slice_at (n * i + k) m (concat (x # xs)) = slice_at (n * j + k) m (concat xs)"
      unfolding e concat.simps by (rule slice_at_append) (use Cons.prems in simp)
    also have "\<dots> = slice_at k m (xs ! j)" using Cons Suc by simp
    finally show ?thesis by (simp add: Suc)
  qed
qed

lemma copy_at_concat:
  assumes "\<forall>x\<in>set xs. length x = n" and "i < length xs" and "k + length w \<le> n"
  shows "copy_at (n * i + k) w (concat xs) = concat (xs[i := copy_at k w (xs ! i)])"
  using assms
proof (induction xs arbitrary: i)
  case Nil
  then show ?case by simp
next
  case (Cons x xs)
  show ?case
  proof (cases i)
    case 0
    with Cons.prems show ?thesis by (simp add: copy_at_append_left)
  next
    case (Suc j)
    have e: "n * i + k = n + (n * j + k)" by (simp add: Suc)
    have "copy_at (n * i + k) w (concat (x # xs)) = x @ copy_at (n * j + k) w (concat xs)"
      unfolding e concat.simps by (rule copy_at_append) (use Cons.prems in simp)
    also have "\<dots> = x @ concat (xs[j := copy_at k w (xs ! j)])" using Cons Suc by simp
    finally show ?thesis by (simp add: Suc)
  qed
qed

subsection \<open>The layout splits into the fields\<close>

definition x_bytes :: "cpu_context \<Rightarrow> bytes" where
  "x_bytes c = concat (map to_le_bytes (ctx_x c))"

lemma length_x_bytes: "wf_cpu c \<Longrightarrow> length (x_bytes c) = 248"
  unfolding x_bytes_def by (subst length_concat_blocks [where n = 8]) (auto simp: wf_cpu_def)

lemma length_v_bytes: "wf_cpu c \<Longrightarrow> length (concat (ctx_v c)) = 512"
  by (subst length_concat_blocks [where n = 16]) (auto simp: wf_cpu_def)

lemma ctx_layout_fields:
  "ctx_layout c = x_bytes c @ to_le_bytes (ctx_sp c) @ to_le_bytes (ctx_pc c) @
     to_le_bytes (ctx_pstate c) @ to_le_bytes (ctx_pad c) @ concat (ctx_v c) @
     to_le_bytes (ctx_tpidr_el0 c) @ exit_layout c"
  by (simp add: ctx_layout_def x_bytes_def)

text \<open>The fields from an offset on.\<close>

definition rest_from_sp :: "cpu_context \<Rightarrow> bytes" where
  "rest_from_sp c = to_le_bytes (ctx_sp c) @ to_le_bytes (ctx_pc c) @ to_le_bytes (ctx_pstate c) @
     to_le_bytes (ctx_pad c) @ concat (ctx_v c) @ to_le_bytes (ctx_tpidr_el0 c) @ exit_layout c"

definition tail_v :: "cpu_context \<Rightarrow> bytes" where
  "tail_v c = to_le_bytes (ctx_tpidr_el0 c) @ exit_layout c"

definition upto_v :: "cpu_context \<Rightarrow> bytes" where
  "upto_v c = x_bytes c @ to_le_bytes (ctx_sp c) @ to_le_bytes (ctx_pc c) @
     to_le_bytes (ctx_pstate c) @ to_le_bytes (ctx_pad c)"

lemma length_upto_v: "wf_cpu c \<Longrightarrow> length (upto_v c) = 272"
  by (simp add: upto_v_def length_x_bytes)

lemma layout_split_v: "ctx_layout c = upto_v c @ concat (ctx_v c) @ tail_v c"
  by (simp add: ctx_layout_fields upto_v_def tail_v_def)

lemma layout_split_x: "ctx_layout c = x_bytes c @ rest_from_sp c"
  by (simp add: ctx_layout_fields rest_from_sp_def)

lemma from_to_le_u64 [simp]: "from_le_bytes (to_le_bytes (w :: u64)) = w"
  by (rule from_to_le_bytes) simp

lemma from_to_le_u32 [simp]: "from_le_bytes (to_le_bytes (w :: u32)) = w"
  by (rule from_to_le_bytes) simp

subsection \<open>Slices of the layout\<close>

lemma slice_x: "wf_cpu c \<Longrightarrow> i < 31 \<Longrightarrow> slice_at (8 * i) 8 (ctx_layout c) = to_le_bytes (ctx_x c ! i)"
  using slice_at_concat [of "map to_le_bytes (ctx_x c)" 8 i 0 8] length_x_bytes [of c]
  by (auto simp: layout_split_x slice_at_append_left x_bytes_def wf_cpu_def slice_at_all)

lemma slice_field:
  assumes "wf_cpu c" and "length (a c) = k" and "length (f c) = m" and "m = n"
    and "ctx_layout c = a c @ f c @ b c"
  shows "slice_at k n (ctx_layout c) = f c"
  using slice_at_append [of "a c" k 0 n "f c @ b c"] assms
  by (simp add: slice_at_append_left slice_at_all)

lemma slice_sp: "wf_cpu c \<Longrightarrow> slice_at 248 8 (ctx_layout c) = to_le_bytes (ctx_sp c)"
  by (rule slice_field [where a = x_bytes]) (auto simp: length_x_bytes ctx_layout_fields)

lemma slice_pc: "wf_cpu c \<Longrightarrow> slice_at 256 8 (ctx_layout c) = to_le_bytes (ctx_pc c)"
  by (rule slice_field [where a = "\<lambda>c. x_bytes c @ to_le_bytes (ctx_sp c)"])
    (auto simp: length_x_bytes ctx_layout_fields)

lemma slice_pstate: "wf_cpu c \<Longrightarrow> slice_at 264 4 (ctx_layout c) = to_le_bytes (ctx_pstate c)"
  by (rule slice_field [where a = "\<lambda>c. x_bytes c @ to_le_bytes (ctx_sp c) @ to_le_bytes (ctx_pc c)"])
    (auto simp: length_x_bytes ctx_layout_fields)

lemma slice_pad: "wf_cpu c \<Longrightarrow> slice_at 268 4 (ctx_layout c) = to_le_bytes (ctx_pad c)"
  by (rule slice_field [where a = "\<lambda>c. x_bytes c @ to_le_bytes (ctx_sp c) @ to_le_bytes (ctx_pc c) @
        to_le_bytes (ctx_pstate c)"])
    (auto simp: length_x_bytes ctx_layout_fields)

lemma slice_tpidr: "wf_cpu c \<Longrightarrow> slice_at 784 8 (ctx_layout c) = to_le_bytes (ctx_tpidr_el0 c)"
  by (rule slice_field [where a = "\<lambda>c. upto_v c @ concat (ctx_v c)" and b = exit_layout])
    (auto simp: length_upto_v length_v_bytes layout_split_v tail_v_def)

lemma slice_v:
  assumes "wf_cpu c" and "i < 32" and "k + m \<le> 16"
  shows "slice_at (272 + 16 * i + k) m (ctx_layout c) = slice_at k m (ctx_v c ! i)"
proof -
  have "slice_at (272 + (16 * i + k)) m (ctx_layout c) =
      slice_at (16 * i + k) m (concat (ctx_v c) @ tail_v c)"
    unfolding layout_split_v by (rule slice_at_append) (simp add: length_upto_v assms)
  also have "\<dots> = slice_at (16 * i + k) m (concat (ctx_v c))"
    by (rule slice_at_append_left) (use assms in \<open>simp add: length_v_bytes\<close>)
  also have "\<dots> = slice_at k m (ctx_v c ! i)"
    by (rule slice_at_concat) (use assms in \<open>auto simp: wf_cpu_def\<close>)
  finally show ?thesis by (simp add: add.assoc)
qed

text \<open>The exit state behind \<open>TPIDR_EL0\<close>.\<close>

lemma exit_layout_nth:
  "exit_layout c ! 0 = (if ctx_exited c then 1 else 0)"
  "slice_at 4 4 (exit_layout c) = to_le_bytes (ctx_exit_code c)"
  "exit_layout c ! 8 = os_byte (ctx_target_os c)"
  by (simp_all add: exit_layout_def slice_at_def nth_append)

lemma layout_exit:
  assumes "wf_cpu c"
  shows "ctx_layout c ! 792 = (if ctx_exited c then 1 else 0)"
    and "slice_at 796 4 (ctx_layout c) = to_le_bytes (ctx_exit_code c)"
    and "ctx_layout c ! 800 = os_byte (ctx_target_os c)"
proof -
  let ?a = "upto_v c @ concat (ctx_v c) @ to_le_bytes (ctx_tpidr_el0 c)"
  have l: "ctx_layout c = ?a @ exit_layout c" by (simp add: layout_split_v tail_v_def)
  have n: "length ?a = 792" by (simp add: length_upto_v length_v_bytes assms)
  have nth: "ctx_layout c ! (792 + k) = exit_layout c ! k" for k
    unfolding l n [symmetric] by (rule nth_append_length_plus)
  show "ctx_layout c ! 792 = (if ctx_exited c then 1 else 0)"
    and "ctx_layout c ! 800 = os_byte (ctx_target_os c)"
    using nth [of 0] nth [of 8] by (simp_all add: exit_layout_nth)
  show "slice_at 796 4 (ctx_layout c) = to_le_bytes (ctx_exit_code c)"
    using slice_at_append [OF n, of 4 4 "exit_layout c"] by (simp add: l exit_layout_nth)
qed

lemma length_ctx_layout: "wf_cpu c \<Longrightarrow> length (ctx_layout c) = CTX_SIZE"
  by (simp add: layout_split_v tail_v_def length_upto_v length_v_bytes exit_layout_def CTX_SIZE_def)

lemma os_of_os_byte [simp]: "os_of_byte (os_byte os) = Some os"
  by (cases os) (simp_all add: os_of_byte_def)

lemma unlayout_layout:
  assumes "wf_cpu c"
  shows "ctx_unlayout (ctx_layout c) = Some c"
proof -
  have x: "map (\<lambda>i. from_le_bytes (slice_at (8 * i) 8 (ctx_layout c))) [0..<31] = ctx_x c"
    by (rule nth_equalityI) (use assms in \<open>auto simp: slice_x wf_cpu_def\<close>)
  have v: "map (\<lambda>i. slice_at (272 + 16 * i) 16 (ctx_layout c)) [0..<32] = ctx_v c"
  proof (rule nth_equalityI)
    fix i assume "i < length (map (\<lambda>i. slice_at (272 + 16 * i) 16 (ctx_layout c)) [0..<32])"
    then have "i < 32" by simp
    then show "map (\<lambda>i. slice_at (272 + 16 * i) 16 (ctx_layout c)) [0..<32] ! i = ctx_v c ! i"
      using slice_v [OF assms(1), of i 0 16] assms by (simp add: slice_at_all wf_cpu_v)
  qed (use assms in \<open>simp add: wf_cpu_def\<close>)
  show ?thesis
    unfolding ctx_unlayout_def x v slice_sp [OF assms(1)] slice_pc [OF assms(1)] slice_pstate [OF assms(1)]
      slice_pad [OF assms(1)] slice_tpidr [OF assms(1)] from_to_le_u64 from_to_le_u32
      layout_exit [OF assms(1)] os_of_os_byte
    by (cases c) simp
qed

subsection \<open>Loads and stores of the fields\<close>

named_theorems ctx_access \<open>loads and stores of compiled code as field accesses\<close>

lemma peek_defined:
  "off mod 8 = 0 \<Longrightarrow> off \<le> 784 \<Longrightarrow>
     ctx_peek off c = Some (from_le_bytes (slice_at off 8 (ctx_layout c)))"
  by (auto simp: ctx_peek_def ctx_access_ok_def CTX_SIZE_def ctx_padding_def list_all_iff)

lemma peek_x [ctx_access]: "wf_cpu c \<Longrightarrow> i < 31 \<Longrightarrow> ctx_peek (i * 8) c = Some (get_x c i)"
  using slice_x [of c i] by (simp add: peek_defined get_x_def mult.commute)

lemma peek_sp [ctx_access]: "wf_cpu c \<Longrightarrow> ctx_peek 248 c = Some (ctx_sp c)"
  by (simp add: peek_defined slice_sp)

lemma peek_tpidr [ctx_access]: "wf_cpu c \<Longrightarrow> ctx_peek 784 c = Some (ctx_tpidr_el0 c)"
  by (simp add: peek_defined slice_tpidr)

lemma peek_v [ctx_access]: "wf_cpu c \<Longrightarrow> i < 32 \<Longrightarrow> ctx_peek (272 + i * 16) c = Some (get_f64 c i)"
  using slice_v [of c i 0 8] peek_defined [of "272 + i * 16" c]
  by (simp add: get_f64_def slice_at_def mult.commute mod_add_eq)

lemma poke_eqI:
  assumes "wf_cpu d" and "ctx_layout d = copy_at off (to_le_bytes w) (ctx_layout c)"
    and "ctx_access_ok off"
  shows "ctx_poke off w c = Some d"
  using unlayout_layout [OF assms(1)] assms(3) by (simp add: ctx_poke_def assms(2))

lemma access_okI: "off mod 8 = 0 \<Longrightarrow> off \<le> 800 \<Longrightarrow> ctx_access_ok off"
  by (simp add: ctx_access_ok_def CTX_SIZE_def)

lemma poke_x [ctx_access]:
  assumes wf: "wf_cpu c" and i: "i < 31"
  shows "ctx_poke (i * 8) w c = Some (set_x i w c)"
proof (rule poke_eqI)
  show "wf_cpu (set_x i w c)" using wf by simp
  have "copy_at (8 * i + 0) (to_le_bytes w) (concat (map to_le_bytes (ctx_x c))) =
      concat ((map to_le_bytes (ctx_x c))[i := copy_at 0 (to_le_bytes w) (map to_le_bytes (ctx_x c) ! i)])"
    by (rule copy_at_concat) (use wf i in \<open>auto simp: wf_cpu_def\<close>)
  then have "copy_at (i * 8) (to_le_bytes w) (x_bytes c) = x_bytes (set_x i w c)"
    using wf i by (simp add: x_bytes_def set_x_def map_update copy_at_0_full mult.commute wf_cpu_def)
  then show "ctx_layout (set_x i w c) = copy_at (i * 8) (to_le_bytes w) (ctx_layout c)"
    using wf i
    by (simp add: layout_split_x copy_at_append_left length_x_bytes rest_from_sp_def exit_layout_def set_x_def)
  show "ctx_access_ok (i * 8)" using i by (simp add: access_okI)
qed

lemma poke_sp [ctx_access]:
  assumes wf: "wf_cpu c"
  shows "ctx_poke 248 w c = Some (c\<lparr>ctx_sp := w\<rparr>)"
proof (rule poke_eqI)
  show "wf_cpu (c\<lparr>ctx_sp := w\<rparr>)" using wf by simp
  have "copy_at (248 + 0) (to_le_bytes w) (x_bytes c @ rest_from_sp c) =
      x_bytes c @ copy_at 0 (to_le_bytes w) (rest_from_sp c)"
    by (rule copy_at_append) (simp add: length_x_bytes wf)
  then show "ctx_layout (c\<lparr>ctx_sp := w\<rparr>) = copy_at 248 (to_le_bytes w) (ctx_layout c)"
    by (simp add: layout_split_x x_bytes_def rest_from_sp_def exit_layout_def copy_at_def)
  show "ctx_access_ok 248" by (simp add: access_okI)
qed

lemma poke_tpidr [ctx_access]:
  assumes wf: "wf_cpu c"
  shows "ctx_poke 784 w c = Some (c\<lparr>ctx_tpidr_el0 := w\<rparr>)"
proof (rule poke_eqI)
  show "wf_cpu (c\<lparr>ctx_tpidr_el0 := w\<rparr>)" using wf by simp
  have "copy_at (784 + 0) (to_le_bytes w) ((upto_v c @ concat (ctx_v c)) @ tail_v c) =
      (upto_v c @ concat (ctx_v c)) @ copy_at 0 (to_le_bytes w) (tail_v c)"
    by (rule copy_at_append) (simp add: length_upto_v length_v_bytes wf)
  then show "ctx_layout (c\<lparr>ctx_tpidr_el0 := w\<rparr>) = copy_at 784 (to_le_bytes w) (ctx_layout c)"
    by (simp add: layout_split_v upto_v_def tail_v_def exit_layout_def x_bytes_def copy_at_def)
  show "ctx_access_ok 784" by (simp add: access_okI)
qed

text \<open>Two stores, of the value and of zero, write a whole vector register.\<close>

lemma poke_v:
  assumes wf: "wf_cpu c" and i: "i < 32" and k: "k = 0 \<or> k = 8"
  shows "ctx_poke (272 + 16 * i + k) w c =
    Some (set_v_bytes i (copy_at k (to_le_bytes w) (ctx_v c ! i)) c)"
proof (rule poke_eqI)
  let ?b = "copy_at k (to_le_bytes w) (ctx_v c ! i)"
  show "wf_cpu (set_v_bytes i ?b c)" using wf i k by (auto simp: wf_cpu_v)
  have "copy_at (272 + (16 * i + k)) (to_le_bytes w) (ctx_layout c) =
      upto_v c @ copy_at (16 * i + k) (to_le_bytes w) (concat (ctx_v c) @ tail_v c)"
    unfolding layout_split_v by (rule copy_at_append) (simp add: length_upto_v wf)
  also have "copy_at (16 * i + k) (to_le_bytes w) (concat (ctx_v c) @ tail_v c) =
      copy_at (16 * i + k) (to_le_bytes w) (concat (ctx_v c)) @ tail_v c"
    by (rule copy_at_append_left) (use wf i k in \<open>auto simp: length_v_bytes\<close>)
  also have "copy_at (16 * i + k) (to_le_bytes w) (concat (ctx_v c)) = concat ((ctx_v c)[i := ?b])"
    by (rule copy_at_concat) (use wf i k in \<open>auto simp: wf_cpu_def\<close>)
  finally show "ctx_layout (set_v_bytes i ?b c) =
      copy_at (272 + 16 * i + k) (to_le_bytes w) (ctx_layout c)"
    by (simp add: layout_split_v upto_v_def tail_v_def exit_layout_def x_bytes_def set_v_bytes_def add.assoc)
  show "ctx_access_ok (272 + 16 * i + k)" using i k by (auto intro!: access_okI simp: mod_add_eq)
qed

lemma poke_v_pair:
  assumes wf: "wf_cpu c" and i: "i < 32"
  shows "\<exists>d. ctx_poke (272 + i * 16) w c = Some d \<and> wf_cpu d \<and>
    ctx_poke (272 + i * 16 + 8) 0 d = Some (set_v_u64 i w c)"
proof -
  have a: "ctx_poke (272 + 16 * i + 0) w c =
      Some (set_v_bytes i (copy_at 0 (to_le_bytes w) (ctx_v c ! i)) c)"
    by (rule poke_v) (use wf i in simp_all)
  let ?d = "set_v_bytes i (copy_at 0 (to_le_bytes w) (ctx_v c ! i)) c"
  have d: "wf_cpu ?d" using wf i by (simp add: wf_cpu_v)
  have "to_le_bytes (0 :: u64) = replicate 8 0" by code_simp
  then have "ctx_poke (272 + 16 * i + 8) 0 ?d =
      Some (set_v_bytes i (copy_at 8 (replicate 8 0) (ctx_v ?d ! i)) ?d)"
    using poke_v [OF d i, of 8 0] by simp
  also have "\<dots> = Some (set_v_u64 i w c)"
    using wf i by (simp add: set_v_u64_def set_v_bytes_def wf_cpu_def)
  finally show ?thesis using a d by (auto simp: mult.commute)
qed

text \<open>
  The layout bites: a store at the offset behind \<open>TPIDR_EL0\<close> would end the program, a load
  there reads padding, and nothing behind the struct is accessible.
\<close>

lemma access_behind_tpidr:
  assumes wf: "wf_cpu c"
  shows "ctx_poke 792 1 c = Some (c\<lparr>ctx_exited := True, ctx_exit_code := 0\<rparr>)"
    and "ctx_peek 792 c = None" and "ctx_poke 808 w c = None"
proof -
  let ?a = "\<lambda>c. (upto_v c @ concat (ctx_v c)) @ to_le_bytes (ctx_tpidr_el0 c)"
  let ?d = "c\<lparr>ctx_exited := True, ctx_exit_code := 0\<rparr>"
  have l: "ctx_layout c = ?a c @ exit_layout c" for c by (simp add: layout_split_v tail_v_def)
  have b: "to_le_bytes (1 :: u64) = [1, 0, 0, 0, 0, 0, 0, 0]" "to_le_bytes (0 :: u32) = [0, 0, 0, 0]"
    by code_simp+
  show "ctx_poke 792 1 c = Some ?d"
  proof (rule poke_eqI)
    have "copy_at (792 + 0) (to_le_bytes (1 :: u64)) (?a c @ exit_layout c) =
        ?a c @ copy_at 0 (to_le_bytes (1 :: u64)) (exit_layout c)"
      by (rule copy_at_append) (simp add: length_upto_v length_v_bytes wf)
    also have "copy_at 0 (to_le_bytes (1 :: u64)) (exit_layout c) = exit_layout ?d"
      by (simp add: exit_layout_def copy_at_def b)
    finally show "ctx_layout ?d = copy_at 792 (to_le_bytes (1 :: u64)) (ctx_layout c)"
      unfolding l by (simp add: upto_v_def x_bytes_def)
  qed (use wf in \<open>simp_all add: wf_cpu_def access_okI\<close>)
  show "ctx_peek 792 c = None" by (simp add: ctx_peek_def ctx_padding_def list_all_iff)
  show "ctx_poke 808 w c = None" by (simp add: ctx_poke_def ctx_access_ok_def CTX_SIZE_def)
qed

end
