(* ===== verification/Jit_Direct.thy ===== *)
theory Jit_Direct
  imports Jit_Sem Jit_Layout
begin

text \<open>
  What the code the compiler emits for one instruction does to the registers, as a plain
  function of the operands, and the proof that the emitted instructions compute it.
\<close>

unbundle bit_operations_syntax

subsection \<open>Registers as the compiled code sees them\<close>

definition jit_read :: "reg \<Rightarrow> cpu_context \<Rightarrow> u64" where
  "jit_read reg c =
     (if is_zero_reg reg then 0
      else (let v = (case jit_reg_idx reg of
                       None \<Rightarrow> 0
                     | Some i \<Rightarrow> if reg = SP \<or> reg = WSP then ctx_sp c else get_x c i)
            in if jit_is_w_reg reg then v AND 0xffffffff else v))"

definition jit_write :: "reg \<Rightarrow> u64 \<Rightarrow> cpu_context \<Rightarrow> cpu_context" where
  "jit_write reg w c =
     (if is_zero_reg reg then c
      else (let v = (if jit_is_w_reg reg then w AND 0xffffffff else w)
            in case jit_reg_idx reg of
                 None \<Rightarrow> c
               | Some i \<Rightarrow> if reg = SP \<or> reg = WSP then c\<lparr>ctx_sp := v\<rparr> else set_x i v c))"

definition jit_vread :: "reg \<Rightarrow> cpu_context \<Rightarrow> u64" where
  "jit_vread reg c = (case jit_v_reg_idx reg of Some i \<Rightarrow> get_f64 c i | None \<Rightarrow> 0)"

definition jit_vwrite :: "reg \<Rightarrow> u64 \<Rightarrow> cpu_context \<Rightarrow> cpu_context" where
  "jit_vwrite reg w c = (case jit_v_reg_idx reg of Some i \<Rightarrow> set_v_u64 i w c | None \<Rightarrow> c)"

lemma jit_reg_idx_bound: "jit_reg_idx reg = Some i \<Longrightarrow> reg \<noteq> SP \<Longrightarrow> reg \<noteq> WSP \<Longrightarrow> i < 31"
  by (cases reg) (auto split: if_splits)

lemma jit_v_reg_idx_bound: "jit_v_reg_idx reg = Some i \<Longrightarrow> i < 32"
  by (cases reg) (auto split: if_splits)

lemma wf_jit_write [simp, intro]: "wf_cpu c \<Longrightarrow> wf_cpu (jit_write reg w c)"
  by (auto simp: jit_write_def Let_def split: option.splits)

lemma wf_jit_vwrite [simp, intro]: "wf_cpu c \<Longrightarrow> wf_cpu (jit_vwrite reg w c)"
  by (auto simp: jit_vwrite_def split: option.splits)

subsection \<open>What is known of the values\<close>

text \<open>The registers are \<open>c\<close>, and every listed value has been computed.\<close>

definition know :: "cpu_context \<Rightarrow> (ir_ref \<times> ir_value) list \<Rightarrow> ir_state \<Rightarrow> bool" where
  "know c k s \<longleftrightarrow> snd s = c \<and> (\<forall>(v, x) \<in> set k. v < length (fst s) \<and> fst s ! v = x)"

lemma know_snoc: "know c k (vals, c') \<Longrightarrow> know d ((length vals, r) # k) (vals @ [r], d)"
  by (auto simp: know_def nth_append)

lemma know_keep: "know c k (vals, c') \<Longrightarrow> know d k (vals @ [r], d)"
  by (auto simp: know_def nth_append)

lemma know_val: "know c k (vals, c') \<Longrightarrow> (v, x) \<in> set k \<Longrightarrow> val_at vals v = x"
  by (auto simp: know_def val_at_def)

lemma know_ctx: "know c k (vals, c') \<Longrightarrow> c' = c"
  by (simp add: know_def)

named_theorems emit_rules \<open>what one piece of the translation emits\<close>

lemma emits_iconst [emit_rules]:
  "emits F (know c k) (emit (Ir_iconst w)) (\<lambda>v. know c ((v, V_i64 w) # k))"
  by (rule emits_emit) (auto intro: know_snoc dest: know_ctx)

lemma emits_f64const: "emits F (know c k) (emit (Ir_f64const w)) (\<lambda>v. know c ((v, V_f64 w) # k))"
  by (rule emits_emit) (auto intro: know_snoc dest: know_ctx)

lemma emits_load_i64:
  "ctx_peek off c = Some w \<Longrightarrow>
     emits F (know c k) (emit (Ir_load I64 off)) (\<lambda>v. know c ((v, V_i64 w) # k))"
  by (rule emits_emit, frule know_ctx) (auto intro: know_snoc)

lemma emits_load_f64:
  "ctx_peek off c = Some w \<Longrightarrow>
     emits F (know c k) (emit (Ir_load F64 off)) (\<lambda>v. know c ((v, V_f64 w) # k))"
  by (rule emits_emit, frule know_ctx) (auto intro: know_snoc)

lemma emits_int_binop:
  "(a, V_i64 x) \<in> set k \<Longrightarrow> (b, V_i64 y) \<in> set k \<Longrightarrow> int_binop opc x y = Some r \<Longrightarrow>
     emits F (know c k) (emit (Ir_binop opc a b)) (\<lambda>v. know c ((v, V_i64 r) # k))"
  by (rule emits_emit) (auto intro: know_snoc dest: know_ctx simp: know_val)

lemma emits_float_binop:
  "(a, V_f64 x) \<in> set k \<Longrightarrow> (b, V_f64 y) \<in> set k \<Longrightarrow> float_binop F opc x y = Some r \<Longrightarrow>
     emits F (know c k) (emit (Ir_binop opc a b)) (\<lambda>v. know c ((v, V_f64 r) # k))"
  by (rule emits_emit) (auto intro: know_snoc dest: know_ctx simp: know_val)

lemma emits_icmp:
  "(a, V_i64 x) \<in> set k \<Longrightarrow> (b, V_i64 y) \<in> set k \<Longrightarrow>
     emits F (know c k) (emit (Ir_icmp cc a b)) (\<lambda>v. know c ((v, V_bool (cc_holds cc x y)) # k))"
  by (rule emits_emit) (auto intro: know_snoc dest: know_ctx simp: know_val)

lemma emits_select:
  "(t, V_bool p) \<in> set k \<Longrightarrow> (a, V_i64 x) \<in> set k \<Longrightarrow> (b, V_i64 y) \<in> set k \<Longrightarrow>
     emits F (know c k) (emit (Ir_select t a b)) (\<lambda>v. know c ((v, V_i64 (if p then x else y)) # k))"
  by (rule emits_emit) (auto intro: know_snoc dest: know_ctx simp: know_val)

lemma emits_to_f64:
  "(a, V_i64 x) \<in> set k \<Longrightarrow>
     emits F (know c k) (emit (Ir_bitcast F64 a)) (\<lambda>v. know c ((v, V_f64 x) # k))"
  by (rule emits_emit) (auto intro: know_snoc dest: know_ctx simp: know_val)

lemma emits_to_i64:
  "(a, V_f64 x) \<in> set k \<Longrightarrow>
     emits F (know c k) (emit (Ir_bitcast I64 a)) (\<lambda>v. know c ((v, V_i64 x) # k))"
  by (rule emits_emit) (auto intro: know_snoc dest: know_ctx simp: know_val)

lemma emits_store:
  "(a, x) \<in> set k \<Longrightarrow> x = V_i64 w \<or> x = V_f64 w \<Longrightarrow> ctx_poke off w c = Some d \<Longrightarrow>
     emits F (know c k) (emit (Ir_store a off)) (\<lambda>_. know d k)"
  by (rule emits_emit, frule know_ctx) (auto intro: know_keep simp: know_val)

subsection \<open>Loads and stores of registers\<close>

lemma emits_mask:
  "(a, V_i64 x) \<in> set k \<Longrightarrow>
     emits F (know c k)
       (if w then bind (emit (Ir_iconst 0xffffffff)) (\<lambda>mask. emit (Ir_binop Band a mask)) else ret a)
       (\<lambda>v. know c ((v, V_i64 (if w then x AND 0xffffffff else x)) # k))"
proof (cases w)
  case True
  assume a: "(a, V_i64 x) \<in> set k"
  have "emits F (know c k) (bind (emit (Ir_iconst 0xffffffff)) (\<lambda>mask. emit (Ir_binop Band a mask)))
      (\<lambda>v. know c ((v, V_i64 (x AND 0xffffffff)) # k))"
    by (rule emits_bind, rule emits_iconst, rule emits_post,
        rule emits_int_binop [where x = x and y = "0xffffffff"])
      (use a in \<open>auto simp: know_def\<close>)
  then show ?thesis using True by simp
next
  case False
  assume "(a, V_i64 x) \<in> set k"
  then show ?thesis using False by (auto intro!: emits_ret simp: know_def)
qed

lemma emits_load_reg:
  assumes wf: "wf_cpu c"
  shows "emits F (know c k) (load_reg reg) (\<lambda>v. know c ((v, V_i64 (jit_read reg c)) # k))"
proof -
  consider (zero) "is_zero_reg reg" | (none) "\<not> is_zero_reg reg" "get_reg_offset reg = None"
    | (some) off where "\<not> is_zero_reg reg" "get_reg_offset reg = Some off" by fastforce
  then show ?thesis
  proof cases
    case zero
    then show ?thesis by (simp add: load_reg_def jit_read_def emits_iconst)
  next
    case none
    then have "jit_read reg c = 0"
      by (auto simp: jit_read_def get_reg_offset_def split: if_splits)
    with none show ?thesis by (simp add: load_reg_def emits_iconst)
  next
    case some
    obtain w where p: "ctx_peek off c = Some w"
      and r: "jit_read reg c = (if jit_is_w_reg reg then w AND 0xffffffff else w)"
      using some wf
      by (auto simp: jit_read_def get_reg_offset_def Let_def ctx_access jit_reg_idx_bound
          split: if_splits)
    have "emits F (know c k)
        (bind (emit (Ir_load I64 off)) (\<lambda>val. if jit_is_w_reg reg
          then bind (emit (Ir_iconst 0xffffffff)) (\<lambda>mask. emit (Ir_binop Band val mask)) else ret val))
        (\<lambda>v. know c ((v, V_i64 (jit_read reg c)) # k))"
      unfolding r
      by (rule emits_bind, rule emits_load_i64 [OF p], rule emits_post, rule emits_mask)
        (auto simp: know_def)
    with some show ?thesis by (simp add: load_reg_def)
  qed
qed

lemma emits_store_reg:
  assumes wf: "wf_cpu c" and v: "(v, V_i64 x) \<in> set k"
  shows "emits F (know c k) (store_reg reg v) (\<lambda>_. know (jit_write reg x c) k)"
proof -
  consider (zero) "is_zero_reg reg" | (none) "\<not> is_zero_reg reg" "get_reg_offset reg = None"
    | (some) off where "\<not> is_zero_reg reg" "get_reg_offset reg = Some off" by fastforce
  then show ?thesis
  proof cases
    case zero
    then show ?thesis by (simp add: store_reg_def jit_write_def emits_ret)
  next
    case none
    then have "jit_write reg x c = c"
      by (auto simp: jit_write_def get_reg_offset_def split: if_splits)
    with none show ?thesis by (simp add: store_reg_def emits_ret)
  next
    case some
    let ?w = "if jit_is_w_reg reg then x AND 0xffffffff else x"
    have r: "ctx_poke off ?w c = Some (jit_write reg x c)"
      using some wf
      by (auto simp: jit_write_def get_reg_offset_def Let_def ctx_access jit_reg_idx_bound
          split: if_splits)
    have "emits F (know c k)
        (bind (if jit_is_w_reg reg
            then bind (emit (Ir_iconst 0xffffffff)) (\<lambda>mask. emit (Ir_binop Band v mask)) else ret v)
          (\<lambda>final_val. bind (emit (Ir_store final_val off)) (\<lambda>_. ret ())))
        (\<lambda>_. know (jit_write reg x c) k)"
      by (rule emits_bind, rule emits_mask [OF v], rule emits_bind,
          rule emits_store [where x = "V_i64 ?w", OF _ _ r])
        (auto intro!: emits_ret simp: know_def)
    with some show ?thesis by (simp add: store_reg_def)
  qed
qed

lemma emits_load_v_f64:
  assumes wf: "wf_cpu c"
  shows "emits F (know c k) (load_v_f64 reg) (\<lambda>v. know c ((v, V_f64 (jit_vread reg c)) # k))"
proof (cases "jit_v_reg_idx reg")
  case None
  then show ?thesis
    by (simp add: load_v_f64_def get_v_reg_offset_def jit_vread_def emits_f64const)
next
  case (Some i)
  then have "ctx_peek (272 + i * 16) c = Some (jit_vread reg c)"
    using wf by (simp add: jit_vread_def ctx_access jit_v_reg_idx_bound)
  with Some show ?thesis
    by (simp add: load_v_f64_def get_v_reg_offset_def emits_load_f64)
qed

lemma emits_store_v_f64:
  assumes wf: "wf_cpu c" and v: "(v, V_f64 x) \<in> set k"
  shows "emits F (know c k) (store_v_f64 reg v) (\<lambda>_. know (jit_vwrite reg x c) k)"
proof (cases "jit_v_reg_idx reg")
  case None
  then show ?thesis by (simp add: store_v_f64_def get_v_reg_offset_def jit_vwrite_def emits_ret)
next
  case (Some i)
  let ?off = "272 + i * 16"
  obtain d where p: "ctx_poke ?off x c = Some d"
    and r: "ctx_poke (?off + 8) 0 d = Some (jit_vwrite reg x c)"
    using Some poke_v_pair [OF wf, of i x] by (auto simp: jit_vwrite_def jit_v_reg_idx_bound)
  have "emits F (know c k)
      (bind (emit (Ir_store v ?off)) (\<lambda>_. bind (emit (Ir_iconst 0)) (\<lambda>zero64.
        bind (emit (Ir_store zero64 (?off + 8))) (\<lambda>_. ret ()))))
      (\<lambda>_. know (jit_vwrite reg x c) k)"
    by (rule emits_bind, rule emits_store [OF v disjI2 p], rule refl, rule emits_bind,
        rule emits_iconst, rule emits_bind, rule emits_store [where x = "V_i64 0", OF _ _ r])
      (auto intro!: emits_ret simp: know_def)
  then show ?thesis using Some by (simp add: store_v_f64_def get_v_reg_offset_def)
qed

subsection \<open>Pieces that end the block\<close>

definition finishes ::
  "fpu \<Rightarrow> (ir_state \<Rightarrow> bool) \<Rightarrow> 'a builder \<Rightarrow> ('a \<Rightarrow> u64 \<times> cpu_context \<Rightarrow> bool) \<Rightarrow> bool" where
  "finishes F P f R \<longleftrightarrow>
     (\<forall>b. \<exists>a xs. f b = (Val a, b @ xs) \<and>
        (\<forall>vals c. length vals = length b \<longrightarrow> P (vals, c) \<longrightarrow>
           (\<exists>r. ir_run F xs (vals, c) = Some r \<and> R a r)))"

lemma finishesE:
  assumes "finishes F P f R"
  obtains a xs where "f b = (Val a, b @ xs)"
    and "\<And>vals c. length vals = length b \<Longrightarrow> P (vals, c) \<Longrightarrow>
      \<exists>r. ir_run F xs (vals, c) = Some r \<and> R a r"
  using assms unfolding finishes_def by metis

lemma finishes_bind:
  assumes f: "emits F P f Q" and g: "\<And>a. finishes F (Q a) (g a) R"
  shows "finishes F P (bind f g) R"
  unfolding finishes_def
proof
  fix b
  obtain a xs where fb: "f b = (Val a, b @ xs)" and fx: "\<And>vals c. length vals = length b \<Longrightarrow>
      P (vals, c) \<Longrightarrow> \<exists>t. ir_exec F xs (vals, c) = Some t \<and> Q a t"
    using emitsE [OF f, of b] by metis
  obtain a' ys where gb: "g a (b @ xs) = (Val a', (b @ xs) @ ys)" and
    gx: "\<And>vals c. length vals = length (b @ xs) \<Longrightarrow> Q a (vals, c) \<Longrightarrow>
      \<exists>r. ir_run F ys (vals, c) = Some r \<and> R a' r"
    using finishesE [OF g, of a "b @ xs"] by metis
  have "bind f g b = (Val a', b @ (xs @ ys))" using fb gb by (simp add: bind_def)
  moreover have "\<exists>r. ir_run F (xs @ ys) (vals, c) = Some r \<and> R a' r"
    if len: "length vals = length b" and P: "P (vals, c)" for vals c
  proof -
    obtain vals' c' where t: "ir_exec F xs (vals, c) = Some (vals', c')" and Q: "Q a (vals', c')"
      using fx [OF len P] by auto
    have "length vals' = length (b @ xs)" using length_ir_exec [OF t] len by simp
    from gx [OF this Q] show ?thesis by (simp add: ir_run_exec [OF t])
  qed
  ultimately show "\<exists>a xs. bind f g b = (Val a, b @ xs) \<and> (\<forall>vals c. length vals = length b \<longrightarrow>
      P (vals, c) \<longrightarrow> (\<exists>r. ir_run F xs (vals, c) = Some r \<and> R a r))" by blast
qed

lemma finishes_return:
  assumes "(v, V_i64 w) \<in> set k" and "R a (w, c)"
  shows "finishes F (know c k) (bind (emit_return v) (\<lambda>_. ret a)) R"
  using assms
  by (auto simp: finishes_def emit_return_def emit_def bind_def know_val dest: know_ctx)

lemma finishes_post:
  "finishes F P f R \<Longrightarrow> (\<And>a r. R a r \<Longrightarrow> R' a r) \<Longrightarrow> finishes F P f R'"
  unfolding finishes_def by metis

end
