(* ===== verification/Jit_Insn.thy ===== *)
theory Jit_Insn
  imports Jit_Direct
begin

text \<open>
  The direct meaning of every arm of the compiler, and the proof that the instructions
  the arm emits have that meaning whatever registers they start from.
\<close>

unbundle bit_operations_syntax

subsection \<open>Direct meanings\<close>

text \<open>Whether the arm compiles the instruction, what it does, and the address it returns.\<close>

type_synonym direct = "arm \<times> (cpu_context \<Rightarrow> cpu_context) \<times> (cpu_context \<Rightarrow> u64)"

definition no_code :: "arm \<Rightarrow> direct" where
  "no_code a = (a, \<lambda>c. c, \<lambda>c. 0)"

definition writes :: "reg \<Rightarrow> (cpu_context \<Rightarrow> u64) \<Rightarrow> direct" where
  "writes rd f = (Compiled, \<lambda>c. jit_write rd (f c) c, \<lambda>c. 0)"

definition vwrites :: "reg \<Rightarrow> (cpu_context \<Rightarrow> u64) \<Rightarrow> direct" where
  "vwrites rd f = (Compiled, \<lambda>c. jit_vwrite rd (f c) c, \<lambda>c. 0)"

definition jumps :: "(cpu_context \<Rightarrow> u64) \<Rightarrow> direct" where
  "jumps f = (Ended, \<lambda>c. c, f)"

definition int_op :: "ir_binop \<Rightarrow> u64 \<Rightarrow> u64 \<Rightarrow> u64" where
  "int_op opc x y = (case int_binop opc x y of Some r \<Rightarrow> r | None \<Rightarrow> 0)"

definition float_op :: "fpu \<Rightarrow> ir_binop \<Rightarrow> u64 \<Rightarrow> u64 \<Rightarrow> u64" where
  "float_op F opc x y = (case float_binop F opc x y of Some r \<Rightarrow> r | None \<Rightarrow> 0)"

definition direct_MOV :: "'x operand list \<Rightarrow> direct" where
  "direct_MOV ops =
     (if length ops < 2 then no_code Skipped
      else case (jit_get_op_reg (ops ! 0), jit_get_op_reg (ops ! 1)) of
        (Some rd, Some rn) \<Rightarrow> writes rd (jit_read rn)
      | (Some rd, None) \<Rightarrow> writes rd (\<lambda>c. imm_label_or_zero (ops ! 1))
      | _ \<Rightarrow> no_code Skipped)"

definition direct_ADD :: "ir_binop \<Rightarrow> 'x operand list \<Rightarrow> direct" where
  "direct_ADD opc ops =
     (if length ops < 3 then no_code Skipped
      else case (jit_get_op_reg (ops ! 0), jit_get_op_reg (ops ! 1), jit_get_op_reg (ops ! 2)) of
        (Some rd, Some rn, Some rm) \<Rightarrow> writes rd (\<lambda>c. int_op opc (jit_read rn c) (jit_read rm c))
      | (Some rd, Some rn, None) \<Rightarrow>
          writes rd (\<lambda>c. int_op opc (jit_read rn c) (imm_label_or_zero (ops ! 2)))
      | _ \<Rightarrow> no_code Skipped)"

definition second_source :: "'x operand list \<Rightarrow> cpu_context \<Rightarrow> u64" where
  "second_source ops c =
     (case reg_at ops 2 of
        Some rm \<Rightarrow> jit_read rm c
      | None \<Rightarrow> (case operand_at ops 2 of Some op \<Rightarrow> imm_or_zero op | None \<Rightarrow> 0))"

definition direct_binop :: "ir_binop \<Rightarrow> 'x operand list \<Rightarrow> direct" where
  "direct_binop opc ops =
     (case (reg_at ops 0, reg_at ops 1) of
        (Some rd, Some rn) \<Rightarrow> writes rd (\<lambda>c. int_op opc (jit_read rn c) (second_source ops c))
      | _ \<Rightarrow> no_code Skipped)"

definition direct_BL :: "'x operand list \<Rightarrow> u64 \<Rightarrow> direct" where
  "direct_BL ops next_pc =
     (Ended, jit_write (RX 30) next_pc, \<lambda>c. label_or next_pc (operand_at ops 0))"

definition direct_ADRP :: "'x operand list \<Rightarrow> u64 \<Rightarrow> direct" where
  "direct_ADRP ops cur_pc =
     (case (reg_at ops 0, operand_at ops 1) of
        (Some rd, Some op) \<Rightarrow> writes rd (\<lambda>c. label_or (cur_pc AND NOT 0xFFF) (Some op))
      | _ \<Rightarrow> no_code Skipped)"

definition direct_CBZ :: "int_cc \<Rightarrow> 'x operand list \<Rightarrow> u64 \<Rightarrow> direct" where
  "direct_CBZ cc ops next_pc =
     (case (reg_at ops 0, operand_at ops 1) of
        (Some rt, Some op) \<Rightarrow>
          jumps (\<lambda>c. if cc_holds cc (jit_read rt c) 0 then label_or next_pc (Some op) else next_pc)
      | _ \<Rightarrow> no_code Skipped)"

definition direct_FADD :: "fpu \<Rightarrow> ir_binop \<Rightarrow> 'x operand list \<Rightarrow> direct" where
  "direct_FADD F opc ops =
     (case (reg_at ops 0, reg_at ops 1, reg_at ops 2) of
        (Some vd, Some vn, Some vm) \<Rightarrow>
          vwrites vd (\<lambda>c. float_op F opc (jit_vread vn c) (jit_vread vm c))
      | _ \<Rightarrow> no_code Skipped)"

definition direct_FMOV :: "'x operand list \<Rightarrow> direct" where
  "direct_FMOV ops =
     (case (reg_at ops 0, reg_at ops 1) of
        (Some rd, Some rn) \<Rightarrow>
          if jit_v_reg_idx rd \<noteq> None \<and> jit_v_reg_idx rn \<noteq> None then vwrites rd (jit_vread rn)
          else if jit_v_reg_idx rd \<noteq> None then vwrites rd (jit_read rn)
          else if jit_v_reg_idx rn \<noteq> None then writes rd (jit_vread rn)
          else no_code Skipped
      | _ \<Rightarrow> no_code Skipped)"

definition direct_MRS :: "'x operand list \<Rightarrow> direct" where
  "direct_MRS ops =
     (case reg_at ops 0 of Some rt \<Rightarrow> writes rt ctx_tpidr_el0 | None \<Rightarrow> no_code Skipped)"

definition direct_MSR :: "'x operand list \<Rightarrow> direct" where
  "direct_MSR ops =
     (case reg_at ops 1 of
        Some rt \<Rightarrow> (Compiled, \<lambda>c. c\<lparr>ctx_tpidr_el0 := jit_read rt c\<rparr>, \<lambda>c. 0)
      | None \<Rightarrow> no_code Skipped)"

definition direct :: "fpu \<Rightarrow> 'x instruction \<Rightarrow> u64 \<Rightarrow> u64 \<Rightarrow> direct" where
  "direct F inst cur_pc next_pc =
     (let op = inst_op inst; ops = inst_operands inst
      in if op = Op_sys NOP then no_code Compiled
         else if op = Op_arith MOV \<or> op = Op_logic ORR then direct_MOV ops
         else if op = Op_arith ADD then direct_ADD Iadd ops
         else if op = Op_arith SUB then direct_ADD Isub ops
         else if op = Op_branch B then jumps (\<lambda>c. label_or next_pc (operand_at ops 0))
         else if op = Op_branch RET then jumps (jit_read (RX 30))
         else if op = Op_branch BL then direct_BL ops next_pc
         else if op = Op_arith ADRP then direct_ADRP ops cur_pc
         else if op = Op_logic AND_op then direct_binop Band ops
         else if op = Op_logic EOR then direct_binop Bxor ops
         else if op = Op_logic LSL then direct_binop Ishl ops
         else if op = Op_logic LSR then direct_binop Ushr ops
         else if op = Op_logic ASR then direct_binop Sshr ops
         else if op = Op_branch CBZ then direct_CBZ Equal ops next_pc
         else if op = Op_branch CBNZ then direct_CBZ NotEqual ops next_pc
         else if op = Op_fp FADD then direct_FADD F Fadd ops
         else if op = Op_fp FSUB then direct_FADD F Fsub ops
         else if op = Op_fp FMUL then direct_FADD F Fmul ops
         else if op = Op_fp FDIV then direct_FADD F Fdiv ops
         else if op = Op_fp FMOV then direct_FMOV ops
         else if op = Op_cond MRS then direct_MRS ops
         else if op = Op_cond MSR then direct_MSR ops
         else no_code Unhandled)"

subsection \<open>A piece of translation has a direct meaning\<close>

definition translates :: "fpu \<Rightarrow> arm builder \<Rightarrow> direct \<Rightarrow> bool" where
  "translates F f d \<longleftrightarrow>
     (case d of (a, eff, target) \<Rightarrow>
        (\<forall>c. wf_cpu c \<longrightarrow> wf_cpu (eff c) \<and>
           (if a = Ended
            then finishes F (know c []) f (\<lambda>a' r. a' = Ended \<and> r = (target c, eff c))
            else emits F (know c []) f (\<lambda>a' s. a' = a \<and> snd s = eff c))))"

lemma translates_no_code: "a \<noteq> Ended \<Longrightarrow> translates F (ret a) (no_code a)"
  by (auto simp: translates_def no_code_def know_def intro!: emits_ret)

lemma translates_writes:
  assumes "\<And>c. wf_cpu c \<Longrightarrow> emits F (know c []) g (\<lambda>v s. \<exists>k. know c k s \<and> (v, V_i64 (f c)) \<in> set k)"
  shows "translates F (bind g (\<lambda>v. bind (store_reg rd v) (\<lambda>_. ret Compiled))) (writes rd f)"
proof -
  have s: "emits F (\<lambda>s. \<exists>k. know c k s \<and> (v, V_i64 (f c)) \<in> set k)
      (bind (store_reg rd v) (\<lambda>_. ret Compiled)) (\<lambda>a' s. a' = Compiled \<and> snd s = jit_write rd (f c) c)"
    if c: "wf_cpu c" for c v
  proof (rule emits_pre)
    show "emits F (know c [(v, V_i64 (f c))]) (bind (store_reg rd v) (\<lambda>_. ret Compiled))
        (\<lambda>a' s. a' = Compiled \<and> snd s = jit_write rd (f c) c)"
      by (rule emits_bind, rule emits_store_reg [OF c, where x = "f c"])
        (auto intro!: emits_ret simp: know_def)
  qed (auto simp: know_def)
  show ?thesis
    by (auto simp: translates_def writes_def intro!: emits_bind [OF assms s])
qed

lemma translates_vwrites:
  assumes "\<And>c. wf_cpu c \<Longrightarrow> emits F (know c []) g (\<lambda>v s. \<exists>k. know c k s \<and> (v, V_f64 (f c)) \<in> set k)"
  shows "translates F (bind g (\<lambda>v. bind (store_v_f64 rd v) (\<lambda>_. ret Compiled))) (vwrites rd f)"
proof -
  have s: "emits F (\<lambda>s. \<exists>k. know c k s \<and> (v, V_f64 (f c)) \<in> set k)
      (bind (store_v_f64 rd v) (\<lambda>_. ret Compiled)) (\<lambda>a' s. a' = Compiled \<and> snd s = jit_vwrite rd (f c) c)"
    if c: "wf_cpu c" for c v
  proof (rule emits_pre)
    show "emits F (know c [(v, V_f64 (f c))]) (bind (store_v_f64 rd v) (\<lambda>_. ret Compiled))
        (\<lambda>a' s. a' = Compiled \<and> snd s = jit_vwrite rd (f c) c)"
      by (rule emits_bind, rule emits_store_v_f64 [OF c, where x = "f c"])
        (auto intro!: emits_ret simp: know_def)
  qed (auto simp: know_def)
  show ?thesis
    by (auto simp: translates_def vwrites_def intro!: emits_bind [OF assms s])
qed

lemma emits_known:
  "emits F P f (\<lambda>v. know c ((v, x) # k)) \<Longrightarrow>
     emits F P f (\<lambda>v s. \<exists>k. know c k s \<and> (v, x) \<in> set k)"
  by (erule emits_post) (rule exI, auto)

lemma emits_int_op:
  assumes "int_binop opc x y \<noteq> None" and "(a, V_i64 x) \<in> set k" and "(b, V_i64 y) \<in> set k"
  shows "emits F (know c k) (emit (Ir_binop opc a b))
    (\<lambda>v s. \<exists>k. know c k s \<and> (v, V_i64 (int_op opc x y)) \<in> set k)"
  by (rule emits_known, rule emits_int_binop [OF assms(2,3)]) (use assms(1) in \<open>auto simp: int_op_def\<close>)

lemma emits_float_op:
  assumes "float_binop F opc x y \<noteq> None" and "(a, V_f64 x) \<in> set k" and "(b, V_f64 y) \<in> set k"
  shows "emits F (know c k) (emit (Ir_binop opc a b))
    (\<lambda>v s. \<exists>k. know c k s \<and> (v, V_f64 (float_op F opc x y)) \<in> set k)"
  by (rule emits_known, rule emits_float_binop [OF assms(2,3)]) (use assms(1) in \<open>auto simp: float_op_def\<close>)

subsection \<open>The arms\<close>

lemma translates_MOV: "translates F (jit_MOV ops) (direct_MOV ops)"
  unfolding jit_MOV_def direct_MOV_def
  by (auto split: option.split intro!: translates_no_code translates_writes emits_known
      intro: emits_load_reg emits_iconst)

lemma translates_ADD:
  assumes t: "\<And>x y. int_binop opc x y \<noteq> None"
  shows "translates F (jit_ADD opc ops) (direct_ADD opc ops)"
proof -
  have rr: "emits F (know c []) (bind (load_reg rn) (\<lambda>a. bind (load_reg rm) (\<lambda>b. emit (Ir_binop opc a b))))
      (\<lambda>v s. \<exists>k. know c k s \<and> (v, V_i64 (int_op opc (jit_read rn c) (jit_read rm c))) \<in> set k)"
    if c: "wf_cpu c" for c rn rm
    by (rule emits_bind, rule emits_load_reg [OF c], rule emits_bind, rule emits_load_reg [OF c],
        rule emits_int_op [OF t]) simp_all
  have ri: "emits F (know c []) (bind (load_reg rn) (\<lambda>a. bind (emit (Ir_iconst w)) (\<lambda>b. emit (Ir_binop opc a b))))
      (\<lambda>v s. \<exists>k. know c k s \<and> (v, V_i64 (int_op opc (jit_read rn c) w)) \<in> set k)"
    if c: "wf_cpu c" for c rn w
    by (rule emits_bind, rule emits_load_reg [OF c], rule emits_bind, rule emits_iconst,
        rule emits_int_op [OF t]) simp_all
  note w = translates_writes [OF rr, unfolded bind_assoc] translates_writes [OF ri, unfolded bind_assoc]
  show ?thesis
    unfolding jit_ADD_def direct_ADD_def
    by (auto split: option.split intro!: translates_no_code w)
qed

lemma emits_second_source:
  assumes c: "wf_cpu c"
  shows "emits F (know c k)
    (case reg_at ops 2 of
       Some rm \<Rightarrow> load_reg rm
     | None \<Rightarrow> emit (Ir_iconst (case operand_at ops 2 of Some op \<Rightarrow> imm_or_zero op | None \<Rightarrow> 0)))
    (\<lambda>v. know c ((v, V_i64 (second_source ops c)) # k))"
  by (auto simp: second_source_def emits_load_reg [OF c] emits_iconst split: option.split)

lemma translates_binop:
  assumes t: "\<And>x y. int_binop opc x y \<noteq> None"
  shows "translates F (jit_binop opc ops) (direct_binop opc ops)"
proof -
  have rr: "emits F (know c [])
      (bind (load_reg rn) (\<lambda>a. bind (case reg_at ops 2 of
         Some rm \<Rightarrow> load_reg rm
       | None \<Rightarrow> emit (Ir_iconst (case operand_at ops 2 of Some op \<Rightarrow> imm_or_zero op | None \<Rightarrow> 0)))
         (\<lambda>b. emit (Ir_binop opc a b))))
      (\<lambda>v s. \<exists>k. know c k s \<and> (v, V_i64 (int_op opc (jit_read rn c) (second_source ops c))) \<in> set k)"
    if c: "wf_cpu c" for c rn
    by (rule emits_bind, rule emits_load_reg [OF c], rule emits_bind,
        rule emits_second_source [OF c], rule emits_int_op [OF t]) simp_all
  note w = translates_writes [OF rr, unfolded bind_assoc]
  show ?thesis
    unfolding jit_binop_def direct_binop_def
    by (cases "reg_at ops 0"; cases "reg_at ops 1") (auto intro!: translates_no_code w)
qed

lemma translates_ADRP: "translates F (jit_ADRP ops cur_pc) (direct_ADRP ops cur_pc)"
  unfolding jit_ADRP_def direct_ADRP_def
  by (auto split: option.split intro!: translates_no_code translates_writes emits_known
      intro: emits_iconst)

lemma translates_FADD:
  assumes t: "\<And>x y. float_binop F opc x y \<noteq> None"
  shows "translates F (jit_FADD opc ops) (direct_FADD F opc ops)"
proof -
  have rr: "emits F (know c []) (bind (load_v_f64 vn) (\<lambda>a. bind (load_v_f64 vm) (\<lambda>b. emit (Ir_binop opc a b))))
      (\<lambda>v s. \<exists>k. know c k s \<and> (v, V_f64 (float_op F opc (jit_vread vn c) (jit_vread vm c))) \<in> set k)"
    if c: "wf_cpu c" for c vn vm
    by (rule emits_bind, rule emits_load_v_f64 [OF c], rule emits_bind, rule emits_load_v_f64 [OF c],
        rule emits_float_op [OF t]) simp_all
  note w = translates_vwrites [OF rr, unfolded bind_assoc]
  show ?thesis
    unfolding jit_FADD_def direct_FADD_def
    by (auto split: option.split intro!: translates_no_code w)
qed

lemma translates_FMOV: "translates F (jit_FMOV ops) (direct_FMOV ops)"
proof -
  have a: "emits F (know c []) (bind (load_reg rn) (\<lambda>a. emit (Ir_bitcast F64 a)))
      (\<lambda>v s. \<exists>k. know c k s \<and> (v, V_f64 (jit_read rn c)) \<in> set k)" if c: "wf_cpu c" for c rn
    by (rule emits_bind, rule emits_load_reg [OF c], rule emits_known, rule emits_to_f64) simp
  have b: "emits F (know c []) (bind (load_v_f64 rn) (\<lambda>a. emit (Ir_bitcast I64 a)))
      (\<lambda>v s. \<exists>k. know c k s \<and> (v, V_i64 (jit_vread rn c)) \<in> set k)" if c: "wf_cpu c" for c rn
    by (rule emits_bind, rule emits_load_v_f64 [OF c], rule emits_known, rule emits_to_i64) simp
  note w = translates_vwrites [OF a, unfolded bind_assoc] translates_writes [OF b, unfolded bind_assoc]
  show ?thesis
    unfolding jit_FMOV_def direct_FMOV_def
    by (auto split: option.split intro!: translates_no_code translates_vwrites [OF emits_known] w
        intro: emits_load_v_f64)
qed

lemma translates_MRS: "translates F (jit_MRS ops) (direct_MRS ops)"
proof -
  have a: "emits F (know c []) (emit (Ir_load I64 784))
      (\<lambda>v s. \<exists>k. know c k s \<and> (v, V_i64 (ctx_tpidr_el0 c)) \<in> set k)" if c: "wf_cpu c" for c
    by (rule emits_known [OF emits_load_i64 [OF peek_tpidr [OF c]]])
  show ?thesis
    unfolding jit_MRS_def direct_MRS_def
    by (auto split: option.split intro!: translates_no_code translates_writes a)
qed

lemma translates_MSR: "translates F (jit_MSR ops) (direct_MSR ops)"
proof (cases "reg_at ops 1")
  case None
  then show ?thesis by (simp add: jit_MSR_def direct_MSR_def translates_no_code)
next
  case (Some rt)
  have "emits F (know c []) (bind (load_reg rt) (\<lambda>v. bind (emit (Ir_store v 784)) (\<lambda>_. ret Compiled)))
      (\<lambda>a s. a = Compiled \<and> snd s = c\<lparr>ctx_tpidr_el0 := jit_read rt c\<rparr>)" if c: "wf_cpu c" for c
    by (rule emits_bind, rule emits_load_reg [OF c], rule emits_bind,
        rule emits_store [where x = "V_i64 (jit_read rt c)", OF _ _ poke_tpidr [OF c]])
      (auto intro!: emits_ret simp: know_def)
  with Some show ?thesis by (auto simp: jit_MSR_def direct_MSR_def translates_def)
qed

lemma translates_B: "translates F (jit_B ops next_pc) (jumps (\<lambda>c. label_or next_pc (operand_at ops 0)))"
  unfolding jit_B_def jumps_def translates_def
  by (auto intro!: finishes_bind [OF emits_iconst] finishes_return)

lemma translates_RET: "translates F jit_RET (jumps (jit_read (RX 30)))"
  unfolding jit_RET_def jumps_def translates_def
  by (auto intro!: finishes_bind [OF emits_load_reg] finishes_return)

lemma translates_BL: "translates F (jit_BL ops next_pc) (direct_BL ops next_pc)"
proof -
  have "finishes F (know c []) (jit_BL ops next_pc)
      (\<lambda>a r. a = Ended \<and> r = (label_or next_pc (operand_at ops 0), jit_write (RX 30) next_pc c))"
    if c: "wf_cpu c" for c
    unfolding jit_BL_def jit_B_def
    by (rule finishes_bind, rule emits_iconst, rule finishes_bind,
        rule emits_store_reg [OF c, where x = next_pc], simp, rule finishes_bind, rule emits_iconst,
        rule finishes_return) simp_all
  then show ?thesis by (auto simp: direct_BL_def translates_def)
qed

lemma translates_CBZ: "translates F (jit_CBZ cc ops next_pc) (direct_CBZ cc ops next_pc)"
proof (cases "reg_at ops 0"; cases "operand_at ops 1")
  fix rt op
  assume r: "reg_at ops 0 = Some rt" and o: "operand_at ops 1 = Some op"
  let ?t = "label_or next_pc (Some op)"
  have "finishes F (know c []) (jit_CBZ cc ops next_pc)
      (\<lambda>a r. a = Ended \<and> r = (if cc_holds cc (jit_read rt c) 0 then ?t else next_pc, c))"
    if c: "wf_cpu c" for c
    unfolding jit_CBZ_def r o option.case prod.case
    by (rule finishes_bind, rule emits_load_reg [OF c], rule finishes_bind, rule emits_iconst,
        rule finishes_bind, rule emits_icmp [where x = "jit_read rt c" and y = 0],
        simp, simp, rule finishes_bind, rule emits_iconst, rule finishes_bind, rule emits_iconst,
        rule finishes_bind, rule emits_select [where p = "cc_holds cc (jit_read rt c) 0" and x = ?t
          and y = next_pc], simp, simp, simp, rule finishes_return) simp_all
  with r o show ?thesis by (auto simp: direct_CBZ_def jumps_def translates_def)
qed (auto simp: jit_CBZ_def direct_CBZ_def translates_no_code)

text \<open>Every instruction the compiler accepts has its direct meaning.\<close>

lemma translates_insn: "translates F (jit_insn inst cur_pc next_pc) (direct F inst cur_pc next_pc)"
  unfolding jit_insn_def direct_def Let_def
  by (auto intro!: translates_no_code translates_MOV translates_ADD translates_B translates_RET
      translates_BL translates_ADRP translates_binop translates_CBZ translates_FADD translates_FMOV
      translates_MRS translates_MSR)

end
