(* ===== verification/Jit_Block.thy ===== *)
theory Jit_Block
  imports Jit_Insn
begin

text \<open>
  Whole blocks: an invariant of the loop of \<open>compile_and_get\<close> from which a property of the
  finished body follows, and its first use, that every finished body is well-typed.
\<close>

unbundle bit_operations_syntax

subsection \<open>The invariant of the block loop\<close>

text \<open>
  \<open>S c w c'\<close>: started with the registers \<open>c\<close>, the block has got to the guest address \<open>w\<close>
  with the registers \<open>c'\<close>. The body so far reaches \<open>cur_pc\<close> in this sense, or, once the
  block has ended, returns such an address.
\<close>

type_synonym reaches = "cpu_context \<Rightarrow> u64 \<Rightarrow> cpu_context \<Rightarrow> bool"

definition open_body :: "fpu \<Rightarrow> reaches \<Rightarrow> u64 \<Rightarrow> ir_inst list \<Rightarrow> bool" where
  "open_body F S w body \<longleftrightarrow>
     (\<forall>c. wf_cpu c \<longrightarrow> (\<exists>vals c'. ir_exec F body ([], c) = Some (vals, c') \<and> wf_cpu c' \<and> S c w c'))"

definition closed_body :: "fpu \<Rightarrow> reaches \<Rightarrow> ir_inst list \<Rightarrow> bool" where
  "closed_body F S body \<longleftrightarrow>
     (\<forall>c. wf_cpu c \<longrightarrow> (\<exists>w c'. ir_run F body ([], c) = Some (w, c') \<and> wf_cpu c' \<and> S c w c'))"

definition body_inv :: "fpu \<Rightarrow> reaches \<Rightarrow> block_vars \<Rightarrow> ir_inst list \<Rightarrow> bool" where
  "body_inv F S bv body \<longleftrightarrow>
     (if bv_ended bv then closed_body F S body else open_body F S (bv_cur_pc bv) body)"

text \<open>What one instruction at \<open>pc\<close> has to keep.\<close>

definition insn_keeps :: "fpu \<Rightarrow> reaches \<Rightarrow> 'x instruction \<Rightarrow> u64 \<Rightarrow> u64 \<Rightarrow> bool" where
  "insn_keeps F S inst pc next_pc \<longleftrightarrow>
     (case direct F inst pc next_pc of (a, eff, target) \<Rightarrow>
        a = Unhandled \<or>
        (\<forall>c c'. wf_cpu c' \<longrightarrow> S c pc c' \<longrightarrow> S c (if a = Ended then target c' else next_pc) (eff c')))"

lemma open_body_append:
  assumes body: "open_body F S pc body" and f: "translates F f (a, eff, target)"
    and fb: "f body = (Val a', body')" and a: "a \<noteq> Ended"
    and S: "\<And>c c'. wf_cpu c' \<Longrightarrow> S c pc c' \<Longrightarrow> S c w (eff c')"
  shows "a' = a \<and> open_body F S w body'"
proof -
  have e: "emits F (know c []) f (\<lambda>a' s. a' = a \<and> snd s = eff c) \<and> wf_cpu (eff c)"
    if "wf_cpu c" for c using f a that by (auto simp: translates_def)
  obtain xs where xs: "body' = body @ xs" and x: "\<And>c vals. wf_cpu c \<Longrightarrow> length vals = length body \<Longrightarrow>
      \<exists>t. ir_exec F xs (vals, c) = Some t \<and> a' = a \<and> snd t = eff c"
  proof -
    from emitsE [OF conjunct1 [OF e [OF wf_cpu_new]], of body]
    obtain a1 xs where "f body = (Val a1, body @ xs)" by metis
    with fb have b: "body' = body @ xs" and a1: "a1 = a'" by simp_all
    moreover have "\<exists>t. ir_exec F xs (vals, c) = Some t \<and> a' = a \<and> snd t = eff c"
      if c: "wf_cpu c" and l: "length vals = length body" for c vals
    proof -
      from emitsE [OF conjunct1 [OF e [OF c]], of body] obtain a2 ys
        where y: "f body = (Val a2, body @ ys)" "\<And>vals c'. length vals = length body \<Longrightarrow>
          know c [] (vals, c') \<Longrightarrow> \<exists>t. ir_exec F ys (vals, c') = Some t \<and> a2 = a \<and> snd t = eff c"
        by metis
      from y(1) fb b have "ys = xs" "a2 = a'" by simp_all
      with y(2) [OF l, of c] show ?thesis by (simp add: know_def)
    qed
    ultimately show ?thesis using that by blast
  qed
  obtain vals0 c0 where v0: "ir_exec F body ([], cpu_new) = Some (vals0, c0)" "wf_cpu c0"
    using body wf_cpu_new by (auto simp: open_body_def)
  have "length vals0 = length body" using length_ir_exec [OF v0(1)] by simp
  with x [OF v0(2)] have "a' = a" by blast
  moreover have "open_body F S w body'"
    unfolding open_body_def
  proof (intro allI impI)
    fix c assume c: "wf_cpu c"
    obtain vals c' where v: "ir_exec F body ([], c) = Some (vals, c')" "wf_cpu c'" "S c pc c'"
      using body c by (auto simp: open_body_def)
    have "length vals = length body" using length_ir_exec [OF v(1)] by simp
    with x [OF v(2)] obtain t where t: "ir_exec F xs (vals, c') = Some t" "snd t = eff c'" by blast
    show "\<exists>vals c'. ir_exec F body' ([], c) = Some (vals, c') \<and> wf_cpu c' \<and> S c w c'"
      using v t e [OF v(2)] S [OF v(2,3)]
      by (cases t) (simp add: xs ir_exec_append)
  qed
  ultimately show ?thesis by simp
qed

lemma closed_body_append:
  assumes body: "open_body F S pc body" and f: "translates F f (Ended, eff, target)"
    and fb: "f body = (Val a', body')"
    and S: "\<And>c c'. wf_cpu c' \<Longrightarrow> S c pc c' \<Longrightarrow> S c (target c') (eff c')"
  shows "closed_body F S body'"
  unfolding closed_body_def
proof (intro allI impI)
  fix c assume c: "wf_cpu c"
  obtain vals c' where v: "ir_exec F body ([], c) = Some (vals, c')" "wf_cpu c'" "S c pc c'"
    using body c by (auto simp: open_body_def)
  have e: "finishes F (know c' []) f (\<lambda>a' r. a' = Ended \<and> r = (target c', eff c'))" "wf_cpu (eff c')"
    using f v(2) by (auto simp: translates_def)
  from finishesE [OF e(1), of body] obtain a2 ys
    where y: "f body = (Val a2, body @ ys)" "\<And>vals d. length vals = length body \<Longrightarrow>
      know c' [] (vals, d) \<Longrightarrow> \<exists>r. ir_run F ys (vals, d) = Some r \<and> a2 = Ended \<and> r = (target c', eff c')"
    by metis
  have "length vals = length body" using length_ir_exec [OF v(1)] by simp
  with y(2) [of vals c'] have "ir_run F ys (vals, c') = Some (target c', eff c')"
    by (auto simp: know_def)
  moreover have "body' = body @ ys" using y(1) fb by simp
  ultimately show "\<exists>w c'. ir_run F body' ([], c) = Some (w, c') \<and> wf_cpu c' \<and> S c w c'"
    using ir_run_exec [OF v(1)] e(2) S [OF v(2,3)] by simp
qed

text \<open>The two instructions of \<open>return_pc\<close> close a body at the address.\<close>

lemma return_pc_closes:
  assumes "open_body F S pc body"
  shows "\<exists>body'. return_pc pc body = (Val (), body') \<and> closed_body F S body'"
proof -
  have t: "translates F (bind (return_pc pc) (\<lambda>_. ret Ended)) (Ended, \<lambda>c. c, \<lambda>c. pc)"
    by (auto simp: translates_def return_pc_def bind_assoc
        intro!: finishes_bind [OF emits_iconst] finishes_return)
  obtain body' where r: "return_pc pc body = (Val (), body')"
    by (simp add: return_pc_def emit_return_def emit_def bind_def)
  then have "bind (return_pc pc) (\<lambda>_. ret Ended) body = (Val Ended, body')" by (simp add: bind_def)
  from closed_body_append [OF assms t this] r show ?thesis by blast
qed

text \<open>The instruction is the last of its block.\<close>

definition ends_block :: "fpu \<Rightarrow> 'x instruction \<Rightarrow> u64 \<Rightarrow> u64 \<Rightarrow> bool" where
  "ends_block F inst pc next_pc \<longleftrightarrow>
     fst (direct F inst pc next_pc) = Ended \<or> fst (direct F inst pc next_pc) = Unhandled"

lemma block_step_inv:
  assumes inv: "open_body F S (bv_cur_pc bv) body" and e: "\<not> bv_ended bv"
    and k: "\<And>np. ck_add oc (bv_cur_pc bv) 4 = Val np \<Longrightarrow> insn_keeps F S inst (bv_cur_pc bv) np"
    and r: "block_step oc inst bv body = (Val bv', body')"
  shows "body_inv F S bv' body' \<and> ck_add oc (bv_cur_pc bv) 4 = Val (bv_cur_pc bv') \<and>
    (\<not> bv_ended bv' \<longrightarrow> \<not> ends_block F inst (bv_cur_pc bv) (bv_cur_pc bv'))"
proof -
  from r obtain np where np: "ck_add oc (bv_cur_pc bv) 4 = Val np"
    unfolding block_step_def by (auto elim!: bind_ValE)
  obtain a eff target where d: "direct F inst (bv_cur_pc bv) np = (a, eff, target)"
    by (metis prod_cases3)
  note t = translates_insn [of F inst "bv_cur_pc bv" np, unfolded d]
  from r np obtain a' b1 where j: "jit_insn inst (bv_cur_pc bv) np body = (Val a', b1)"
    unfolding block_step_def by (auto elim!: bind_ValE)
  have keep: "a \<noteq> Unhandled \<Longrightarrow> wf_cpu c' \<Longrightarrow> S c (bv_cur_pc bv) c' \<Longrightarrow>
      S c (if a = Ended then target c' else np) (eff c')" for c c'
    using k [OF np] by (auto simp: insn_keeps_def d)
  consider (ended) "a = Ended" | (unhandled) "a = Unhandled" | (code) "a = Skipped \<or> a = Compiled"
    by (cases a) auto
  then show ?thesis
  proof cases
    case ended
    have "closed_body F S b1"
      by (rule closed_body_append [OF inv t [unfolded ended] j]) (use keep ended in auto)
    moreover have "a' = Ended"
      using t [unfolded ended] j finishesE [of F "know cpu_new []" _ _ body] wf_cpu_new inv
      unfolding translates_def open_body_def
      by (fastforce simp: know_def dest: length_ir_exec)
    ultimately show ?thesis using r np j
      by (auto simp: block_step_def bind_def body_inv_def)
  next
    case unhandled
    then have jr: "jit_insn inst (bv_cur_pc bv) np = ret Unhandled"
      using d unfolding direct_def jit_insn_def Let_def
      by (auto simp: no_code_def direct_MOV_def direct_ADD_def direct_binop_def direct_BL_def
          direct_ADRP_def direct_CBZ_def direct_FADD_def direct_FMOV_def direct_MRS_def
          direct_MSR_def jumps_def writes_def vwrites_def split: if_splits option.splits)
    from return_pc_closes [OF inv] obtain b2 where "return_pc (bv_cur_pc bv) body = (Val (), b2)"
      "closed_body F S b2" by blast
    with r np jr show ?thesis
      by (auto simp: block_step_def bind_def body_inv_def split: if_splits)
  next
    case code
    have "a' = a \<and> open_body F S np b1"
      by (rule open_body_append [OF inv t j]) (use keep code in auto)
    with code r np j e show ?thesis
      by (auto simp: block_step_def bind_def body_inv_def ends_block_def d)
  qed
qed

subsection \<open>The loop and the finished body\<close>

text \<open>The instructions the loop translates, with their addresses, up to the one that ends it.\<close>

primrec block_insns ::
  "fpu \<Rightarrow> nat \<Rightarrow> bool \<Rightarrow> 'x bad64 \<Rightarrow> 'h sys \<Rightarrow> u64 \<Rightarrow> (u64 \<times> 'x instruction) list" where
  "block_insns F 0 oc D m pc = []"
| "block_insns F (Suc n) oc D m pc =
     (case fetch oc D m pc of
        Val (Some inst) \<Rightarrow>
          (pc, inst) #
          (case ck_add oc pc 4 of
             Val np \<Rightarrow> if ends_block F inst pc np then [] else block_insns F n oc D m np
           | _ \<Rightarrow> [])
      | _ \<Rightarrow> [])"

definition insns_keep :: "fpu \<Rightarrow> reaches \<Rightarrow> bool \<Rightarrow> (u64 \<times> 'x instruction) list \<Rightarrow> bool" where
  "insns_keep F S oc is \<longleftrightarrow>
     (\<forall>(pc, inst) \<in> set is. \<forall>np. ck_add oc pc 4 = Val np \<longrightarrow> insn_keeps F S inst pc np)"

lemma block_loop_inv:
  assumes "block_loop n oc D m bv body = (Val bv', body')" and "body_inv F S bv body"
    and "\<not> bv_ended bv \<Longrightarrow> insns_keep F S oc (block_insns F n oc D m (bv_cur_pc bv))"
  shows "body_inv F S bv' body'"
  using assms
proof (induction n arbitrary: bv body)
  case 0
  then show ?case by simp
next
  case (Suc n)
  show ?case
  proof (cases "bv_ended bv")
    case True
    with Suc.prems show ?thesis by simp
  next
    case False
    from Suc.prems(1) False obtain f where f: "fetch oc D m (bv_cur_pc bv) = Val f"
      by (auto elim!: bind_ValE)
    show ?thesis
    proof (cases f)
      case None
      with Suc.prems f False show ?thesis by simp
    next
      case (Some inst)
      with Suc.prems(1) f False obtain bv1 b1 where s: "block_step oc inst bv body = (Val bv1, b1)"
        and l: "block_loop n oc D m bv1 b1 = (Val bv', body')"
        by (auto elim!: bind_ValE)
      have o: "open_body F S (bv_cur_pc bv) body"
        using Suc.prems(2) False by (simp add: body_inv_def)
      have k: "\<And>np. ck_add oc (bv_cur_pc bv) 4 = Val np \<Longrightarrow> insn_keeps F S inst (bv_cur_pc bv) np"
        using Suc.prems(3) [OF False] f Some by (auto simp: insns_keep_def)
      note i = block_step_inv [OF o False k s]
      show ?thesis
      proof (rule Suc.IH [OF l])
        show "body_inv F S bv1 b1" using i by blast
        assume "\<not> bv_ended bv1"
        with i Suc.prems(3) [OF False] f Some
        show "insns_keep F S oc (block_insns F n oc D m (bv_cur_pc bv1))"
          by (auto simp: insns_keep_def)
      qed
    qed
  qed
qed

text \<open>A property every instruction of the block keeps holds of the finished body.\<close>

lemma build_block_inv:
  assumes r: "build_block oc D m start_pc [] = (Val end_pc, body)"
    and refl: "\<And>c. wf_cpu c \<Longrightarrow> S c start_pc c"
    and keep: "insns_keep F S oc (block_insns F MAX_INSTS oc D m start_pc)"
  shows "closed_body F S body"
proof -
  let ?bv = "\<lparr>bv_cur_pc = start_pc, bv_ended = False, bv_compiled_any = False\<rparr>"
  from r obtain bv b1 where l: "block_loop MAX_INSTS oc D m ?bv [] = (Val bv, b1)"
    and c: "bv_compiled_any bv"
    and f: "bind (if bv_ended bv then ret () else return_pc (bv_cur_pc bv)) (\<lambda>_. ret (bv_cur_pc bv)) b1
      = (Val end_pc, body)"
    unfolding build_block_def by (auto elim!: bind_ValE split: if_splits)
  have "body_inv F S ?bv []" using refl by (simp add: body_inv_def open_body_def)
  then have i: "body_inv F S bv b1" by (rule block_loop_inv [OF l]) (use keep in simp)
  show ?thesis
  proof (cases "bv_ended bv")
    case True
    with i f show ?thesis by (simp add: body_inv_def)
  next
    case False
    then have "open_body F S (bv_cur_pc bv) b1" using i by (simp add: body_inv_def)
    from return_pc_closes [OF this] f False show ?thesis by (auto simp: bind_def)
  qed
qed

subsection \<open>What no block touches\<close>

text \<open>The fields of \<open>CpuContext\<close> that compiled code leaves alone.\<close>

definition untouched :: "cpu_context \<Rightarrow> cpu_context \<Rightarrow> bool" where
  "untouched c c' \<longleftrightarrow> ctx_pc c' = ctx_pc c \<and> ctx_pstate c' = ctx_pstate c \<and> ctx_pad c' = ctx_pad c \<and>
     ctx_exited c' = ctx_exited c \<and> ctx_exit_code c' = ctx_exit_code c \<and>
     ctx_target_os c' = ctx_target_os c"

lemma untouched_refl: "untouched c c"
  by (simp add: untouched_def)

lemma untouched_trans: "untouched c d \<Longrightarrow> untouched d e \<Longrightarrow> untouched c e"
  by (simp add: untouched_def)

lemma ctx_pad_set_x [simp]: "ctx_pad (set_x n v c) = ctx_pad c"
  by (simp add: set_x_def)

lemma set_v_u64_fields [simp]:
  "ctx_pc (set_v_u64 n v c) = ctx_pc c" "ctx_pstate (set_v_u64 n v c) = ctx_pstate c"
  "ctx_pad (set_v_u64 n v c) = ctx_pad c" "ctx_exited (set_v_u64 n v c) = ctx_exited c"
  "ctx_exit_code (set_v_u64 n v c) = ctx_exit_code c"
  "ctx_target_os (set_v_u64 n v c) = ctx_target_os c"
  by (simp_all add: set_v_u64_def)

lemma untouched_jit_write: "untouched c (jit_write reg w c)"
  by (auto simp: untouched_def jit_write_def Let_def split: option.split)

lemma untouched_jit_vwrite: "untouched c (jit_vwrite reg w c)"
  by (auto simp: untouched_def jit_vwrite_def split: option.split)

text \<open>
  A meaning that leaves these fields alone and does not depend on the pc in the register
  file, which compiled code does not maintain.
\<close>

definition pc_free_fn :: "(cpu_context \<Rightarrow> 'a) \<Rightarrow> bool" where
  "pc_free_fn f \<longleftrightarrow> (\<forall>c p. f (c\<lparr>ctx_pc := p\<rparr>) = f c)"

definition pc_free :: "direct \<Rightarrow> bool" where
  "pc_free d \<longleftrightarrow>
     (case d of (a, eff, target) \<Rightarrow>
        (\<forall>c. untouched c (eff c)) \<and> (\<forall>c p. eff (c\<lparr>ctx_pc := p\<rparr>) = (eff c)\<lparr>ctx_pc := p\<rparr>) \<and>
        pc_free_fn target)"

named_theorems pc_free_intros \<open>meanings that do not depend on the pc\<close>

lemma pc_free_jit_read [pc_free_intros]: "pc_free_fn (jit_read r)"
  by (auto simp: pc_free_fn_def jit_read_def Let_def split: option.split)

lemma pc_free_jit_vread [pc_free_intros]: "pc_free_fn (jit_vread r)"
  by (auto simp: pc_free_fn_def jit_vread_def get_f64_def split: option.split)

lemma pc_free_const [pc_free_intros]: "pc_free_fn (\<lambda>c. x)" "pc_free_fn ctx_tpidr_el0"
  by (auto simp: pc_free_fn_def)

lemma pc_free_second_source [pc_free_intros]: "pc_free_fn (second_source ops)"
  using pc_free_jit_read by (auto simp: pc_free_fn_def second_source_def split: option.split)

lemma pc_free_apply [pc_free_intros]:
  "pc_free_fn f \<Longrightarrow> pc_free_fn g \<Longrightarrow> pc_free_fn (\<lambda>c. int_op opc (f c) (g c))"
  "pc_free_fn f \<Longrightarrow> pc_free_fn g \<Longrightarrow> pc_free_fn (\<lambda>c. float_op F fop (f c) (g c))"
  "pc_free_fn f \<Longrightarrow> pc_free_fn (\<lambda>c. if cc_holds cc (f c) 0 then x else y)"
  by (auto simp: pc_free_fn_def)

lemma set_x_ctx_pc: "set_x n v (c\<lparr>ctx_pc := p\<rparr>) = (set_x n v c)\<lparr>ctx_pc := p\<rparr>"
  by (simp add: set_x_def)

lemma set_v_u64_ctx_pc: "set_v_u64 n v (c\<lparr>ctx_pc := p\<rparr>) = (set_v_u64 n v c)\<lparr>ctx_pc := p\<rparr>"
  by (simp add: set_v_u64_def)

lemma pc_free_no_code [pc_free_intros]: "pc_free (no_code a)"
  by (simp add: pc_free_def no_code_def untouched_refl pc_free_const)

lemma pc_free_writes [pc_free_intros]: "pc_free_fn f \<Longrightarrow> pc_free (writes rd f)"
  by (auto simp: pc_free_def writes_def untouched_jit_write pc_free_const)
    (auto simp: pc_free_fn_def jit_write_def set_x_ctx_pc Let_def split: option.split)

lemma pc_free_vwrites [pc_free_intros]: "pc_free_fn f \<Longrightarrow> pc_free (vwrites rd f)"
  by (auto simp: pc_free_def vwrites_def untouched_jit_vwrite pc_free_const)
    (auto simp: pc_free_fn_def jit_vwrite_def set_v_u64_ctx_pc split: option.split)

lemma pc_free_jumps [pc_free_intros]: "pc_free_fn f \<Longrightarrow> pc_free (jumps f)"
  by (simp add: pc_free_def jumps_def untouched_refl)

lemma pc_free_BL [pc_free_intros]: "pc_free (direct_BL ops np)"
  by (auto simp: pc_free_def direct_BL_def untouched_jit_write pc_free_const)
    (auto simp: jit_write_def set_x_ctx_pc Let_def split: option.split)

lemma pc_free_MSR [pc_free_intros]: "pc_free (direct_MSR ops)"
  using pc_free_jit_read
  by (cases "reg_at ops 1")
    (auto simp: direct_MSR_def pc_free_no_code, auto simp: pc_free_def untouched_def pc_free_fn_def)

lemma pc_free_arms [pc_free_intros]:
  "pc_free (direct_MOV ops)" "pc_free (direct_ADD opc ops)" "pc_free (direct_binop opc ops)"
  "pc_free (direct_ADRP ops pc)" "pc_free (direct_CBZ cc ops np)" "pc_free (direct_FADD F opc ops)"
  "pc_free (direct_FMOV ops)" "pc_free (direct_MRS ops)"
  unfolding direct_MOV_def direct_ADD_def direct_binop_def direct_ADRP_def direct_CBZ_def
    direct_FADD_def direct_FMOV_def direct_MRS_def
  by (auto split: option.split intro!: pc_free_no_code pc_free_writes pc_free_vwrites pc_free_jumps
      pc_free_apply pc_free_second_source pc_free_jit_read pc_free_jit_vread pc_free_const)

lemma pc_free_direct: "pc_free (direct F inst pc np)"
  unfolding direct_def Let_def by (auto intro!: pc_free_intros)

lemma untouched_direct: "direct F inst pc np = (a, eff, target) \<Longrightarrow> untouched c (eff c)"
  using pc_free_direct [of F inst pc np] by (simp add: pc_free_def)

lemma insns_keep_untouched: "insns_keep F (\<lambda>c w c'. untouched c c') oc is"
  unfolding insns_keep_def insn_keeps_def
  by (auto split: prod.split dest: untouched_direct intro: untouched_trans)

end
