(* ===== verification/Jit_Exact.thy ===== *)
theory Jit_Exact
  imports Jit_Block Interp_Correct
begin

text \<open>
  The instructions the compiler translates as the interpreter executes them: for each, the
  direct meaning of the compiled code and the arm of \<open>Interpreter::step\<close> agree.
\<close>

unbundle bit_operations_syntax

subsection \<open>Operands both read alike\<close>

definition same_view :: "reg \<Rightarrow> bool" where
  "same_view r \<longleftrightarrow> jit_v_reg_idx r = None \<and> r \<noteq> WSP"

fun exact_reg :: "'x operand \<Rightarrow> bool" where
  "exact_reg (O_Reg r x) = same_view r"
| "exact_reg _ = False"

fun exact_src :: "'x operand \<Rightarrow> bool" where
  "exact_src (O_Imm64 imm None) = True"
| "exact_src (O_Imm32 imm None) = True"
| "exact_src op = exact_reg op"

fun is_label :: "'x operand \<Rightarrow> bool" where
  "is_label (O_Label imm) = True"
| "is_label _ = False"

text \<open>A 64-bit destination or one that discards the result.\<close>

fun wide_reg :: "'x operand \<Rightarrow> bool" where
  "wide_reg (O_Reg r x) = (same_view r \<and> \<not> is_w_reg r)"
| "wide_reg _ = False"

fun d_operand :: "'x bad64 \<Rightarrow> 'x operand \<Rightarrow> bool" where
  "d_operand D (O_Reg (RD n) x) = (n < 32 \<and> reg_size D (RD n) = 8)"
| "d_operand D _ = False"

fun page_label :: "'x operand \<Rightarrow> bool" where
  "page_label (O_Label imm) = (imm_to_u64 imm AND 0xFFF = 0)"
| "page_label _ = False"

definition exact_insn :: "'x bad64 \<Rightarrow> 'x instruction \<Rightarrow> bool" where
  "exact_insn D inst =
     (let op = inst_op inst
      in case inst_operands inst of
           [] \<Rightarrow> op = Op_sys NOP \<or> op = Op_branch RET
         | [a] \<Rightarrow> op = Op_branch RET \<or> (op = Op_branch B \<or> op = Op_branch BL) \<and> is_label a
         | [a, b] \<Rightarrow>
             op = Op_arith MOV \<and> exact_reg a \<and> exact_src b \<or>
             (op = Op_branch CBZ \<or> op = Op_branch CBNZ) \<and> exact_reg a \<and> is_label b \<or>
             op = Op_arith ADRP \<and> exact_reg a \<and> page_label b \<or>
             op = Op_cond MRS \<and> exact_reg a \<and> sysreg_is_tpidr (fmt_operand D b) \<or>
             op = Op_cond MSR \<and> sysreg_is_tpidr (fmt_operand D a) \<and> exact_reg b \<or>
             op = Op_fp FMOV \<and>
               (d_operand D a \<and> d_operand D b \<or> d_operand D a \<and> exact_reg b \<or>
                exact_reg a \<and> d_operand D b)
         | [a, b, d] \<Rightarrow>
             (op = Op_arith ADD \<or> op = Op_arith SUB \<or> op = Op_logic AND_op \<or> op = Op_logic EOR) \<and>
               exact_reg a \<and> exact_reg b \<and> exact_src d \<or>
             (op = Op_logic LSL \<or> op = Op_logic LSR \<or> op = Op_logic ASR) \<and>
               wide_reg a \<and> exact_reg b \<and> exact_src d
         | _ \<Rightarrow> False)"

lemma jit_is_w_reg_same: "same_view r \<Longrightarrow> jit_is_w_reg r = is_w_reg r"
  by (cases r) (auto simp: same_view_def)

lemma get_reg_val_same: "same_view r \<Longrightarrow> get_reg_val D r c = jit_read r c"
  by (cases r) (auto simp: same_view_def get_reg_val_def jit_read_def is_zero_reg_def split: if_splits)

lemma set_reg_val_same: "same_view r \<Longrightarrow> set_reg_val D r v c = jit_write r v c"
  by (cases r) (auto simp: same_view_def set_reg_val_def jit_write_def is_zero_reg_def split: if_splits)

lemma v_reg_idx_same: "jit_v_reg_idx r = v_reg_idx r"
  by (cases r) auto

lemma imm_same: "jit_imm_to_u64 imm = imm_to_u64 imm"
  by (cases imm) auto

lemma exact_regE:
  assumes "exact_reg op"
  obtains r x where "op = O_Reg r x" and "same_view r"
  using assms by (cases op) auto

lemma exact_reg_simps:
  assumes "exact_reg op"
  shows "\<exists>r. jit_get_op_reg op = Some r \<and> get_op_reg op = Some r \<and> plain_reg op = Some r \<and>
    same_view r \<and> v_reg_idx r = None \<and> (\<forall>D c. get_operand_val D op c = jit_read r c)"
proof -
  obtain r x where r: "op = O_Reg r x" "same_view r" using assms by (rule exact_regE)
  then show ?thesis by (auto simp: get_reg_val_same same_view_def v_reg_idx_same)
qed

text \<open>A source operand is a register, or an immediate that both take as it is.\<close>

lemma exact_src_cases:
  assumes "exact_src op"
  obtains (reg) r where "jit_get_op_reg op = Some r" and "\<And>D c. get_operand_val D op c = jit_read r c"
  | (imm) "jit_get_op_reg op = None" and "imm_label_or_zero op = imm_or_zero op"
      and "\<And>D c. get_operand_val D op c = imm_or_zero op"
proof (cases "exact_reg op")
  case True
  from exact_reg_simps [OF this] reg show ?thesis by blast
next
  case False
  with assms imm show ?thesis
    by (cases op rule: exact_src.cases) (auto simp: imm_same)
qed

lemma label_or_same: "is_label op \<Longrightarrow> label_or d (Some op) = get_operand_val D op c"
  by (cases op) (auto simp: imm_same)

lemma page_label_same: "page_label op \<Longrightarrow> label_or d (Some op) = get_operand_val D op c AND NOT 0xFFF"
proof -
  assume p: "page_label op"
  then obtain imm where op: "op = O_Label imm" and z: "imm_to_u64 imm AND 0xFFF = 0"
    by (cases op) auto
  have "imm_to_u64 imm = (imm_to_u64 imm AND 0xFFF) OR (imm_to_u64 imm AND NOT 0xFFF)"
    by (simp add: bit.conj_disj_distrib [symmetric])
  also have "\<dots> = imm_to_u64 imm AND NOT 0xFFF" by (simp add: z)
  finally show ?thesis using op by (simp add: imm_same)
qed

lemma get_d_operand:
  assumes "wf_cpu c" and "n < 32" and "reg_size D (RD n) = 8"
  shows "get_reg_val D (RD n) c = get_f64 c n"
  using assms wf_cpu_v [OF assms(1,2)] by (simp add: get_reg_val_def get_f64_def copy_at_def)

lemma set_d_operand:
  assumes "wf_cpu c" and "n < 32" and "reg_size D (RD n) = 8"
  shows "set_reg_val D (RD n) v c = set_v_u64 n v c"
  using assms by (simp add: set_reg_val_def set_v_u64_bytes copy_at_def)

lemma d_operandE:
  assumes "d_operand D op"
  obtains n x where "op = O_Reg (RD n) x" and "n < 32" and "reg_size D (RD n) = 8"
  using assms by (cases "(D, op)" rule: d_operand.cases) auto

subsection \<open>Arm by arm\<close>

definition compiled :: "(cpu_context \<Rightarrow> cpu_context) \<Rightarrow> direct" where
  "compiled f = (Compiled, f, \<lambda>c. 0)"

lemma exact_MOV:
  assumes "exact_reg a" and "exact_src b"
  shows "direct_MOV [a, b] = compiled (exec_MOV D [a, b])"
proof -
  obtain rd where rd: "jit_get_op_reg a = Some rd" "get_op_reg a = Some rd" "same_view rd"
    "v_reg_idx rd = None" using exact_reg_simps [OF assms(1)] by blast
  show ?thesis using assms(2)
    by (cases rule: exact_src_cases)
      (auto simp: direct_MOV_def writes_def compiled_def exec_MOV_def set_reg_val_same rd fun_eq_iff)
qed

lemma exact_three:
  assumes "exact_reg a" and "exact_reg b" and "exact_src d" and "\<And>x y. int_binop opc x y \<noteq> None"
    and "\<And>rd c. get_op_reg a = Some rd \<Longrightarrow> v_reg_idx rd = None \<Longrightarrow>
      f c = set_reg_val D rd (int_op opc (get_operand_val D b c) (get_operand_val D d c)) c"
  shows "direct_ADD opc [a, b, d] = compiled f" and "direct_binop opc [a, b, d] = compiled f"
proof -
  obtain rd where rd: "jit_get_op_reg a = Some rd" "get_op_reg a = Some rd" "same_view rd"
    "v_reg_idx rd = None" using exact_reg_simps [OF assms(1)] by blast
  obtain rn where rn: "jit_get_op_reg b = Some rn" "\<And>D c. get_operand_val D b c = jit_read rn c"
    using exact_reg_simps [OF assms(2)] by blast
  have f: "f = (\<lambda>c. jit_write rd (int_op opc (jit_read rn c) (get_operand_val D d c)) c)"
    using assms(5) [OF rd(2,4)] by (simp add: fun_eq_iff set_reg_val_same rd(3) rn(2))
  show "direct_ADD opc [a, b, d] = compiled f" using assms(3)
    by (cases rule: exact_src_cases)
      (auto simp: direct_ADD_def writes_def compiled_def f rd(1) rn(1))
  show "direct_binop opc [a, b, d] = compiled f" using assms(3)
    by (cases rule: exact_src_cases)
      (auto simp: direct_binop_def reg_at_def operand_at_def second_source_def writes_def
        compiled_def f rd(1) rn(1))
qed

lemma exact_ADD:
  "exact_reg a \<Longrightarrow> exact_reg b \<Longrightarrow> exact_src d \<Longrightarrow> direct_ADD Iadd [a, b, d] = compiled (exec_ADD D ADD [a, b, d])"
  by (rule exact_three(1)) (auto simp: exec_ADD_def int_op_def)

lemma exact_SUB:
  "exact_reg a \<Longrightarrow> exact_reg b \<Longrightarrow> exact_src d \<Longrightarrow> direct_ADD Isub [a, b, d] = compiled (exec_SUB D SUB [a, b, d])"
  by (rule exact_three(1)) (auto simp: exec_SUB_def int_op_def)

lemma exact_AND:
  "exact_reg a \<Longrightarrow> exact_reg b \<Longrightarrow> exact_src d \<Longrightarrow>
     direct_binop Band [a, b, d] = compiled (exec_AND D AND_op [a, b, d])"
  by (rule exact_three(2)) (auto simp: exec_AND_def int_op_def)

lemma exact_EOR:
  "exact_reg a \<Longrightarrow> exact_reg b \<Longrightarrow> exact_src d \<Longrightarrow>
     direct_binop Bxor [a, b, d] = compiled (exec_EOR D EOR [a, b, d])"
  by (rule exact_three(2)) (auto simp: exec_EOR_def int_op_def bitwise_vals_def)

text \<open>A shift by a register or immediate is taken modulo 64 by both.\<close>

lemma shift_amount_64:
  "\<not> is_w_reg r \<Longrightarrow> unat (shift_amount r a) mod 64 = unat (a :: u64) mod 64"
proof -
  assume "\<not> is_w_reg r"
  moreover have "(63 :: u32) = mask 6" by (simp add: mask_eq_exp_minus_1)
  ultimately have "unat (shift_amount r a) = unat (take_bit 6 (ucast a :: u32))"
    by (simp add: shift_amount_def take_bit_eq_mask)
  also have "\<dots> = take_bit 6 (unat a)"
    by (simp add: unsigned_take_bit_eq unsigned_ucast_eq)
  finally show ?thesis by (simp add: take_bit_eq_mod)
qed

lemma exact_shift:
  assumes "wide_reg a" and "exact_reg b" and "exact_src d"
  shows "direct_binop Ishl [a, b, d] = compiled (exec_LSL D [a, b, d])"
    and "direct_binop Ushr [a, b, d] = compiled (exec_LSR D [a, b, d])"
    and "direct_binop Sshr [a, b, d] = compiled (exec_ASR D [a, b, d])"
proof -
  obtain r x where a: "a = O_Reg r x" "same_view r" "\<not> is_w_reg r"
    using assms(1) by (cases a) auto
  then have ar: "exact_reg a" by simp
  show "direct_binop Ishl [a, b, d] = compiled (exec_LSL D [a, b, d])"
    by (rule exact_three(2) [OF ar assms(2,3)])
      (auto simp: exec_LSL_def exec3_def sized_shift_def int_op_def wrapping_shl_def
        shift_amount_64 a)
  show "direct_binop Ushr [a, b, d] = compiled (exec_LSR D [a, b, d])"
    by (rule exact_three(2) [OF ar assms(2,3)])
      (auto simp: exec_LSR_def exec3_def sized_shift_def int_op_def wrapping_shr_def
        shift_amount_64 a)
  show "direct_binop Sshr [a, b, d] = compiled (exec_ASR D [a, b, d])"
    by (rule exact_three(2) [OF ar assms(2,3)])
      (auto simp: exec_ASR_def exec3_def sized_shift_def int_op_def wrapping_sar_def
        shift_amount_64 a)
qed

lemma exact_ADRP:
  assumes "exact_reg a" and "page_label b"
  shows "direct_ADRP [a, b] pc = compiled (exec_ADRP D [a, b])"
proof -
  obtain rd where rd: "jit_get_op_reg a = Some rd" "plain_reg a = Some rd" "same_view rd"
    using exact_reg_simps [OF assms(1)] by blast
  have l: "get_operand_val D b c AND NOT 0xFFF = label_or (pc AND NOT 0xFFF) (Some b)" for c
    by (rule page_label_same [OF assms(2), symmetric])
  show ?thesis unfolding direct_ADRP_def exec_ADRP_def
    by (simp add: l [simplified] reg_at_def operand_at_def writes_def compiled_def set_reg_val_same rd)
qed

lemma exact_CBZ:
  assumes "exact_reg a" and "is_label b" and "(cc, opc) \<in> {(Equal, CBZ), (NotEqual, CBNZ)}"
  shows "direct_CBZ cc [a, b] np = jumps (exec_CBZ D opc [a, b] np)"
proof -
  obtain r where r: "jit_get_op_reg a = Some r" "\<And>D c. get_operand_val D a c = jit_read r c"
    using exact_reg_simps [OF assms(1)] by blast
  show ?thesis using assms(3) label_or_same [OF assms(2)]
    by (auto simp: direct_CBZ_def reg_at_def operand_at_def jumps_def exec_CBZ_def r fun_eq_iff)
qed

lemma exact_MRS:
  assumes "exact_reg a" and "sysreg_is_tpidr (fmt_operand D b)"
  shows "direct_MRS [a, b] = compiled (exec_MRS D [a, b])"
proof -
  obtain rd where rd: "jit_get_op_reg a = Some rd" "get_op_reg a = Some rd" "same_view rd"
    using exact_reg_simps [OF assms(1)] by blast
  show ?thesis using assms(2)
    by (auto simp: direct_MRS_def reg_at_def operand_at_def writes_def compiled_def exec_MRS_def
        set_reg_val_same rd fun_eq_iff)
qed

lemma exact_MSR:
  assumes "sysreg_is_tpidr (fmt_operand D a)" and "exact_reg b"
  shows "direct_MSR [a, b] = compiled (exec_MSR D [a, b])"
proof -
  obtain r where r: "jit_get_op_reg b = Some r" "\<And>D c. get_operand_val D b c = jit_read r c"
    using exact_reg_simps [OF assms(2)] by blast
  show ?thesis using assms(1)
    by (auto simp: direct_MSR_def reg_at_def operand_at_def compiled_def exec_MSR_def r fun_eq_iff)
qed

lemma exact_FMOV:
  assumes "d_operand D a \<and> d_operand D b \<or> d_operand D a \<and> exact_reg b \<or> exact_reg a \<and> d_operand D b"
  shows "\<exists>eff. direct_FMOV [a, b] = compiled eff \<and> (\<forall>c. wf_cpu c \<longrightarrow> eff c = exec_FMOV D [a, b] c)"
proof -
  have src: "\<exists>r x. op = O_Reg r x \<and> (\<forall>c. wf_cpu c \<longrightarrow> get_operand_val D op c =
      (if d_operand D op then jit_vread r c else jit_read r c)) \<and> (jit_v_reg_idx r \<noteq> None) = d_operand D op"
    if "d_operand D op \<or> exact_reg op" for op
    using that
  proof
    assume d: "d_operand D op"
    then obtain n x where n: "op = O_Reg (RD n) x" "n < 32" "reg_size D (RD n) = 8" by (rule d_operandE)
    with d show ?thesis by (auto simp: get_d_operand jit_vread_def)
  next
    assume e: "exact_reg op"
    then obtain r x where "op = O_Reg r x" "same_view r" by (rule exact_regE)
    moreover from this have "\<not> d_operand D op" by (cases r) (auto simp: same_view_def)
    ultimately show ?thesis by (auto simp: get_reg_val_same same_view_def)
  qed
  have dst: "\<forall>c v. wf_cpu c \<longrightarrow> set_reg_val D r v c =
      (if d_operand D (O_Reg r x) then jit_vwrite r v c else jit_write r v c)"
    if "d_operand D (O_Reg r x) \<or> exact_reg (O_Reg r x)" for r x
    using that
  proof
    assume d: "d_operand D (O_Reg r x)"
    then obtain n where "r = RD n" "n < 32" "reg_size D (RD n) = 8" by (auto elim: d_operandE)
    with d show ?thesis by (simp add: set_d_operand jit_vwrite_def)
  next
    assume e: "exact_reg (O_Reg r x)"
    then have "\<not> d_operand D (O_Reg r x)" by (cases r) (auto simp: same_view_def)
    with e show ?thesis by (simp add: set_reg_val_same)
  qed
  obtain ra xa where a: "a = O_Reg ra xa" "(jit_v_reg_idx ra \<noteq> None) = d_operand D a"
    using src [of a] assms by blast
  obtain rb xb where b: "b = O_Reg rb xb" "(jit_v_reg_idx rb \<noteq> None) = d_operand D b"
    "\<forall>c. wf_cpu c \<longrightarrow> get_operand_val D b c = (if d_operand D b then jit_vread rb c else jit_read rb c)"
    using src [of b] assms by blast
  have w: "\<forall>c v. wf_cpu c \<longrightarrow> set_reg_val D ra v c = (if d_operand D a then jit_vwrite ra v c else jit_write ra v c)"
    using dst [of ra xa] assms a(1) by auto
  have x: "exec_FMOV D [a, b] c = set_reg_val D ra (get_operand_val D b c) c" for c
    by (simp add: exec_FMOV_def a(1))
  show ?thesis using assms w b(3) a(2) b(2)
    unfolding direct_FMOV_def compiled_def x
    by (auto simp: reg_at_def operand_at_def a(1) b(1) vwrites_def writes_def)
qed

subsection \<open>The compiled code of an exact instruction is an interpreter step\<close>

definition agrees :: "('h, 'x) env \<Rightarrow> 'x instruction \<Rightarrow> u64 \<Rightarrow> u64 \<Rightarrow> 'h machine \<Rightarrow> bool" where
  "agrees E inst pc np m \<longleftrightarrow>
     (case direct (env_fpu E) inst pc np of (a, eff, target) \<Rightarrow>
        (a = Compiled \<or> a = Ended) \<and>
        execute E pc inst np m =
          (Val (Some (if a = Ended then target (ctx m) else np)), m\<lparr>ctx := eff (ctx m)\<rparr>))"

lemma agrees_compiled:
  assumes "direct (env_fpu E) inst pc np = compiled eff"
    and "execute E pc inst np m = (Val (Some np), m\<lparr>ctx := eff (ctx m)\<rparr>)"
  shows "agrees E inst pc np m"
  using assms by (simp add: agrees_def compiled_def)

lemma agrees_jump:
  assumes "direct (env_fpu E) inst pc np = jumps t" and "inst_op inst = Op_branch opc"
    and "exec_branch (env_oc E) (env_dis E) opc pc (inst_operands inst) np m = (Val (t (ctx m)), m)"
  shows "agrees E inst pc np m"
  using assms by (simp add: agrees_def jumps_def execute.simps Let_def bind_def)

lemma exact_agrees:
  assumes x: "exact_insn (env_dis E) inst" and np: "ck_add (env_oc E) pc 4 = Val np"
    and wf: "wf_cpu (ctx m)"
  shows "agrees E inst pc np m"
proof -
  let ?ops = "inst_operands inst" and ?D = "env_dis E"
  note ex = execute.simps Let_def direct_def on_regs_def on_ctx_out_def bind_def
  consider (zero) "?ops = []" | (one) a where "?ops = [a]" | (two) a b where "?ops = [a, b]"
    | (three) a b d where "?ops = [a, b, d]"
    using x by (auto simp: exact_insn_def Let_def split: list.splits)
  then show ?thesis
  proof cases
    case zero
    then consider "inst_op inst = Op_sys NOP" | "inst_op inst = Op_branch RET"
      using x by (auto simp: exact_insn_def Let_def)
    then show ?thesis
      by cases (simp_all add: agrees_def ex no_code_def jumps_def exec_RET_def jit_read_def
          is_zero_reg_def)
  next
    case one
    then consider "inst_op inst = Op_branch RET" | "inst_op inst = Op_branch B" "is_label a"
      | "inst_op inst = Op_branch BL" "is_label a"
      using x by (auto simp: exact_insn_def Let_def)
    then show ?thesis
    proof cases
      case 1
      with one show ?thesis
        by (simp add: agrees_def ex jumps_def exec_RET_def jit_read_def is_zero_reg_def)
    next
      case 2
      then show ?thesis using one label_or_same [of a np ?D "ctx m"]
        by (simp add: agrees_def ex jumps_def exec_B_def operand_at_def)
    next
      case 3
      then show ?thesis using one np label_or_same [of a np ?D "jit_write (RX 30) np (ctx m)"]
        by (cases a) (simp_all add: agrees_def ex direct_BL_def exec_BL_def operand_at_def
            ctx_comp_def jit_write_def is_zero_reg_def)
    qed
  next
    case two
    then consider (mov) "inst_op inst = Op_arith MOV" "exact_reg a" "exact_src b"
      | (cbz) "inst_op inst = Op_branch CBZ" "exact_reg a" "is_label b"
      | (cbnz) "inst_op inst = Op_branch CBNZ" "exact_reg a" "is_label b"
      | (adrp) "inst_op inst = Op_arith ADRP" "exact_reg a" "page_label b"
      | (mrs) "inst_op inst = Op_cond MRS" "exact_reg a" "sysreg_is_tpidr (fmt_operand ?D b)"
      | (msr) "inst_op inst = Op_cond MSR" "sysreg_is_tpidr (fmt_operand ?D a)" "exact_reg b"
      | (fmov) "inst_op inst = Op_fp FMOV" "d_operand ?D a \<and> d_operand ?D b \<or>
          d_operand ?D a \<and> exact_reg b \<or> exact_reg a \<and> d_operand ?D b"
      using x by (auto simp: exact_insn_def Let_def)
    then show ?thesis
    proof cases
      case mov
      then show ?thesis using two
        by (intro agrees_compiled [where eff = "exec_MOV ?D [a, b]"]) (auto simp: ex exact_MOV)
    next
      case cbz
      then show ?thesis using two
        by (intro agrees_jump [where t = "exec_CBZ ?D CBZ [a, b] np" and opc = CBZ])
          (auto simp: ex intro!: exact_CBZ)
    next
      case cbnz
      then show ?thesis using two
        by (intro agrees_jump [where t = "exec_CBZ ?D CBNZ [a, b] np" and opc = CBNZ])
          (auto simp: ex intro!: exact_CBZ)
    next
      case adrp
      then show ?thesis using two
        by (intro agrees_compiled [where eff = "exec_ADRP ?D [a, b]"]) (auto simp: ex exact_ADRP)
    next
      case mrs
      then show ?thesis using two
        by (intro agrees_compiled [where eff = "exec_MRS ?D [a, b]"]) (auto simp: ex exact_MRS)
    next
      case msr
      then show ?thesis using two
        by (intro agrees_compiled [where eff = "exec_MSR ?D [a, b]"]) (auto simp: ex exact_MSR)
    next
      case fmov
      from exact_FMOV [OF fmov(2)] obtain eff where "direct_FMOV [a, b] = compiled eff"
        "eff (ctx m) = exec_FMOV ?D [a, b] (ctx m)" using wf by blast
      then show ?thesis using two fmov(1)
        by (intro agrees_compiled [where eff = eff]) (auto simp: ex)
    qed
  next
    case three
    then consider (arith) "inst_op inst = Op_arith ADD \<or> inst_op inst = Op_arith SUB \<or>
        inst_op inst = Op_logic AND_op \<or> inst_op inst = Op_logic EOR" "exact_reg a" "exact_reg b" "exact_src d"
      | (shift) "inst_op inst = Op_logic LSL \<or> inst_op inst = Op_logic LSR \<or> inst_op inst = Op_logic ASR"
          "wide_reg a" "exact_reg b" "exact_src d"
      using x by (auto simp: exact_insn_def Let_def)
    then show ?thesis
    proof cases
      case arith
      then show ?thesis using three
        by (elim disjE; intro agrees_compiled)
          (auto simp: ex exact_ADD exact_SUB exact_AND exact_EOR)
    next
      case shift
      then show ?thesis using three
        by (elim disjE; intro agrees_compiled) (auto simp: ex exact_shift)
    qed
  qed
qed

end
