(* ===== verification/Accelerate.thy ===== *)
theory Accelerate
  imports Stepper
begin

text \<open>
  Machines that run several steps at once: the contract between a step function and a
  coarser one that works on a larger state, and the proof that the run loops of the two
  return the same results.
\<close>

subsection \<open>Steps in a row\<close>

text \<open>
  \<open>big_step step s q t\<close>: \<open>q\<close> and \<open>t\<close> are what a sequence of steps from \<open>s\<close> leads to: at
  least one step when it may go on, the end of the run or the error otherwise.
\<close>

definition big_step :: "('s, bool) comp \<Rightarrow> 's \<Rightarrow> bool out \<Rightarrow> 's \<Rightarrow> bool" where
  "big_step step s q t \<longleftrightarrow>
     (if q = Val True then \<exists>j \<ge> 1. max_steps step j s = (Val False, t)
      else \<exists>j. max_steps step j s = (if q = Val False then Val True else q, t))"

lemma max_steps_trans:
  "max_steps step i s = (Val False, t) \<Longrightarrow> max_steps step (i + j) s = max_steps step j t"
  by (simp add: max_steps_split)

lemma big_step_prefix:
  assumes "max_steps step i s = (Val False, t)" and "big_step step t q u"
  shows "big_step step s q u"
proof (cases "q = Val True")
  case True
  with assms(2) obtain j where j: "j \<ge> 1" "max_steps step j t = (Val False, u)"
    by (auto simp: big_step_def)
  with max_steps_trans [OF assms(1), of j] have "max_steps step (i + j) s = (Val False, u)" by simp
  moreover have "1 \<le> i + j" using j(1) by simp
  ultimately show ?thesis using True unfolding big_step_def by auto
next
  case False
  with assms(2) obtain j where "max_steps step j t = (if q = Val False then Val True else q, u)"
    by (auto simp: big_step_def)
  with max_steps_trans [OF assms(1), of j] show ?thesis
    using False unfolding big_step_def by auto
qed

lemma big_step_one: "step s = (q, t) \<Longrightarrow> big_step step s q t"
proof -
  assume s: "step s = (q, t)"
  show ?thesis
  proof (cases "q = Val True")
    case True
    with s have "max_steps step 1 s = (Val False, t)" by simp
    with True show ?thesis unfolding big_step_def by (simp only: simp_thms if_True) blast
  next
    case False
    with s have "max_steps step 1 s = (if q = Val False then Val True else q, t)"
      by (cases q) auto
    with False show ?thesis unfolding big_step_def by (simp only: simp_thms if_False) blast
  qed
qed

lemma max_steps_rest:
  assumes "max_steps step n s = (r, u)" and "finished r" and "max_steps step j s = (Val False, t)"
  shows "j < n \<and> max_steps step (n - j) t = (r, u)"
proof -
  have "j < n"
  proof (rule ccontr)
    assume "\<not> j < n"
    with max_steps_mono [OF assms(1,2), of j] assms(3) have "r = Val False" by simp
    with assms(2) show False by (simp add: finished_def)
  qed
  with max_steps_trans [OF assms(3), of "n - j"] assms(1) show ?thesis by simp
qed

lemma max_steps_unique:
  assumes "max_steps step n s = (r, u)" and "finished r" and "max_steps step j s = (r', t)"
    and "finished r'"
  shows "r = r' \<and> u = t"
  using max_steps_mono [OF assms(1,2), of "max n j"] max_steps_mono [OF assms(3,4), of "max n j"]
  by simp

subsection \<open>The contract\<close>

text \<open>
  \<open>big\<close> works on states that contain the small ones; as long as its invariant holds it
  does several steps, and it stops where the small machine does.
\<close>

locale accelerator = stepper step halted for step :: "('s, bool) comp" and halted +
  fixes big :: "('t, bool) comp" and proj :: "'t \<Rightarrow> 's" and inv :: "'t \<Rightarrow> bool"
  assumes big_sim: "inv s \<Longrightarrow> \<not> halted (proj s) \<Longrightarrow> big s = (q, s') \<Longrightarrow>
      big_step step (proj s) q (proj s') \<and> (q = Val True \<longrightarrow> inv s')"
    and big_halted: "halted (proj s) \<Longrightarrow> big s = (Val False, s)"
begin

lemma big_max_steps:
  assumes "max_steps big n s = (r, s')" and "finished r" and "inv s"
  shows "run_loop step (proj s) = Some (as_run_result r, proj s')"
  using assms
proof (induction n arbitrary: s)
  case 0
  then show ?case by (simp add: finished_def)
next
  case (Suc n)
  show ?case
  proof (cases "halted (proj s)")
    case True
    with Suc.prems(1) have "r = Val True" "s' = s" by (simp_all add: big_halted)
    with True show ?thesis by (simp add: run_halted as_run_result_def)
  next
    case False
    obtain q u where b: "big s = (q, u)" by fastforce
    note sim = big_sim [OF Suc.prems(3) False b]
    show ?thesis
    proof (cases "q = Val True")
      case True
      with Suc.prems(1) b have "max_steps big n u = (r, s')" by simp
      then have u: "run_loop step (proj u) = Some (as_run_result r, proj s')"
        by (rule Suc.IH [OF _ Suc.prems(2)]) (use sim True in simp)
      from sim True obtain j where j: "max_steps step j (proj s) = (Val False, proj u)"
        by (auto simp: big_step_def)
      from max_steps_of_run_loop [OF u] obtain k r'
        where k: "max_steps step k (proj u) = (r', proj s')" "finished r'"
          "as_run_result r = as_run_result r'" by blast
      with max_steps_trans [OF j, of k] have "max_steps step (j + k) (proj s) = (r', proj s')" by simp
      from run_loop_of_max_steps [OF this k(2)] k(3) show ?thesis by simp
    next
      case False
      have "r = (if q = Val False then Val True else q) \<and> s' = u"
        using False Suc.prems(1) b by (cases q) (auto split: if_splits)
      then have r: "r = (if q = Val False then Val True else q)" "s' = u" by blast+
      with sim False obtain j where "max_steps step j (proj s) = (r, proj s')"
        by (auto simp: big_step_def)
      from run_loop_of_max_steps [OF this Suc.prems(2)] show ?thesis .
    qed
  qed
qed

lemma run_big:
  assumes "inv s" and "run_loop big s = Some (r, s')"
  shows "run_loop step (proj s) = Some (r, proj s')"
proof -
  from max_steps_of_run_loop [OF assms(2)] obtain n r'
    where n: "max_steps big n s = (r', s')" "finished r'" "r = as_run_result r'" by blast
  from big_max_steps [OF n(1,2) assms(1)] n(3) show ?thesis by simp
qed

lemma small_max_steps:
  assumes "max_steps step n (proj s) = (r, t)" and "finished r" and "inv s"
  shows "\<exists>k s'. max_steps big k s = (r, s') \<and> proj s' = t"
  using assms
proof (induction n arbitrary: s rule: less_induct)
  case (less n)
  show ?case
  proof (cases "halted (proj s)")
    case True
    have "max_steps step 1 (proj s) = (Val True, proj s)" using True by (simp add: halted_stays)
    from max_steps_unique [OF less.prems(1,2) this] have "r = Val True" "t = proj s"
      by (simp_all add: finished_def)
    moreover have "max_steps big 1 s = (Val True, s)" using True by (simp add: big_halted)
    ultimately show ?thesis by blast
  next
    case False
    obtain q u where b: "big s = (q, u)" by fastforce
    note sim = big_sim [OF less.prems(3) False b]
    show ?thesis
    proof (cases "q = Val True")
      case True
      with sim obtain j where j: "j \<ge> 1" "max_steps step j (proj s) = (Val False, proj u)"
        by (auto simp: big_step_def)
      from max_steps_rest [OF less.prems(1,2) j(2)]
      have n: "n - j < n" "max_steps step (n - j) (proj u) = (r, t)" using j(1) by auto
      from less.IH [OF n less.prems(2)] sim True
      obtain k s' where "max_steps big k u = (r, s')" "proj s' = t" by blast
      with b True have "max_steps big (Suc k) s = (r, s')" by simp
      with \<open>proj s' = t\<close> show ?thesis by blast
    next
      case False
      let ?r = "if q = Val False then Val True else q"
      from sim False obtain j where j: "max_steps step j (proj s) = (?r, proj u)"
        by (auto simp: big_step_def)
      have "finished ?r" using False by (auto simp: finished_def)
      from max_steps_unique [OF less.prems(1,2) j this] have "r = ?r" "t = proj u" by simp_all
      moreover have "max_steps big 1 s = (?r, u)" using b False by (cases q) auto
      ultimately show ?thesis by blast
    qed
  qed
qed

text \<open>The coarse loop returns exactly what the fine one returns.\<close>

lemma runs_agree:
  assumes "inv s"
  shows "(\<exists>s'. run_loop big s = Some (r, s') \<and> proj s' = t) \<longleftrightarrow> run_loop step (proj s) = Some (r, t)"
proof
  assume "\<exists>s'. run_loop big s = Some (r, s') \<and> proj s' = t"
  then show "run_loop step (proj s) = Some (r, t)" using run_big [OF assms] by blast
next
  assume "run_loop step (proj s) = Some (r, t)"
  from max_steps_of_run_loop [OF this] obtain n r'
    where n: "max_steps step n (proj s) = (r', t)" "finished r'" "r = as_run_result r'" by blast
  from small_max_steps [OF n(1,2) assms] obtain k s'
    where "max_steps big k s = (r', s')" "proj s' = t" by blast
  with run_loop_of_max_steps [OF this(1) n(2)] n(3)
  show "\<exists>s'. run_loop big s = Some (r, s') \<and> proj s' = t" by blast
qed

end

end
