(* ===== verification/Jit_Correct.thy ===== *)
theory Jit_Correct
  imports Jit_Exact Accelerate
begin

text \<open>
  What the just-in-time compiler guarantees: every body it builds is well-typed and
  returns, a block of exact instructions does what the interpreter does, and a run with
  the compiler returns what a run of the interpreter returns.
\<close>

unbundle bit_operations_syntax

subsection \<open>The offsets\<close>

text \<open>C22: the offsets that compiled code uses are those of the fields of \<open>CpuContext\<close>: a load
  or a store at the offset of a general register, of the stack pointer, of \<open>TPIDR_EL0\<close> or of
  the low half of a vector register reads or writes that field and no other.\<close>

theorem register_offsets:
  assumes "wf_cpu c" and "i < 31" and "n < 32"
  shows "get_reg_offset (RX i) = Some (i * 8) \<and> ctx_peek (i * 8) c = Some (get_x c i) \<and>
    ctx_poke (i * 8) w c = Some (set_x i w c) \<and>
    get_reg_offset SP = Some 248 \<and> ctx_peek 248 c = Some (ctx_sp c) \<and>
    ctx_poke 248 w c = Some (c\<lparr>ctx_sp := w\<rparr>) \<and>
    ctx_peek 784 c = Some (ctx_tpidr_el0 c) \<and> ctx_poke 784 w c = Some (c\<lparr>ctx_tpidr_el0 := w\<rparr>) \<and>
    get_v_reg_offset (RD n) = Some (272 + n * 16) \<and>
    ctx_peek (272 + n * 16) c = Some (get_f64 c n) \<and>
    Option.bind (ctx_poke (272 + n * 16) w c) (ctx_poke (272 + n * 16 + 8) 0) =
      Some (set_v_u64 n w c)"
  using assms poke_v_pair [OF assms(1,3), of w]
  by (auto simp: get_reg_offset_def get_v_reg_offset_def ctx_access)

theorem register_offsets_witness:
  "Option.bind (ctx_poke (5 * 8) 7 cpu_new) (ctx_peek (5 * 8)) = Some 7"
proof -
  have w: "wf_cpu (set_x 5 7 cpu_new)" by (simp add: wf_cpu_new)
  show ?thesis
    using register_offsets [OF wf_cpu_new, of 5 0 7] register_offsets [OF w, of 5 0 7]
    by (simp add: get_set_x wf_cpu_new)
qed

subsection \<open>Every compiled body is well-typed\<close>

text \<open>C11: every body the block builder emits is well-typed and complete: whatever the memory
  held when it was compiled, running it on a well-formed context never meets an undefined
  value or one of the wrong type, every load and store is aligned and inside the struct, no
  load covers its padding and no store leaves an invalid \<open>exited\<close> or \<open>target_os\<close>; it ends with
  a return, keeps the context well-formed and leaves the pc, the flags and the exit state
  behind \<open>TPIDR_EL0\<close> as they were.\<close>

theorem compiled_body_well_typed:
  assumes "build_block oc D m start_pc [] = (Val end_pc, body)" and "wf_cpu c"
  shows "\<exists>w c'. ir_run F body ([], c) = Some (w, c') \<and> wf_cpu c' \<and> untouched c c'"
proof -
  have "closed_body F (\<lambda>c w c'. untouched c c') body"
    by (rule build_block_inv [OF assms(1)]) (simp_all add: untouched_refl insns_keep_untouched)
  then show ?thesis using assms(2) by (auto simp: closed_body_def)
qed

subsection \<open>The extent of a block\<close>

lemma block_step_pc:
  assumes "block_step oc inst bv b = (Val bv', b')"
  shows "ck_add oc (bv_cur_pc bv) 4 = Val (bv_cur_pc bv') \<and>
    (bv_compiled_any bv \<longrightarrow> bv_compiled_any bv')"
  using assms unfolding block_step_def
  by (auto elim!: bind_ValE split: arm.splits if_splits)

definition no_overflow :: "bool \<Rightarrow> u64 \<Rightarrow> nat \<Rightarrow> bool" where
  "no_overflow oc pc n \<longleftrightarrow> (oc \<longrightarrow> unat pc + n < 2 ^ 64)"

lemma block_loop_extent:
  assumes "block_loop n oc D m bv b = (Val bv', b')"
  shows "\<exists>k \<le> n. bv_cur_pc bv' = bv_cur_pc bv + of_nat (4 * k) \<and> no_overflow oc (bv_cur_pc bv) (4 * k) \<and>
    (k = 0 \<longrightarrow> bv' = bv)"
  using assms
proof (induction n arbitrary: bv b)
  case 0
  then show ?case
    using unsigned_less [of "bv_cur_pc bv'", where ?'a = nat] by (auto simp: no_overflow_def)
next
  case (Suc n)
  have z: ?case if "bv' = bv"
    by (rule exI [of _ 0]) (use that unsigned_less [of "bv_cur_pc bv'", where ?'a = nat] in
      \<open>auto simp: no_overflow_def\<close>)
  show ?case
  proof (cases "bv_ended bv")
    case True
    with Suc.prems z show ?thesis by simp
  next
    case False
    with Suc.prems obtain f where f: "fetch oc D m (bv_cur_pc bv) = Val f" by (auto elim!: bind_ValE)
    show ?thesis
    proof (cases f)
      case None
      with Suc.prems f False z show ?thesis by simp
    next
      case (Some inst)
      with Suc.prems f False obtain bv1 b1 where s: "block_step oc inst bv b = (Val bv1, b1)"
        and l: "block_loop n oc D m bv1 b1 = (Val bv', b')" by (auto elim!: bind_ValE)
      from Suc.IH [OF l] obtain k where k: "k \<le> n" "bv_cur_pc bv' = bv_cur_pc bv1 + of_nat (4 * k)"
        "no_overflow oc (bv_cur_pc bv1) (4 * k)" by blast
      have c: "bv_cur_pc bv1 = bv_cur_pc bv + 4" "oc \<longrightarrow> unat (bv_cur_pc bv) + 4 < 2 ^ 64"
        using block_step_pc [OF s] by (auto simp: ck_add_def split: if_splits)
      have "oc \<longrightarrow> unat (bv_cur_pc bv1) = unat (bv_cur_pc bv) + 4"
        using c by (auto simp: unat_word_ariths)
      with k c have "Suc k \<le> Suc n \<and> bv_cur_pc bv' = bv_cur_pc bv + of_nat (4 * Suc k) \<and>
          no_overflow oc (bv_cur_pc bv) (4 * Suc k)"
        by (auto simp: no_overflow_def)
      then show ?thesis by blast
    qed
  qed
qed

text \<open>C21: a compiled block covers at least one and at most 100 consecutive words from its
  start, and the address after the block does not wrap around when overflow checks are on.\<close>

theorem block_extent:
  assumes "build_block oc D m start_pc [] = (Val end_pc, body)"
  shows "\<exists>k. 1 \<le> k \<and> k \<le> 100 \<and> end_pc = start_pc + of_nat (4 * k) \<and> no_overflow oc start_pc (4 * k)"
proof -
  let ?bv = "\<lparr>bv_cur_pc = start_pc, bv_ended = False, bv_compiled_any = False\<rparr>"
  from assms obtain bv b1 where l: "block_loop MAX_INSTS oc D m ?bv [] = (Val bv, b1)"
    and c: "bv_compiled_any bv" and e: "end_pc = bv_cur_pc bv"
    unfolding build_block_def by (auto elim!: bind_ValE split: if_splits)
  from block_loop_extent [OF l] obtain k where k: "k \<le> MAX_INSTS"
    "bv_cur_pc bv = start_pc + of_nat (4 * k)" "no_overflow oc start_pc (4 * k)" "k = 0 \<longrightarrow> bv = ?bv"
    by auto
  with c have "1 \<le> k" by (cases k) auto
  with k e show ?thesis unfolding MAX_INSTS_def by blast
qed

subsection \<open>Blocks of exact instructions\<close>

text \<open>
  An instruction the block ends before, or one both execute alike, in a word the
  interpreter does not take for DC ZVA.
\<close>

definition exact_at :: "('h, 'x) env \<Rightarrow> 'h sys \<Rightarrow> u64 \<times> 'x instruction \<Rightarrow> bool" where
  "exact_at E m pi \<longleftrightarrow>
     (case pi of (pc, inst) \<Rightarrow>
        fst (direct (env_fpu E) inst pc (pc + 4)) = Unhandled \<or>
        exact_insn (env_dis E) inst \<and>
          (case mem_read (env_oc E) m pc 4 of Val bs \<Rightarrow> \<not> is_dc_zva (from_le_bytes bs) | _ \<Rightarrow> True))"

definition exact_block :: "('h, 'x) env \<Rightarrow> 'h sys \<Rightarrow> u64 \<Rightarrow> bool" where
  "exact_block E m pc \<longleftrightarrow>
     list_all (exact_at E m) (block_insns (env_fpu E) MAX_INSTS (env_oc E) (env_dis E) m pc)"

lemma block_insns_fetch:
  "(pc, inst) \<in> set (block_insns F n oc D m p) \<Longrightarrow> fetch oc D m pc = Val (Some inst)"
  by (induction n arbitrary: p)
    (auto split: out.splits option.splits if_splits)

lemma ck_add_Val: "ck_add oc a b = Val c \<Longrightarrow> c = a + b"
  by (auto simp: ck_add_def split: if_splits)

text \<open>The machine with these registers and this memory.\<close>

definition machine_of :: "cpu_context \<Rightarrow> 'h sys \<Rightarrow> 'h machine" where
  "machine_of c mm = \<lparr>ctx = c, mem = mm\<rparr>"

lemma machine_of_simps [simp]:
  "ctx (machine_of c mm) = c" "mem (machine_of c mm) = mm"
  "machine_of (ctx m) (mem m) = m" "(machine_of c mm)\<lparr>ctx := d\<rparr> = machine_of d mm"
  by (simp_all add: machine_of_def)

lemma exact_step:
  assumes x: "exact_insn (env_dis E) inst" and f: "fetch (env_oc E) (env_dis E) mm pc = Val (Some inst)"
    and z: "case mem_read (env_oc E) mm pc 4 of Val bs \<Rightarrow> \<not> is_dc_zva (from_le_bytes bs) | _ \<Rightarrow> True"
    and np: "ck_add (env_oc E) pc 4 = Val np" and c: "wf_cpu c" "ctx_pc c = pc" "\<not> ctx_exited c"
    and d: "direct (env_fpu E) inst pc np = (a, eff, target)"
  shows "(a = Compiled \<or> a = Ended) \<and>
    step E (machine_of c mm) =
      (Val True, machine_of ((eff c)\<lparr>ctx_pc := if a = Ended then target c else np\<rparr>) mm)"
proof -
  from f obtain bs where bs: "mem_read (env_oc E) mm pc 4 = Val bs"
    "decode (env_dis E) (from_le_bytes bs) pc = Inr inst"
    by (auto simp: fetch_def split: out.splits sum.splits)
  have "agrees E inst pc np (machine_of c mm)"
    by (rule exact_agrees [OF x np]) (simp add: c)
  then have ag: "(a = Compiled \<or> a = Ended)"
    "execute E pc inst np (machine_of c mm) =
      (Val (Some (if a = Ended then target c else np)), machine_of (eff c) mm)"
    by (simp_all add: agrees_def d)
  have "load_m (env_oc E) pc pc 4 (machine_of c mm) = (Val bs, machine_of c mm)"
    by (simp add: load_m_def load_def map_err_def bs)
  with ag bs z c np show ?thesis
    by (simp add: step_def Let_def bind_Val run_insn_def Decoder_decode_def)
qed

definition sim_reaches :: "('h, 'x) env \<Rightarrow> 'h sys \<Rightarrow> u64 \<Rightarrow> reaches" where
  "sim_reaches E mm start c w c' \<longleftrightarrow>
     (ctx_pc c = start \<and> \<not> ctx_exited c \<longrightarrow>
        untouched c c' \<and>
        (\<exists>k. max_steps (step E) k (machine_of c mm) = (Val False, machine_of (c'\<lparr>ctx_pc := w\<rparr>) mm)))"

lemma exact_insn_keeps:
  assumes b: "exact_block E mm start" and
    i: "(pc, inst) \<in> set (block_insns (env_fpu E) MAX_INSTS (env_oc E) (env_dis E) mm start)"
    and np: "ck_add (env_oc E) pc 4 = Val np"
  shows "insn_keeps (env_fpu E) (sim_reaches E mm start) inst pc np"
proof -
  obtain a eff target where d: "direct (env_fpu E) inst pc np = (a, eff, target)"
    by (metis prod_cases3)
  note f = block_insns_fetch [OF i]
  from b i have e: "exact_at E mm (pc, inst)" by (auto simp: exact_block_def list_all_iff)
  show ?thesis
  proof (cases "a = Unhandled")
    case True
    then show ?thesis by (simp add: insn_keeps_def d)
  next
    case False
    with e d ck_add_Val [OF np] have x: "exact_insn (env_dis E) inst"
      "case mem_read (env_oc E) mm pc 4 of Val bs \<Rightarrow> \<not> is_dc_zva (from_le_bytes bs) | _ \<Rightarrow> True"
      by (simp_all add: exact_at_def)
    have "sim_reaches E mm start c (if a = Ended then target c' else np) (eff c')"
      if wf: "wf_cpu c'" and s: "sim_reaches E mm start c pc c'" for c c'
      unfolding sim_reaches_def
    proof (intro impI)
      assume c: "ctx_pc c = start \<and> \<not> ctx_exited c"
      with s obtain k where u: "untouched c c'" and
        k: "max_steps (step E) k (machine_of c mm) = (Val False, machine_of (c'\<lparr>ctx_pc := pc\<rparr>) mm)"
        by (auto simp: sim_reaches_def)
      let ?d = "c'\<lparr>ctx_pc := pc\<rparr>" and ?w = "if a = Ended then target c' else np"
      have ne: "\<not> ctx_exited ?d" using c u by (simp add: untouched_def)
      have p: "eff ?d = (eff c')\<lparr>ctx_pc := pc\<rparr>" "target ?d = target c'" "untouched c' (eff c')"
        using pc_free_direct [of "env_fpu E" inst pc np] by (simp_all add: pc_free_def d pc_free_fn_def)
      have "step E (machine_of ?d mm) = (Val True, machine_of ((eff c')\<lparr>ctx_pc := ?w\<rparr>) mm)"
        using exact_step [OF x(1) f x(2) np _ _ ne d] wf p by simp
      then have "max_steps (step E) 1 (machine_of ?d mm) = (Val False, machine_of ((eff c')\<lparr>ctx_pc := ?w\<rparr>) mm)"
        by simp
      with max_steps_trans [OF k, of 1]
      have "max_steps (step E) (k + 1) (machine_of c mm) = (Val False, machine_of ((eff c')\<lparr>ctx_pc := ?w\<rparr>) mm)"
        by simp
      moreover have "untouched c (eff c')" by (rule untouched_trans [OF u p(3)])
      ultimately show "untouched c (eff c') \<and> (\<exists>k. max_steps (step E) k (machine_of c mm) =
          (Val False, machine_of ((eff c')\<lparr>ctx_pc := ?w\<rparr>) mm))" by blast
    qed
    then show ?thesis by (simp add: insn_keeps_def d)
  qed
qed

text \<open>C3: a compiled block of exact instructions does what the interpreter does: running its
  body from a context ends in the context and at the address that some number of interpreter
  steps reach, with the memory as it was.\<close>

theorem block_simulates_steps:
  assumes "build_block (env_oc E) (env_dis E) mm (ctx_pc c) [] = (Val end_pc, body)"
    and "exact_block E mm (ctx_pc c)" and "wf_cpu c" and "\<not> ctx_exited c"
  shows "\<exists>w c' k. ir_run (env_fpu E) body ([], c) = Some (w, c') \<and> untouched c c' \<and> wf_cpu c' \<and>
    run_max_steps E k \<lparr>ctx = c, mem = mm\<rparr> = (Val False, \<lparr>ctx = c'\<lparr>ctx_pc := w\<rparr>, mem = mm\<rparr>)"
proof -
  let ?S = "sim_reaches E mm (ctx_pc c)"
  have "closed_body (env_fpu E) ?S body"
  proof (rule build_block_inv [OF assms(1)])
    fix d assume "wf_cpu d"
    show "?S d (ctx_pc c) d"
      unfolding sim_reaches_def
    proof (intro impI conjI)
      assume d: "ctx_pc d = ctx_pc c \<and> \<not> ctx_exited d"
      then have "d\<lparr>ctx_pc := ctx_pc c\<rparr> = d" by (cases d) simp
      then have "max_steps (step E) 0 (machine_of d mm) = (Val False, machine_of (d\<lparr>ctx_pc := ctx_pc c\<rparr>) mm)"
        by simp
      then show "\<exists>k. max_steps (step E) k (machine_of d mm) =
          (Val False, machine_of (d\<lparr>ctx_pc := ctx_pc c\<rparr>) mm)" by blast
    qed (simp add: untouched_refl)
  next
    show "insns_keep (env_fpu E) ?S (env_oc E)
        (block_insns (env_fpu E) MAX_INSTS (env_oc E) (env_dis E) mm (ctx_pc c))"
      using exact_insn_keeps [OF assms(2)] by (auto simp: insns_keep_def)
  qed
  with assms(3,4) obtain w c' k where "ir_run (env_fpu E) body ([], c) = Some (w, c')" "wf_cpu c'"
    "untouched c c'"
    "max_steps (step E) k (machine_of c mm) = (Val False, machine_of (c'\<lparr>ctx_pc := w\<rparr>) mm)"
    by (fastforce simp: closed_body_def sim_reaches_def)
  then show ?thesis unfolding run_max_steps_def machine_of_def by blast
qed

subsection \<open>A concrete program\<close>

text \<open>A program that sets X0 and makes the exit system call.\<close>

definition demo_mov :: "string instruction" where
  "demo_mov = \<lparr>inst_op = Op_arith MOV, inst_operands = [O_Reg (RX 0) [], O_Imm64 (Unsigned 9) None]\<rparr>"

definition demo_svc :: "string instruction" where
  "demo_svc = \<lparr>inst_op = Op_sys SVC, inst_operands = []\<rparr>"

definition demo_jit_env :: "(u64, string) env" where
  "demo_jit_env = demo_env demo_mov demo_svc"

definition demo_code :: "u64 \<Rightarrow> u64 out \<times> ir_inst list" where
  "demo_code pc = build_block True (env_dis demo_jit_env) demo_mem pc []"

lemma demo_jit_fetch:
  "fetch True (env_dis demo_jit_env) demo_mem 0x1000 = Val (Some demo_mov)"
  "fetch True (env_dis demo_jit_env) demo_mem 0x1004 = Val (Some demo_svc)"
  using demo_fetch [of "0x1000" True] demo_fetch [of "0x1004" True]
  by (simp_all add: fetch_def demo_jit_env_def)

lemma demo_direct:
  "direct F demo_mov pc np = writes (RX 0) (\<lambda>c. 9)" "direct F demo_svc pc np = no_code Unhandled"
  by (simp_all add: direct_def demo_mov_def demo_svc_def direct_MOV_def)

lemma MAX_INSTS_Suc: "\<exists>n. MAX_INSTS = Suc (Suc n)"
  by (rule exI [of _ 98]) (simp add: MAX_INSTS_def)

lemma demo_block_insns:
  "block_insns F MAX_INSTS True (env_dis demo_jit_env) demo_mem 0x1000 = [(0x1000, demo_mov), (0x1004, demo_svc)]"
  "block_insns F MAX_INSTS True (env_dis demo_jit_env) demo_mem 0x1004 = [(0x1004, demo_svc)]"
proof -
  obtain n where n: "MAX_INSTS = Suc (Suc n)" using MAX_INSTS_Suc by blast
  note evals = demo_jit_fetch ck_add_def ends_block_def demo_direct writes_def no_code_def
  show "block_insns F MAX_INSTS True (env_dis demo_jit_env) demo_mem 0x1000 = [(0x1000, demo_mov), (0x1004, demo_svc)]"
    "block_insns F MAX_INSTS True (env_dis demo_jit_env) demo_mem 0x1004 = [(0x1004, demo_svc)]"
    unfolding n block_insns.simps by (simp_all add: evals)
qed

lemma block_loop_ended: "bv_ended bv \<Longrightarrow> block_loop n oc D m bv = ret bv"
  by (cases n) (simp_all add: fun_eq_iff)

lemma demo_exact:
  assumes "pc = 0x1000 \<or> pc = 0x1004"
  shows "exact_block demo_jit_env demo_mem pc"
proof -
  have "env_oc demo_jit_env = True" by (simp add: demo_jit_env_def)
  moreover have "exact_at demo_jit_env demo_mem (0x1000, demo_mov)"
    using demo_fetch [of "0x1000" True]
    by (simp add: exact_at_def demo_mov_def exact_insn_def same_view_def Let_def demo_jit_env_def
        is_dc_zva_def from_le_bytes_def)
  moreover have "exact_at demo_jit_env demo_mem (0x1004, demo_svc)"
    by (simp add: exact_at_def demo_direct no_code_def)
  ultimately show ?thesis using assms by (auto simp: exact_block_def demo_block_insns)
qed

definition demo_body :: "ir_inst list" where
  "demo_body = [Ir_iconst 9, Ir_store 0 0, Ir_iconst 0x1004, Ir_return (Suc (Suc 0))]"

lemma demo_code_total:
  shows demo_build: "build_block True (env_dis demo_jit_env) demo_mem 0x1000 [] = (Val 0x1008, demo_body)"
    and "pc = 0x1000 \<or> pc = 0x1004 \<Longrightarrow> \<not> is_Crash (fst (demo_code pc))"
proof -
  note evals = build_block_def bind_def demo_jit_fetch block_step_def jit_insn_def demo_mov_def
    jit_MOV_def store_reg_def emit_def ck_add_def return_pc_def emit_return_def is_zero_reg_def
    get_reg_offset_def demo_svc_def block_loop_ended
  obtain n where n: "MAX_INSTS = Suc (Suc n)" using MAX_INSTS_Suc by blast
  have "demo_code 0x1000 = (Val 0x1008, demo_body)"
    unfolding demo_code_def build_block_def n block_loop.simps
    by (simp add: evals Let_def demo_body_def)
  then show "build_block True (env_dis demo_jit_env) demo_mem 0x1000 [] = (Val 0x1008, demo_body)"
    by (simp add: demo_code_def)
  then have "\<not> is_Crash (fst (demo_code 0x1000))" by (simp add: demo_code_def)
  moreover have "\<not> is_Crash (fst (demo_code 0x1004))"
    unfolding demo_code_def build_block_def n block_loop.simps by (simp add: evals Let_def)
  ultimately show "pc = 0x1000 \<or> pc = 0x1004 \<Longrightarrow> \<not> is_Crash (fst (demo_code pc))" by auto
qed

lemma demo_exit_wf: "wf_cpu (ctx demo_exit)"
  using demo_wf_at(1) [of "0x1000"] by (simp add: demo_exit_def)

text \<open>The machine after the first instruction, which the system call then ends.\<close>

definition demo_mid :: "u64 machine" where
  "demo_mid = machine_of ((set_x 0 9 (ctx demo_exit))\<lparr>ctx_pc := 0x1004\<rparr>) demo_mem"

lemma demo_mid_simps:
  "ctx_pc (ctx demo_mid) = 0x1004" "mem demo_mid = demo_mem" "wf_cpu (ctx demo_mid)"
  "ctx_exited (ctx demo_mid) = False" "get_x (ctx demo_mid) 0 = 9" "exit_call (ctx demo_mid)"
proof -
  show "ctx_pc (ctx demo_mid) = 0x1004" "mem demo_mid = demo_mem" "wf_cpu (ctx demo_mid)"
    "ctx_exited (ctx demo_mid) = False" "get_x (ctx demo_mid) 0 = 9"
    using demo_exit_simps(1) demo_exit_wf by (simp_all add: demo_mid_def get_set_x)
  show "exit_call (ctx demo_mid)"
    using demo_exit_simps(4) demo_exit_wf
    by (cases "ctx_target_os (ctx demo_exit)")
      (simp_all add: exit_call_def demo_mid_def get_set_x set_x_fields)
qed

lemma demo_mov_step: "step demo_jit_env demo_exit = (Val True, demo_mid)"
proof -
  have e: "exact_insn (env_dis demo_jit_env) demo_mov"
    by (simp add: demo_mov_def exact_insn_def same_view_def Let_def)
  have f: "fetch (env_oc demo_jit_env) (env_dis demo_jit_env) demo_mem 0x1000 = Val (Some demo_mov)"
    using demo_jit_fetch(1) by (simp add: demo_jit_env_def)
  have z: "case mem_read (env_oc demo_jit_env) demo_mem 0x1000 4 of
      Val bs \<Rightarrow> \<not> is_dc_zva (from_le_bytes bs) | _ \<Rightarrow> True"
    using demo_fetch [of "0x1000"] by (simp add: is_dc_zva_def from_le_bytes_def)
  have n: "ck_add (env_oc demo_jit_env) 0x1000 4 = Val (0x1004 :: u64)" by (simp add: ck_add_def)
  have x: "\<not> ctx_exited (ctx demo_exit)" using demo_exit_simps(1) by simp
  have m: "machine_of (ctx demo_exit) demo_mem = demo_exit"
    using machine_of_simps(3) [of demo_exit] demo_exit_simps(3) by simp
  from exact_step [OF e f z n demo_exit_wf demo_exit_simps(2) x demo_direct(1) [unfolded writes_def]]
  show ?thesis
    by (simp add: m demo_mid_def jit_write_def is_zero_reg_def)
qed

lemma demo_svc_step: "step demo_jit_env demo_mid = (Val False, exited_with 9 demo_mid)"
proof -
  have "at_insn demo_jit_env demo_mid demo_svc"
    using at_demo_insn [of "0x1004" demo_mid demo_mov demo_svc] demo_mid_simps
    by (simp add: demo_jit_env_def)
  from step_exit_call [OF this] demo_mid_simps show ?thesis
    by (simp add: demo_svc_def no_wrap_def)
qed

theorem compiled_body_well_typed_witness:
  "\<exists>w c'. ir_run demo_fpu demo_body ([], ctx demo_exit) = Some (w, c') \<and> untouched (ctx demo_exit) c'"
  using compiled_body_well_typed [OF demo_build demo_exit_wf] by blast

theorem block_extent_witness: "\<exists>k. 1 \<le> k \<and> k \<le> 100 \<and> (0x1008 :: u64) = 0x1000 + of_nat (4 * k)"
  using block_extent [OF demo_build] by blast

theorem block_simulates_steps_witness:
  "\<exists>w c' k. ir_run demo_fpu demo_body ([], ctx demo_exit) = Some (w, c') \<and>
     run_max_steps demo_jit_env k demo_exit = (Val False, \<lparr>ctx = c'\<lparr>ctx_pc := w\<rparr>, mem = demo_mem\<rparr>)"
proof -
  have o: "env_oc demo_jit_env = True" "env_fpu demo_jit_env = demo_fpu"
    by (simp_all add: demo_jit_env_def)
  have m: "\<lparr>ctx = ctx demo_exit, mem = demo_mem\<rparr> = demo_exit"
    using machine_of_simps(3) [of demo_exit] demo_exit_simps(3) by (simp add: machine_of_def)
  have b: "build_block (env_oc demo_jit_env) (env_dis demo_jit_env) demo_mem (ctx_pc (ctx demo_exit)) [] =
      (Val 0x1008, demo_body)" using demo_build by (simp add: o demo_exit_simps)
  have x: "exact_block demo_jit_env demo_mem (ctx_pc (ctx demo_exit))"
    using demo_exact [of "0x1000"] by (simp add: demo_exit_simps)
  from block_simulates_steps [OF b x demo_exit_wf] demo_exit_simps(1) show ?thesis
    unfolding o m by blast
qed

subsection \<open>Instructions the compiler gets wrong\<close>

text \<open>The registers after the code emitted for one instruction.\<close>

definition compiled_effect :: "fpu \<Rightarrow> 'x instruction \<Rightarrow> u64 \<Rightarrow> cpu_context \<Rightarrow> cpu_context option" where
  "compiled_effect F inst pc c =
     (case jit_insn inst pc (pc + 4) [] of
        (Val a, body) \<Rightarrow> if a = Compiled then map_option snd (ir_exec F body ([], c)) else None
      | _ \<Rightarrow> None)"

lemma compiled_effect_direct:
  assumes d: "direct F inst pc (pc + 4) = (Compiled, eff, t)" and c: "wf_cpu c"
  shows "compiled_effect F inst pc c = Some (eff c)"
proof -
  from translates_insn [of F inst pc "pc + 4"]
  have "\<forall>c. wf_cpu c \<longrightarrow> wf_cpu (eff c) \<and> emits F (know c []) (jit_insn inst pc (pc + 4))
      (\<lambda>a' s. a' = Compiled \<and> snd s = eff c)"
    unfolding d translates_def by simp
  with c have "emits F (know c []) (jit_insn inst pc (pc + 4)) (\<lambda>a' s. a' = Compiled \<and> snd s = eff c)"
    by blast
  from emitsE [OF this, of "[]"] obtain a xs where j: "jit_insn inst pc (pc + 4) [] = (Val a, [] @ xs)"
    and x: "\<And>vals c'. length vals = length ([] :: ir_inst list) \<Longrightarrow> know c [] (vals, c') \<Longrightarrow>
      \<exists>t. ir_exec F xs (vals, c') = Some t \<and> a = Compiled \<and> snd t = eff c" by metis
  from x [of "[]" c] j show ?thesis
    by (auto simp: compiled_effect_def know_def)
qed

lemma set_x_eq_iff: "wf_cpu c \<Longrightarrow> i < 31 \<Longrightarrow> set_x i a c = set_x i b c \<longleftrightarrow> a = b"
  by (metis get_set_x)

lemma compiled_ORR:
  assumes "wf_cpu c" and "i < 31" and "j < 31"
  shows "compiled_effect F \<lparr>inst_op = Op_logic ORR, inst_operands = [O_Reg (RX i) x1, O_Reg (RX j) x2, op]\<rparr>
    pc c = Some (set_x i (get_x c j) c)"
  by (subst compiled_effect_direct [OF _ assms(1)])
    (use assms in \<open>auto simp: direct_def direct_MOV_def writes_def jit_write_def jit_read_def is_zero_reg_def\<close>)

lemma compiled_ADD_shifted:
  assumes "wf_cpu c" and "i < 31" and "j < 31" and "k < 31"
  shows "compiled_effect F \<lparr>inst_op = Op_arith ADD,
      inst_operands = [O_Reg (RX i) x1, O_Reg (RX j) x2, O_ShiftReg (RX k) sh x3]\<rparr> pc c =
    Some (set_x i (get_x c j + get_x c k) c)"
  by (subst compiled_effect_direct [OF _ assms(1)])
    (use assms in \<open>auto simp: direct_def direct_ADD_def writes_def jit_write_def jit_read_def
      is_zero_reg_def int_op_def\<close>)

lemma compiled_FADD:
  assumes "wf_cpu c" and "d < 32" and "n < 32" and "m < 32"
  shows "compiled_effect F \<lparr>inst_op = Op_fp FADD,
      inst_operands = [O_Reg (RD d) x1, O_Reg (RD n) x2, O_Reg (RD m) x3]\<rparr> pc c =
    Some (set_v_u64 d (f64_arith F FADD (get_f64 c n) (get_f64 c m)) c)"
  by (subst compiled_effect_direct [OF _ assms(1)])
    (use assms in \<open>auto simp: direct_def direct_FADD_def vwrites_def jit_vwrite_def jit_vread_def
      float_op_def reg_at_def operand_at_def\<close>)

lemma eval_shift_X:
  assumes "k < 31"
  shows "eval_shift_reg D (RX k) (Sh_LSL n) c = 2 ^ (unat n mod 64) * get_x c k"
    and "eval_shift_reg D (RX k) (Sh_LSR n) c = get_x c k div 2 ^ (unat n mod 64)"
    and "eval_shift_reg D (RX k) (Sh_ASR n) c = signed_drop_bit (unat n mod 64) (get_x c k)"
proof -
  have a: "unat (n AND 63) = unat n mod 64"
  proof -
    have "n AND 63 = take_bit 6 n" by (simp add: take_bit_eq_mask mask_numeral)
    moreover have "unat (take_bit 6 n) = take_bit 6 (unat n)" by (rule unsigned_take_bit_eq)
    ultimately show ?thesis by (simp add: take_bit_eq_mod)
  qed
  show "eval_shift_reg D (RX k) (Sh_LSL n) c = 2 ^ (unat n mod 64) * get_x c k"
    "eval_shift_reg D (RX k) (Sh_LSR n) c = get_x c k div 2 ^ (unat n mod 64)"
    "eval_shift_reg D (RX k) (Sh_ASR n) c = signed_drop_bit (unat n mod 64) (get_x c k)"
    using assms
    by (simp_all add: wrapping_shl_def wrapping_shr_def wrapping_sar_def a push_bit_eq_mult
        drop_bit_eq_div mult.commute)
qed

text \<open>C40: where the compiler departs from the interpreter, for all registers: ORR of two
  registers is compiled as a move of the first, which agrees with the interpreter only when
  the second adds no bit; the shift of a shifted register operand of ADD is dropped, whatever
  its kind and amount, where the interpreter applies it (LSL, LSR and ASR are spelled out);
  and FADD on D registers clears the upper half of the destination, which the interpreter
  keeps.\<close>

theorem jit_drops_operands:
  fixes x1 x2 x3 :: 'x
  assumes "wf_cpu c" and "i < 31" and "j < 31" and "k < 31" and "d < 32" and "n < 32" and "m < 32"
  shows "let orr = [O_Reg (RX i) x1, O_Reg (RX j) x2, O_Reg (RX k) x3];
      add = [O_Reg (RX i) x1, O_Reg (RX j) x2, O_ShiftReg (RX k) sh x3];
      fadd = [O_Reg (RD d) x1, O_Reg (RD n) x2, O_Reg (RD m) x3];
      orr_compiled = compiled_effect F \<lparr>inst_op = Op_logic ORR, inst_operands = orr\<rparr> pc c;
      add_compiled = compiled_effect F \<lparr>inst_op = Op_arith ADD, inst_operands = add\<rparr> pc c
    in orr_compiled = Some (set_x i (get_x c j) c) \<and>
       exec_ORR D ORR orr c = set_x i (get_x c j OR get_x c k) c \<and>
       (orr_compiled = Some (exec_ORR D ORR orr c) \<longleftrightarrow> get_x c j OR get_x c k = get_x c j) \<and>
       add_compiled = Some (set_x i (get_x c j + get_x c k) c) \<and>
       exec_ADD D ADD add c = set_x i (get_x c j + eval_shift_reg D (RX k) sh c) c \<and>
       (sh = Sh_LSL s \<longrightarrow> eval_shift_reg D (RX k) sh c = 2 ^ (unat s mod 64) * get_x c k) \<and>
       (sh = Sh_LSR s \<longrightarrow> eval_shift_reg D (RX k) sh c = get_x c k div 2 ^ (unat s mod 64)) \<and>
       (sh = Sh_ASR s \<longrightarrow>
          eval_shift_reg D (RX k) sh c = signed_drop_bit (unat s mod 64) (get_x c k)) \<and>
       (add_compiled = Some (exec_ADD D ADD add c) \<longleftrightarrow>
          eval_shift_reg D (RX k) sh c = get_x c k) \<and>
       compiled_effect F \<lparr>inst_op = Op_fp FADD, inst_operands = fadd\<rparr> pc c =
         Some (set_v_u64 d (f64_arith F FADD (get_f64 c n) (get_f64 c m)) c) \<and>
       exec_FADD F FADD fadd c =
         put_low d (to_le_bytes (f64_arith F FADD (get_f64 c n) (get_f64 c m))) c"
proof -
  have orr: "exec_ORR D ORR [O_Reg (RX i) x1, O_Reg (RX j) x2, O_Reg (RX k) x3] c =
      set_x i (get_x c j OR get_x c k) c"
    using assms by (simp add: exec_ORR_def bitwise_vals_def)
  have add: "exec_ADD D ADD [O_Reg (RX i) x1, O_Reg (RX j) x2, O_ShiftReg (RX k) sh x3] c =
      set_x i (get_x c j + eval_shift_reg D (RX k) sh c) c"
    using assms by (simp add: exec_ADD_def)
  have fadd: "exec_FADD F FADD [O_Reg (RD d) x1, O_Reg (RD n) x2, O_Reg (RD m) x3] c =
      put_low d (to_le_bytes (f64_arith F FADD (get_f64 c n) (get_f64 c m))) c"
    using assms by (simp add: exec_FADD_def vec_idx_def)
  show ?thesis
    unfolding Let_def orr add fadd compiled_ORR [OF assms(1-3)] compiled_ADD_shifted [OF assms(1-4)]
      compiled_FADD [OF assms(1,5-7)]
    using assms by (auto simp: set_x_eq_iff eval_shift_X simp del: eval_shift_reg.simps)
qed

theorem jit_drops_operands_witness:
  "exec_ORR (text_bad64 (\<lambda>w a. Inl [])) ORR [O_Reg (RX 4) [], O_Reg (RX 1) [], O_Reg (RX 2) []]
      (set_x 2 6 cpu_new) = set_x 4 6 (set_x 2 6 cpu_new) \<and>
   compiled_effect demo_fpu \<lparr>inst_op = Op_logic ORR,
      inst_operands = [O_Reg (RX 4) [], O_Reg (RX 1) [], O_Reg (RX 2) ([] :: string)]\<rparr> 0 (set_x 2 6 cpu_new) =
      Some (set_x 4 0 (set_x 2 6 cpu_new))"
proof -
  have w: "wf_cpu (set_x 2 6 cpu_new)" by (simp add: wf_cpu_new)
  have z: "get_x cpu_new (Suc 0) = 0" by (simp add: get_x_def cpu_new_def)
  show ?thesis
    using jit_drops_operands [OF w, of 4 1 2 0 1 2, where F = demo_fpu and ?x1.0 = "[]" and ?x2.0 = "[]" and
      ?x3.0 = "[]" and pc = 0 and D = "text_bad64 (\<lambda>w a. Inl [])" and sh = "Sh_LSL 3" and s = 3,
      unfolded Let_def]
    by (simp add: get_set_x wf_cpu_new z)
qed
end
