(* ===== verification/Jit_Run.thy ===== *)
theory Jit_Run
  imports Jit_Correct
begin

text \<open>
  Running with the compiler: \<open>execute\<close> is a sequence of interpreter steps, so is a chain of
  blocks, and \<open>run_with_jit\<close> returns what \<open>run\<close> returns, for programs whose code both
  execute alike and which do not change the code of a compiled block.
\<close>

unbundle bit_operations_syntax

subsection \<open>What a run with the compiler relies on\<close>

text \<open>
  \<open>code pc\<close> is what compiling the block at \<open>pc\<close> gives. At every address the program gets
  to, memory still holds that block, its instructions are exact, and compiling does not
  panic.
\<close>

type_synonym block_code = "u64 \<Rightarrow> u64 out \<times> ir_inst list"

definition entry_ok :: "('h, 'x) env \<Rightarrow> block_code \<Rightarrow> 'h machine \<Rightarrow> bool" where
  "entry_ok E code m \<longleftrightarrow>
     ctx_exited (ctx m) \<or>
     build_block (env_oc E) (env_dis E) (mem m) (ctx_pc (ctx m)) [] = code (ctx_pc (ctx m)) \<and>
     exact_block E (mem m) (ctx_pc (ctx m)) \<and> \<not> is_Crash (fst (code (ctx_pc (ctx m))))"

definition jit_safe :: "('h, 'x) env \<Rightarrow> block_code \<Rightarrow> 'h machine \<Rightarrow> bool" where
  "jit_safe E code m \<longleftrightarrow>
     wf_cpu (ctx m) \<and> (\<forall>k t. run_max_steps E k m = (Val False, t) \<longrightarrow> entry_ok E code t)"

text \<open>A function that runs a body.\<close>

definition block_runs :: "fpu \<Rightarrow> ir_inst list \<Rightarrow> 'h block_fn \<Rightarrow> bool" where
  "block_runs F body b \<longleftrightarrow>
     (\<forall>m r. ir_run F body ([], ctx m) = Some r \<longrightarrow> b m = (fst r, m\<lparr>ctx := snd r\<rparr>))"

definition cache_ok :: "('h, 'x) env \<Rightarrow> block_code \<Rightarrow> ('h, 'm) jit_engine \<Rightarrow> bool" where
  "cache_ok E code e \<longleftrightarrow>
     (\<forall>pc b. je_cache e pc = Some b \<longrightarrow>
        (\<exists>end_pc body. code pc = (Val end_pc, body) \<and> block_runs (env_fpu E) body (cb_func_ptr b)))"

definition jit_inv ::
  "('h, 'x) env \<Rightarrow> ('h, 'm) cranelift \<Rightarrow> block_code \<Rightarrow> ('h, 'm) jit_state \<Rightarrow> bool" where
  "jit_inv E C code s \<longleftrightarrow>
     cranelift_ok (env_fpu E) C \<and> jit_safe E code (fst s) \<and> cache_ok E code (snd s)"

lemma jit_safe_steps:
  assumes "jit_safe E code m" and "max_steps (step E) j m = (Val False, t)"
  shows "jit_safe E code t"
proof -
  have "keeps (on_cpu wf_cpu) (max_steps (step E) j)"
    by (rule max_steps_invariant [OF step_keeps_cpu])
  then have "wf_cpu (ctx t)"
    using assms by (auto simp: keeps_def jit_safe_def dest: spec [of _ m])
  with assms show ?thesis
    by (auto simp: jit_safe_def run_max_steps_def max_steps_trans [OF assms(2), symmetric])
qed

lemma jit_safe_entry: "jit_safe E code m \<Longrightarrow> entry_ok E code m"
  by (auto simp: jit_safe_def run_max_steps_def dest: spec [of _ 0])

subsection \<open>Compiling\<close>

definition compiled_ok ::
  "('h, 'x) env \<Rightarrow> block_code \<Rightarrow> u64 \<Rightarrow> 'h compiled_block out \<Rightarrow> ('h, 'm) jit_engine \<Rightarrow> bool" where
  "compiled_ok E code pc r e' \<longleftrightarrow>
     cache_ok E code e' \<and>
     ((\<exists>err. r = Fail err) \<or>
      (\<exists>b end_pc body. r = Val b \<and> code pc = (Val end_pc, body) \<and>
         block_runs (env_fpu E) body (cb_func_ptr b)))"

text \<open>Code generation fails without a trace in the cache, or caches the block it returns.\<close>

lemma generate_code_cases:
  assumes "generate_code C pc body end_pc e = (r, e')"
  shows "(\<exists>err. r = Fail err \<and> je_cache e' = je_cache e) \<or>
    (\<exists>fid m m1 m2 blk. cl_define C fid body m = (Inr (), m1) \<and> cl_finalize C m1 = (Inr (), m2) \<and>
       blk = \<lparr>cb_start_pc = pc, cb_end_pc = end_pc, cb_func_ptr = cl_function C m2 fid\<rparr> \<and>
       r = Val blk \<and> je_cache e' = (je_cache e)(pc \<mapsto> blk))"
  using assms unfolding generate_code_def bind_def module_call_def Let_def gets_apply modify_apply
    ret_apply
  by (fastforce split: prod.splits sum.splits)

lemma compile_sound:
  fixes C :: "('h, 'm) cranelift" and E :: "('h, 'x) env"
  assumes C: "cranelift_ok (env_fpu E) C" and c: "cache_ok E code e"
    and b: "build_block (env_oc E) (env_dis E) mm pc [] = code pc" and k: "\<not> is_Crash (fst (code pc))"
    and r: "compile_and_get (env_oc E) (env_dis E) C pc mm e = (r, e')"
  shows "compiled_ok E code pc r e'"
proof (cases "je_cache e pc")
  case (Some blk)
  then have "r = Val blk" "e' = e" using r by (simp_all add: compile_and_get_def)
  with c Some show ?thesis by (auto simp: compiled_ok_def cache_ok_def)
next
  case None
  obtain o1 body where code: "code pc = (o1, body)" by fastforce
  show ?thesis
  proof (cases o1)
    case (Fail err)
    then have "r = Fail err" "e' = e" using r None b code
      by (simp_all add: compile_and_get_def bind_def)
    with c show ?thesis by (simp add: compiled_ok_def)
  next
    case (Crash a)
    with k code show ?thesis by simp
  next
    case (Val end_pc)
    with r None b code have "generate_code C pc body end_pc e = (r, e')"
      by (simp add: compile_and_get_def)
    from generate_code_cases [OF this] show ?thesis
    proof (elim disjE exE conjE)
      fix err assume "r = Fail err" "je_cache e' = je_cache e"
      with c show ?thesis by (simp add: compiled_ok_def cache_ok_def)
    next
      fix fid m m1 m2 blk
      assume d: "cl_define C fid body m = (Inr (), m1)" "cl_finalize C m1 = (Inr (), m2)"
        and blk: "blk = \<lparr>cb_start_pc = pc, cb_end_pc = end_pc, cb_func_ptr = cl_function C m2 fid\<rparr>"
          "r = Val blk" "je_cache e' = (je_cache e)(pc \<mapsto> blk)"
      have "block_runs (env_fpu E) body (cl_function C m2 fid)"
        unfolding block_runs_def
      proof (intro allI impI)
        fix mm :: "'h machine" and x assume "ir_run (env_fpu E) body ([], ctx mm) = Some x"
        with C d show "cl_function C m2 fid mm = (fst x, mm\<lparr>ctx := snd x\<rparr>)"
          unfolding cranelift_ok_def by blast
      qed
      with blk c code Val show ?thesis by (auto simp: compiled_ok_def cache_ok_def)
    qed
  qed
qed

subsection \<open>One block, one chain\<close>

lemma jit_inv_steps:
  assumes "jit_inv E C code s" and "max_steps (step E) j (fst s) = (Val False, fst t)"
    and "cache_ok E code (snd t)"
  shows "jit_inv E C code t"
  using assms jit_safe_steps by (auto simp: jit_inv_def)

lemma execute_sound:
  assumes i: "jit_inv E C code s" and ne: "\<not> ctx_exited (ctx (fst s))"
    and r: "jit_execute E C s = (q, s')"
  shows "big_step (step E) (fst s) q (fst s') \<and> cache_ok E code (snd s')"
proof -
  obtain m e where s: "s = (m, e)" by fastforce
  let ?pc = "ctx_pc (ctx m)"
  obtain res e1 where c: "compile_and_get (env_oc E) (env_dis E) C ?pc (mem m) e = (res, e1)"
    by fastforce
  have en: "build_block (env_oc E) (env_dis E) (mem m) ?pc [] = code ?pc"
    "exact_block E (mem m) ?pc" "\<not> is_Crash (fst (code ?pc))"
    using i ne jit_safe_entry [of E code m] by (auto simp: jit_inv_def entry_ok_def s)
  have "compiled_ok E code ?pc res e1"
    by (rule compile_sound [where E = E and code = code and mm = "mem m" and pc = ?pc, OF _ _ en(1,3) c]) (use i in \<open>simp_all add: jit_inv_def s\<close>)
  then consider (err) err where "res = Fail err" "cache_ok E code e1"
    | (ok) b end_pc body where "res = Val b" "code ?pc = (Val end_pc, body)"
        "block_runs (env_fpu E) body (cb_func_ptr b)" "cache_ok E code e1"
    by (auto simp: compiled_ok_def)
  then show ?thesis
  proof cases
    case err
    obtain q1 m1 where st: "step E m = (q1, m1)" by fastforce
    with r c err have "q = q1" "s' = (m1, e1)"
      by (simp_all add: s jit_execute_def on_machine_def)
    with big_step_one [of "step E", OF st] err show ?thesis by (simp add: s)
  next
    case ok
    have wf: "wf_cpu (ctx m)" using i by (simp add: jit_inv_def jit_safe_def s)
    from block_simulates_steps [of E "mem m" "ctx m" end_pc body] en ok(2) wf ne
    obtain w c' k where run: "ir_run (env_fpu E) body ([], ctx m) = Some (w, c')" "untouched (ctx m) c'"
      and k: "max_steps (step E) k (machine_of (ctx m) (mem m)) = (Val False, machine_of (c'\<lparr>ctx_pc := w\<rparr>) (mem m))"
      unfolding run_max_steps_def machine_of_def [symmetric] by (auto simp: s)
    have fn: "cb_func_ptr b m = (w, m\<lparr>ctx := c'\<rparr>)"
      using ok(3) run(1) by (simp add: block_runs_def)
    have k': "max_steps (step E) k m = (Val False, m\<lparr>ctx := c'\<lparr>ctx_pc := w\<rparr>\<rparr>)"
      using k by (cases m) (simp add: machine_of_def)
    show ?thesis
    proof (cases "w = ?pc")
      case True
      with run(2) have "c'\<lparr>ctx_pc := w\<rparr> = c'" by (cases c') (simp add: untouched_def)
      with k' have k2: "max_steps (step E) k m = (Val False, m\<lparr>ctx := c'\<rparr>)" by simp
      obtain q1 m1 where st: "step E (m\<lparr>ctx := c'\<rparr>) = (q1, m1)" by fastforce
      with r c ok(1) fn True have "q = q1" "s' = (m1, e1)"
        by (simp_all add: s jit_execute_def on_machine_def)
      with big_step_prefix [OF k2 big_step_one [of "step E", OF st]] ok(4) show ?thesis by (simp add: s)
    next
      case False
      have "ctx_exited c' = False" using run(2) ne by (simp add: untouched_def s)
      with r c ok(1) fn False have q: "q = Val True" "s' = (m\<lparr>ctx := c'\<lparr>ctx_pc := w\<rparr>\<rparr>, e1)"
        by (simp_all add: s jit_execute_def)
      have "k \<noteq> 0"
      proof
        assume "k = 0"
        with k' have "ctx m = c'\<lparr>ctx_pc := w\<rparr>" by (cases m) simp
        then have "?pc = w" by (metis cpu_context.select_convs(3) cpu_context.surjective cpu_context.update_convs(3))
        with False show False by simp
      qed
      then have "1 \<le> k" by simp
      with k' have "big_step (step E) m (Val True) (m\<lparr>ctx := c'\<lparr>ctx_pc := w\<rparr>\<rparr>)"
        by (auto simp: big_step_def)
      with q ok(4) show ?thesis by (simp add: s)
    qed
  qed
qed

text \<open>A chain of blocks: steps in a row, to a machine that runs on, has exited, or failed.\<close>

definition chain_result ::
  "('h, 'x) env \<Rightarrow> block_code \<Rightarrow> ('h, 'm) jit_state \<Rightarrow> bool \<Rightarrow> unit out \<Rightarrow> ('h, 'm) jit_state \<Rightarrow> bool" where
  "chain_result E code s some r s' \<longleftrightarrow>
     cache_ok E code (snd s') \<and>
     (if r = Val ()
      then (\<exists>j. max_steps (step E) j (fst s) = (Val False, fst s') \<and> (some \<longrightarrow> 1 \<le> j)) \<or>
           (\<exists>j. max_steps (step E) j (fst s) = (Val True, fst s'))
      else \<exists>j. max_steps (step E) j (fst s) = (bindO r (\<lambda>_. Val True), fst s'))"

lemma chain_result_stay: "cache_ok E code (snd s) \<Longrightarrow> chain_result E code s False (Val ()) s"
  unfolding chain_result_def by (intro conjI) (simp, simp, metis max_steps.simps(1))

lemma chain_sound:
  assumes "jit_inv E C code s" and "block_chain n E C s = (r, s')"
  shows "chain_result E code s (0 < n \<and> \<not> ctx_exited (ctx (fst s))) r s'"
  using assms
proof (induction n arbitrary: s)
  case 0
  then have "r = Val ()" "s' = s" by simp_all
  with 0(1) show ?case by (simp add: chain_result_stay jit_inv_def)
next
  case (Suc n)
  show ?case
  proof (cases "ctx_exited (ctx (fst s))")
    case True
    with Suc.prems have "r = Val ()" "s' = s" by simp_all
    with Suc.prems(1) True show ?thesis by (simp add: chain_result_stay jit_inv_def)
  next
    case False
    obtain q s1 where x: "jit_execute E C s = (q, s1)" by (metis surj_pair)
    from execute_sound [OF Suc.prems(1) False x]
    have b: "big_step (step E) (fst s) q (fst s1)" and co: "cache_ok E code (snd s1)" by blast+
    show ?thesis
    proof (cases "q = Val True")
      case True
      with b obtain j where j: "1 \<le> j" "max_steps (step E) j (fst s) = (Val False, fst s1)"
        by (auto simp: big_step_def)
      have i: "jit_inv E C code s1" by (rule jit_inv_steps [OF Suc.prems(1) j(2) co])
      from Suc.prems(2) False x True have "block_chain n E C s1 = (r, s')" by (simp add: bind_def)
      from Suc.IH [OF i this] have c: "chain_result E code s1 (0 < n \<and> \<not> ctx_exited (ctx (fst s1))) r s'" .
      have "1 \<le> j + k" for k using j(1) by simp
      with c max_steps_trans [OF j(2)] show ?thesis
        unfolding chain_result_def by (auto split: if_splits) (metis)+
    next
      case False
      then have r: "r = bindO q (\<lambda>_. Val ()) \<and> s' = s1"
        using Suc.prems(2) \<open>\<not> ctx_exited (ctx (fst s))\<close> x by (cases q) (simp_all add: bind_def)
      from b False obtain j where "max_steps (step E) j (fst s) = (if q = Val False then Val True else q, fst s1)"
        by (auto simp: big_step_def)
      with r co False show ?thesis
        by (cases q) (auto simp: chain_result_def)
    qed
  qed
qed

subsection \<open>The contract of the accelerated run\<close>

lemma round_sound:
  assumes i: "jit_inv E C code s" and ne: "\<not> ctx_exited (ctx (fst s))"
    and r: "jit_round E C s = (q, s')"
  shows "big_step (step E) (fst s) q (fst s') \<and> (q = Val True \<longrightarrow> jit_inv E C code s')"
proof -
  obtain r1 s1 where c: "block_chain 1000 E C s = (r1, s1)" by (metis surj_pair)
  from r ne c have q: "q = bindO r1 (\<lambda>_. Val (\<not> ctx_exited (ctx (fst s1)))) \<and> s' = s1"
    by (cases r1) (auto simp: jit_round_def execute_block_chain_def bind_def)
  have cr: "chain_result E code s True r1 s1" using chain_sound [OF i c] ne by simp
  show ?thesis
  proof (cases "r1 = Val ()")
    case True
    from cr True consider (run) j where "1 \<le> j" "max_steps (step E) j (fst s) = (Val False, fst s1)"
      | (ended) j where "max_steps (step E) j (fst s) = (Val True, fst s1)"
      by (auto simp: chain_result_def)
    then show ?thesis
    proof cases
      case run
      show ?thesis
      proof (cases "ctx_exited (ctx (fst s1))")
        case True
        then have "max_steps (step E) (j + 1) (fst s) = (Val True, fst s1)"
          using max_steps_trans [OF run(2), of 1] st.halted_stays [of "fst s1" E] by simp
        with q True \<open>r1 = Val ()\<close> show ?thesis
          by (auto simp: big_step_def simp del: max_steps.simps)
      next
        case False
        have "jit_inv E C code s1"
          by (rule jit_inv_steps [OF i run(2)]) (use cr in \<open>simp add: chain_result_def\<close>)
        with q False run \<open>r1 = Val ()\<close> show ?thesis by (auto simp: big_step_def)
      qed
    next
      case ended
      then have "run_loop (step E) (fst s) = Some (Val (), fst s1)"
        using run_loop_of_max_steps [OF ended] by (simp add: finished_def as_run_result_def)
      from st.run_ends_halted [OF this] q ended \<open>r1 = Val ()\<close> show ?thesis
        by (auto simp: big_step_def)
    qed
  next
    case False
    with cr obtain j where "max_steps (step E) j (fst s) = (bindO r1 (\<lambda>_. Val True), fst s1)"
      by (auto simp: chain_result_def)
    with q False show ?thesis by (cases r1) (auto simp: big_step_def)
  qed
qed

interpretation jit: accelerator "step E" "\<lambda>m. ctx_exited (ctx m)" "jit_round E C" fst "jit_inv E C code"
  for E :: "('h, 'x) env" and C :: "('h, 'm) cranelift" and code
proof unfold_locales
  show "big_step (step E) (fst s) q (fst s') \<and> (q = Val True \<longrightarrow> jit_inv E C code s')"
    if "jit_inv E C code s" "\<not> ctx_exited (ctx (fst s))" "jit_round E C s = (q, s')" for s q s'
    by (rule round_sound [OF that])
  show "jit_round E C s = (Val False, s)" if "ctx_exited (ctx (fst s))" for s
    using that by (simp add: jit_round_def)
qed

lemma jit_inv_new:
  "cranelift_ok (env_fpu E) C \<Longrightarrow> jit_safe E code m \<Longrightarrow> jit_inv E C code (m, jit_new md)"
  by (simp add: jit_inv_def cache_ok_def jit_new_def)

text \<open>C4: a run with the compiler and a run of the interpreter agree. For a code generator
  that meets the documented meaning of its instructions, and a program whose reached blocks
  are exact and still hold the code they were compiled from, the one returns exactly when the
  other does, with the same result, registers, memory and output.\<close>

theorem jit_run_agrees:
  assumes "cranelift_ok (env_fpu E) C" and "jit_safe E code m"
  shows "(\<exists>e. run_with_jit E C (m, jit_new md) = Some (r, (t, e))) = (run E m = Some (r, t))"
  using jit.runs_agree [OF jit_inv_new [OF assms]]
  by (fastforce simp: run_with_jit_def run_def)

subsection \<open>A concrete run\<close>

lemma demo_steps:
  assumes "run_max_steps demo_jit_env k demo_exit = (Val False, t)"
  shows "t = demo_exit \<or> t = demo_mid"
proof (cases k)
  case 0
  with assms show ?thesis by (simp add: run_max_steps_def)
next
  case (Suc i)
  with assms demo_mov_step demo_svc_step show ?thesis
    by (cases i) (simp_all add: run_max_steps_def)
qed

lemma demo_jit_safe: "jit_safe demo_jit_env demo_code demo_exit"
proof -
  have o: "env_oc demo_jit_env = True" by (simp add: demo_jit_env_def)
  have "entry_ok demo_jit_env demo_code t" if "t = demo_exit \<or> t = demo_mid" for t
    using that demo_exact [of "0x1000"] demo_exact [of "0x1004"] demo_code_total(2) [of "0x1000"]
      demo_code_total(2) [of "0x1004"] demo_exit_simps demo_mid_simps
    by (auto simp: entry_ok_def demo_code_def o)
  then show ?thesis using demo_steps demo_exit_wf by (auto simp: jit_safe_def)
qed

theorem jit_run_agrees_witness:
  "\<exists>e. run_with_jit demo_jit_env (demo_cranelift demo_fpu) (demo_exit, jit_new []) =
     Some (Val (), (exited_with 9 demo_mid, e))"
proof -
  have f: "env_fpu demo_jit_env = demo_fpu" by (simp add: demo_jit_env_def)
  have "run_max_steps demo_jit_env 2 demo_exit = (Val True, exited_with 9 demo_mid)"
    by (simp add: run_max_steps_def numeral_2_eq_2 demo_mov_step demo_svc_step)
  then have "run demo_jit_env demo_exit = Some (Val (), exited_with 9 demo_mid)"
    unfolding run_def run_max_steps_def by (subst st.run_iff_max_steps) blast
  with jit_run_agrees [OF demo_cranelift_ok [of demo_fpu, folded f] demo_jit_safe] show ?thesis
    by (simp add: f)
qed

end
