(* ===== verification/Spec2Isabelle.thy ===== *)
theory Spec2Isabelle
  imports Interp_Correct Bits_Correct Vector_Correct Float_Correct Syscall_Correct
    Loop_Correct Loader_Correct Vfs_Correct Jit_Run
begin

text \<open>
  A verification development for maarch64-core, a user-mode emulator that runs AArch64
  Linux and macOS programs on another host.

  \<^bold>\<open>The program.\<close> A loader (\<open>loader/\<close>) reads an executable, maps its segments into the
  address space (\<open>memory/\<close>), relocates them, sets the program break and builds the initial
  stack. The interpreter (\<open>interp/\<close>) then fetches, decodes and executes one instruction
  after the other on the register file (\<open>cpu/\<close>); the instruction SVC goes to the system
  call handlers (\<open>syscall/\<close>), which call the host's C library and the address space, and
  \<open>exit\<close> ends the run. The just-in-time compiler (\<open>jit/\<close>) translates basic blocks to
  Cranelift's intermediate code, keeps the compiled blocks by address and falls back to the
  interpreter where it has no translation. \<open>vfs/\<close> holds a mock password file.

  \<^bold>\<open>State.\<close> A machine is a record of the CPU context (\<open>ctx\<close>, the fields of
  \<open>CpuContext\<close>) and the memory system (\<open>mem\<close>: the fields of \<open>MemoryManager\<close>, the host
  memory behind the segments as a partial map from addresses to cells, the state of the
  kernel, and the text printed so far). A Rust function that can fail or panic is a function
  from a state to an outcome and a state: \<open>Val\<close>, \<open>Fail\<close> of the crate's error, or \<open>Crash\<close>
  (a panic, a fault on a raw pointer, or no return). \<open>oc\<close> says whether the crate is built
  with overflow checks. Machine integers are words of their width.

  \<^bold>\<open>Theories, and the code they model.\<close>
  \<^item> \<open>Prelude\<close>: errors, outcomes and state-passing computations (\<open>lib.rs\<close>);
    \<open>Rust_Std\<close>: the integer and string functions of the standard library in use.
  \<^item> \<open>Cpu\<close>: \<open>CpuContext\<close> (\<open>cpu/mod.rs\<close>); \<open>Bad64\<close>: the data of the disassembler crate and
    \<open>decoder/mod.rs\<close>.
  \<^item> \<open>Memory\<close>: \<open>MemoryManager\<close> (\<open>memory/mod.rs\<close>).
  \<^item> \<open>Operand\<close>, \<open>Vec_Lanes\<close>: the helpers at the top of \<open>interp/mod.rs\<close>;
    \<open>Interp_Arith\<close>, \<open>Interp_Branch\<close>, \<open>Interp_LoadStore\<close>, \<open>Interp_VecMem\<close>,
    \<open>Interp_Logic\<close>, \<open>Interp_Bitfield\<close>, \<open>Interp_Vector\<close>, \<open>Interp_Vector_Lanes\<close>,
    \<open>Interp_Float\<close>: the arms of \<open>Interpreter::step\<close>, one definition per arm;
    \<open>Interp\<close>: \<open>step\<close> itself and its drivers.
  \<^item> \<open>Syscall\<close>: the handlers and the dispatcher of \<open>syscall/\<close>.
  \<^item> \<open>Loader\<close>: \<open>ElfLoader\<close> (\<open>loader/mod.rs\<close>); \<open>Macho\<close>: \<open>MachOLoader\<close> (\<open>loader/macho.rs\<close>)
    and \<open>AutoLoader\<close>; \<open>Vfs\<close>: \<open>vfs/mod.rs\<close>.
  \<^item> \<open>Jit\<close>: \<open>jit/mod.rs\<close> (translation, block builder, cache, execution) and the two
    drivers of \<open>interp/mod.rs\<close> that use it.

  \<^bold>\<open>Interfaces.\<close> \<open>Memory_Iface\<close> states the contract of the address space as a locale
  (\<open>guest_memory\<close>: a partial byte map with a bulk read and write); \<open>Memory_Props\<close>
  interprets it for \<open>mem_read\<close> and \<open>mem_write\<close>, and the loads and stores, the
  system calls and the loaders rest on its facts. \<open>Stepper\<close> states what a driver needs of a
  step function and is interpreted for \<open>step\<close> in \<open>Interp\<close>; \<open>Accelerate\<close> extends it by an
  engine that takes several steps at once and is interpreted for the compiler in \<open>Jit_Run\<close>.

  \<^bold>\<open>What the lemmas show.\<close>
  \<^item> \<open>Memory_Props\<close>, \<open>Memory_Map\<close>, \<open>Memory_Correct\<close>: reads and writes refine the byte map of
    the segments, strings are read up to their terminator, mappings are zero, and what every
    branch of \<open>set_brk\<close> leaves.
  \<^item> \<open>Arith_Props\<close>, \<open>Operand_Props\<close>, \<open>Arith_Correct\<close>, \<open>Bits_Correct\<close>, \<open>Vector_Correct\<close>,
    \<open>Float_Correct\<close>, \<open>LoadStore_Correct\<close>: what the instructions compute, against
    arithmetic on numbers, lanes and fields.
  \<^item> \<open>Handlers_Wf\<close>, \<open>Machine_Wf\<close>: the register file stays well-formed; \<open>Footprint\<close>: the bytes
    of memory a step may change; \<open>Interp_Correct\<close>, \<open>Syscall_Correct\<close>, \<open>Loop_Correct\<close>: what a
    step keeps, calls and returns, the end of a run and of a counting loop, and the results
    of system calls.
  \<^item> \<open>Loader_Image\<close>, \<open>Loader_Stack\<close>, \<open>Stack_Abi\<close>, \<open>Loader_Correct\<close>: the image of a segment,
    packed relocations, thunks, and the initial stacks of both systems. \<open>Vfs_Correct\<close>: the
    fields of the password file.
  \<^item> \<open>Jit_Sem\<close> (the documented meaning of the intermediate code), \<open>Jit_Layout\<close> (the
    bytes of the \<open>repr(C)\<close> context with its padding; accesses outside it, out of alignment or
    to padding have no meaning), \<open>Jit_Direct\<close>, \<open>Jit_Insn\<close> (what the emitted code of one instruction
    does), \<open>Jit_Block\<close> (the loop invariant of the block builder), \<open>Jit_Exact\<close> (where it
    agrees with the interpreter), \<open>Jit_Correct\<close>, \<open>Jit_Run\<close>: every compiled body is
    well-typed, a block simulates interpreter steps, and both engines run programs alike.

  \<^bold>\<open>Loops and bounds.\<close> \<open>run\<close> and \<open>run_with_jit\<close> may run for ever: they are \<open>None\<close> then, and
  otherwise what some bounded run (\<open>max_steps\<close>) returns, so no fuel is lost. The block
  builder's \<open>MAX_INSTS\<close> (100) and the chain length (1000) are the constants of the code. The
  loops over bytes, segments and bit maps are total functions with a measure.

  \<^bold>\<open>Parameters and what is not modelled.\<close> The disassembler (\<open>bad64\<close>), the object file
  parser (\<open>object\<close>), the code generator (Cranelift), the kernel's memory calls, the C
  library, the file system and the rounding operations of floating-point numbers are code
  outside \<open>src/\<close> or of the host: they are arguments of the definitions, with their documented
  behaviour as hypotheses (\<open>mmap_contract\<close>, \<open>cranelift_ok\<close>) where a theorem needs it. The
  texts of memory and interpreter errors are kept as the values they are built from, and
  the tracing macros are left out.
\<close>

end
